theory Spec2Isabelle
  imports Complex_Main "HOL-Library.Multiset"
begin

section \<open>Document management of the legal-practice portal\<close>

text \<open>
  The repository holds two controllers for the same document feature:
  \<^item> \<^verbatim>\<open>backend/controllers/documentController.js\<close> with the model of
    \<^verbatim>\<open>unnamed/part_003\<close> (fields \<^verbatim>\<open>category\<close>, \<^verbatim>\<open>priority\<close>, \<^verbatim>\<open>isDeleted\<close>; soft delete);
    its functions keep their source names here;
  \<^item> \<^verbatim>\<open>unnamed/part_002\<close> (field \<^verbatim>\<open>documentType\<close>, \<^verbatim>\<open>lastAccessed\<close>; hard delete), whose
    Mongoose model is not among the sources; its functions carry the suffix \<open>_p2\<close>.

  The database, the file system, the clock and the middleware in front of a handler are
  written out as explicit state and explicit arguments, and requests are handled one
  after another. An ObjectId is a natural number, a date a number of milliseconds, a
  file's content a string. An identifier that arrives as a string (\<^verbatim>\<open>req.user.id\<close>, a
  route parameter, a value of the query string) is written as the ObjectId it spells,
  which is what a query through the schema casts it to; where the code hands the string
  to the database uncast, in the aggregation of the statistics, the model compares it as
  a string. \<^verbatim>\<open>populate\<close> (joining display names from the user store) is left out.
\<close>

type_synonym oid = nat
type_synonym date = nat
type_synonym bytes = string

subsection \<open>Replies of a handler\<close>

text \<open>
  \<open>Success c m x\<close> is \<^verbatim>\<open>res.status(c).json({success: true, message: m, data: x})\<close>,
  \<open>Failure c m\<close> is \<^verbatim>\<open>res.status(c).json({success: false, message: m})\<close>, and
  \<open>NoReply\<close> is a handler that ends without writing a response.
\<close>

datatype 'a reply = Success nat string 'a | Failure nat string | NoReply

subsection \<open>The Document record\<close>

text \<open>The fields both variants use; \<open>doc_id\<close> is \<^verbatim>\<open>_id\<close>.\<close>

record doc_base =
  doc_id :: oid
  lawyerId :: oid
  clientId :: oid
  title :: string
  description :: "string option"
  fileName :: string
  originalFileName :: string
  filePath :: string
  fileSize :: nat
  mimeType :: string
  status :: string
  tags :: "string list"
  uploadedBy :: oid
  reviewedBy :: "oid option"
  reviewedAt :: "date option"
  reviewNotes :: "string option"
  isPublic :: bool
  downloadCount :: nat
  createdAt :: date
  updatedAt :: date

text \<open>The schema of \<^verbatim>\<open>unnamed/part_003\<close>.\<close>

record document = doc_base +
  lawyerClientId :: oid
  category :: string
  priority :: string
  isDeleted :: bool
  lastDownloadedAt :: "date option"
  lastDownloadedBy :: "oid option"

text \<open>
  Modelled from the spec: the schema behind \<^verbatim>\<open>unnamed/part_002\<close> is not among the
  sources. Its document has the fields that controller reads and writes, which are the
  fields of the spec's data model for the \<^verbatim>\<open>documentType\<close> variant; there is no soft-delete
  flag in it.
\<close>

record document_p2 = doc_base +
  documentType :: string
  lastAccessed :: "date option"

text \<open>
  Modelled from the spec: the LawyerClient model is not among the sources. A row links a
  lawyer to a client and carries the two fields the controllers query: \<^verbatim>\<open>isArchived\<close>
  (documentController.js) and \<^verbatim>\<open>status\<close> (part_002).
\<close>

record lawyerClient =
  lc_id :: oid
  lc_lawyerId :: oid
  lc_clientId :: oid
  lc_status :: string
  isArchived :: bool

text \<open>
  The state: the Document collection in insertion order, the LawyerClient collection,
  the upload directory (path to content) and the next ObjectId the driver hands out.
\<close>

record 'd store =
  documents :: "'d list"
  relationships :: "lawyerClient list"
  files :: "string \<rightharpoonup> bytes"
  nextId :: oid


text \<open>
  What a call takes from its surroundings: the clock (\<^verbatim>\<open>new Date()\<close>), whether the
  database write of this call throws (connection loss and the like), and whether
  \<^verbatim>\<open>fs.unlink\<close> throws.
\<close>

record env =
  now :: date
  dbFails :: bool
  unlinkFails :: bool

text \<open>
  A file as multer's disk storage hands it to a handler in \<^verbatim>\<open>req.file\<close>; \<open>filename\<close>
  and \<open>path\<close> are the generated name and its place in the upload directory.
\<close>

record upfile =
  originalname :: string
  filename :: string
  path :: string
  size :: nat
  mimetype :: string
  content :: bytes

subsection \<open>JavaScript helpers\<close>

text \<open>A request value is a string or absent; \<open>truthy\<close> is JavaScript's \<^verbatim>\<open>if (v)\<close>.\<close>

definition truthy :: "string option \<Rightarrow> bool" where
  "truthy v = (case v of None \<Rightarrow> False | Some s \<Rightarrow> s \<noteq> [])"

text \<open>\<^verbatim>\<open>v || d\<close>\<close>

definition or_default :: "string option \<Rightarrow> string \<Rightarrow> string" where
  "or_default v d = (case v of None \<Rightarrow> d | Some s \<Rightarrow> if s = [] then d else s)"

definition is_space :: "char \<Rightarrow> bool" where
  "is_space c = (c \<in> set [CHR 0x09, CHR 0x0A, CHR 0x0B, CHR 0x0C, CHR 0x0D, CHR 0x20])"

text \<open>\<^verbatim>\<open>String.prototype.trim\<close>, on ASCII white space.\<close>

definition trim :: "string \<Rightarrow> string" where
  "trim s = rev (dropWhile is_space (rev (dropWhile is_space s)))"

text \<open>\<^verbatim>\<open>s.split(',')\<close>\<close>

fun split_comma :: "string \<Rightarrow> string list" where
  "split_comma [] = [[]]"
| "split_comma (c # cs) =
     (if c = CHR '','' then [] # split_comma cs
      else (case split_comma cs of [] \<Rightarrow> [[c]] | w # ws \<Rightarrow> (c # w) # ws))"

text \<open>\<^verbatim>\<open>tags ? tags.split(',').map(tag => tag.trim()) : []\<close>\<close>

definition parse_tags :: "string option \<Rightarrow> string list" where
  "parse_tags t = (case t of None \<Rightarrow> [] | Some s \<Rightarrow> if s = [] then [] else map trim (split_comma s))"

subsection \<open>The Mongoose model of \<^verbatim>\<open>unnamed/part_003\<close>\<close>

definition enum_category :: "string list" where
  "enum_category = [''contract'', ''legal_brief'', ''evidence'', ''correspondence'',
     ''court_document'', ''financial'', ''medical'', ''police_report'',
     ''witness_statement'', ''expert_report'', ''other'']"

definition enum_status :: "string list" where
  "enum_status = [''draft'', ''pending_review'', ''reviewed'', ''approved'', ''rejected'', ''archived'']"

definition enum_priority :: "string list" where
  "enum_priority = [''low'', ''medium'', ''high'', ''urgent'']"

text \<open>The validators of the schema, path by path (lengths are counted in characters).\<close>

definition v_title :: "document \<Rightarrow> bool" where
  "v_title d = (title d \<noteq> [] \<and> length (title d) \<le> 200)"

definition v_description :: "document \<Rightarrow> bool" where
  "v_description d = (case description d of None \<Rightarrow> True | Some s \<Rightarrow> length s \<le> 1000)"

definition v_file :: "document \<Rightarrow> bool" where
  "v_file d = (fileName d \<noteq> [] \<and> originalFileName d \<noteq> [] \<and> filePath d \<noteq> [] \<and> mimeType d \<noteq> [])"

definition v_category :: "document \<Rightarrow> bool" where
  "v_category d = (category d \<in> set enum_category)"

definition v_status :: "document \<Rightarrow> bool" where
  "v_status d = (status d \<in> set enum_status)"

definition v_priority :: "document \<Rightarrow> bool" where
  "v_priority d = (priority d \<in> set enum_priority)"

definition v_tags :: "document \<Rightarrow> bool" where
  "v_tags d = list_all (\<lambda>t. length t \<le> 50) (tags d)"

definition v_reviewNotes :: "document \<Rightarrow> bool" where
  "v_reviewNotes d = (case reviewNotes d of None \<Rightarrow> True | Some s \<Rightarrow> length s \<le> 1000)"

text \<open>Validation of a new document: every path.\<close>

definition schema_valid :: "document \<Rightarrow> bool" where
  "schema_valid d = (v_title d \<and> v_description d \<and> v_file d \<and> v_category d \<and> v_status d
     \<and> v_priority d \<and> v_tags d \<and> v_reviewNotes d)"

text \<open>
  Validation when a loaded document \<open>old\<close> is saved as \<open>new\<close>: the required paths and
  the modified paths.
\<close>

definition save_valid :: "document \<Rightarrow> document \<Rightarrow> bool" where
  "save_valid old new = (v_title new \<and> v_file new
     \<and> (description new = description old \<or> v_description new)
     \<and> (category new = category old \<or> v_category new)
     \<and> (status new = status old \<or> v_status new)
     \<and> (priority new = priority old \<or> v_priority new)
     \<and> (tags new = tags old \<or> v_tags new)
     \<and> (reviewNotes new = reviewNotes old \<or> v_reviewNotes new))"

text \<open>
  The pre-save middleware:
  \<^verbatim>\<open>if (this.isModified('status') && this.status === 'reviewed' && !this.reviewedAt)
    this.reviewedAt = new Date();\<close>
\<close>

definition pre_save :: "env \<Rightarrow> document \<Rightarrow> document \<Rightarrow> document" where
  "pre_save e old new =
     (if status new \<noteq> status old \<and> status new = ''reviewed'' \<and> reviewedAt new = None
      then new\<lparr>reviewedAt := Some (now e)\<rparr> else new)"

text \<open>The write of a saved document goes to the row with its \<^verbatim>\<open>_id\<close>.\<close>

fun replace_doc :: "('a doc_base_scheme) \<Rightarrow> ('a doc_base_scheme) list \<Rightarrow> ('a doc_base_scheme) list" where
  "replace_doc d [] = []"
| "replace_doc d (x # xs) = (if doc_id x = doc_id d then d # xs else x # replace_doc d xs)"

text \<open>
  \<^verbatim>\<open>document.save()\<close> on a document loaded as \<open>old\<close> and changed to \<open>new\<close>: validation,
  the pre-save middleware and, when a path was modified, the \<^verbatim>\<open>updatedAt\<close> timestamp
  and the write. \<open>None\<close> is a thrown error.
\<close>

definition save :: "env \<Rightarrow> document store \<Rightarrow> document \<Rightarrow> document \<Rightarrow> (document \<times> document store) option" where
  "save e st old new =
     (if \<not> save_valid old new then None
      else let n1 = pre_save e old new
           in if n1 = old then Some (n1, st)
              else if dbFails e then None
              else let n2 = n1\<lparr>updatedAt := now e\<rparr>
                   in Some (n2, st\<lparr>documents := replace_doc n2 (documents st)\<rparr>))"

text \<open>
  \<^verbatim>\<open>Document.create({...})\<close> with the fields the controller passes: the schema's defaults
  (\<^verbatim>\<open>status\<close>, \<^verbatim>\<open>isPublic\<close>, \<^verbatim>\<open>isDeleted\<close>, \<^verbatim>\<open>downloadCount\<close>), its \<^verbatim>\<open>trim\<close> setters, a new
  \<^verbatim>\<open>_id\<close>, the timestamps, validation, and the insert at the end of the collection.
\<close>

definition Document_create ::
  "env \<Rightarrow> document store \<Rightarrow> oid \<Rightarrow> oid \<Rightarrow> oid \<Rightarrow> string option \<Rightarrow> string option \<Rightarrow> upfile
     \<Rightarrow> string \<Rightarrow> string \<Rightarrow> string list \<Rightarrow> oid \<Rightarrow> (document \<times> document store) option" where
  "Document_create e st lawyer client lc ttl descr f cat prio tgs uploader =
     (let d = \<lparr> doc_id = nextId st, lawyerId = lawyer, clientId = client,
                title = (case ttl of None \<Rightarrow> [] | Some s \<Rightarrow> trim s),
                description = map_option trim descr,
                fileName = filename f, originalFileName = originalname f, filePath = path f,
                fileSize = size f, mimeType = mimetype f,
                status = ''pending_review'', tags = map trim tgs, uploadedBy = uploader,
                reviewedBy = None, reviewedAt = None, reviewNotes = None,
                isPublic = False, downloadCount = 0,
                createdAt = now e, updatedAt = now e,
                lawyerClientId = lc, category = cat, priority = prio, isDeleted = False,
                lastDownloadedAt = None, lastDownloadedBy = None \<rparr>
      in if \<not> schema_valid d \<or> dbFails e then None
         else Some (d, st\<lparr>documents := documents st @ [d], nextId := Suc (nextId st)\<rparr>))"


subsection \<open>The handlers of \<^verbatim>\<open>documentController.js\<close>\<close>

text \<open>
  An upload request as the handler meets it, from two places. The text fields are those
  of \<^verbatim>\<open>req.body\<close> as the middleware in front of the handler left it: \<open>u_valid\<close> is
  \<^verbatim>\<open>validationResult(req).isEmpty()\<close> of the route's validators over that body, and the
  handler destructures the same body before it calls multer, so what multer later parses
  into \<^verbatim>\<open>req.body\<close> is never read. \<open>u_isPublic\<close> is a visibility the caller may send
  along. \<open>u_file\<close> is the part named \<^verbatim>\<open>document\<close> that the handler's own multer call finds in
  the request stream, \<open>None\<close> when the request is not multipart or has no such part.
  The handler reaches 201 only for a request that brings both a validated body and a
  multipart stream, which takes a parser of multipart bodies in front of the route:
  behind \<^verbatim>\<open>express.json\<close> and \<^verbatim>\<open>express.urlencoded\<close> alone a multipart request has an empty
  body (so \<open>u_valid\<close> is false, \<^verbatim>\<open>clientId\<close> being required) and a JSON request has no part
  (so \<open>u_file\<close> is \<open>None\<close>).
\<close>

record upload_request =
  u_valid :: bool
  u_clientId :: oid
  u_title :: "string option"
  u_description :: "string option"
  u_category :: "string option"
  u_priority :: "string option"
  u_tags :: "string option"
  u_isPublic :: "bool option"
  u_file :: "upfile option"

definition allowedTypes :: "string list" where
  "allowedTypes = [''application/pdf'', ''application/msword'',
     ''application/vnd.openxmlformats-officedocument.wordprocessingml.document'',
     ''application/vnd.ms-excel'',
     ''application/vnd.openxmlformats-officedocument.spreadsheetml.sheet'',
     ''text/plain'', ''image/jpeg'', ''image/png'', ''image/gif'', ''image/webp'',
     ''application/zip'', ''application/x-rar-compressed'']"

definition fileFilter :: "upfile \<Rightarrow> bool" where
  "fileFilter f = (mimetype f \<in> set allowedTypes)"

definition fileSizeLimit :: nat where
  "fileSizeLimit = 50 * 1024 * 1024"

text \<open>
  \<^verbatim>\<open>LawyerClient.findOne({lawyerId, clientId, isArchived: false})\<close>
\<close>

definition findRelationship :: "'d store \<Rightarrow> oid \<Rightarrow> oid \<Rightarrow> lawyerClient option" where
  "findRelationship st lawyer client =
     find (\<lambda>r. lc_lawyerId r = lawyer \<and> lc_clientId r = client \<and> \<not> isArchived r) (relationships st)"

text \<open>
  \<^verbatim>\<open>uploadDocument\<close>: validation result, relationship, then multer
  (\<^verbatim>\<open>upload.single('document')\<close>: the file filter, the size limit, the write to disk),
  then the record. Multer's parser reports the limit as soon as a file has as many bytes
  as \<^verbatim>\<open>limits.fileSize\<close>, so a file of exactly 50 MB is refused too; a refused file is not
  left on disk. When \<^verbatim>\<open>Document.create\<close> throws, the handler unlinks the file
  (a failing unlink is logged only) and throws again inside multer's callback, where
  no \<^verbatim>\<open>catch\<close> is left to answer the request.
\<close>

definition writeFile :: "'d store \<Rightarrow> upfile \<Rightarrow> 'd store" where
  "writeFile st f = st\<lparr>files := fun_upd (files st) (path f) (Some (content f))\<rparr>"

text \<open>\<^verbatim>\<open>try { await fs.unlink(p) } catch (e) { console.error(...) }\<close>\<close>

definition unlink :: "env \<Rightarrow> 'd store \<Rightarrow> string \<Rightarrow> 'd store" where
  "unlink e st p = (if unlinkFails e then st else st\<lparr>files := fun_upd (files st) p None\<rparr>)"

definition uploadDocument ::
  "env \<Rightarrow> document store \<Rightarrow> oid \<Rightarrow> upload_request \<Rightarrow> document reply \<times> document store" where
  "uploadDocument e st lawyer req =
     (if \<not> u_valid req then (Failure 400 ''Validation errors'', st)
      else case findRelationship st lawyer (u_clientId req) of
        None \<Rightarrow> (Failure 404 ''Client relationship not found'', st)
      | Some lc \<Rightarrow>
         (case u_file req of
            None \<Rightarrow> (Failure 400 ''No file uploaded'', st)
          | Some f \<Rightarrow>
             if \<not> fileFilter f
             then (Failure 400 ''Invalid file type. Only PDF, Word, Excel, images, and archives are allowed.'', st)
             else if fileSizeLimit \<le> size f then (Failure 400 ''File too large'', st)
             else (case Document_create e (writeFile st f) lawyer (u_clientId req) (lc_id lc)
                          (u_title req) (u_description req) f
                          (or_default (u_category req) ''other'')
                          (or_default (u_priority req) ''medium'')
                          (parse_tags (u_tags req)) lawyer of
                     Some (d, st2) \<Rightarrow> (Success 201 ''Document uploaded successfully'' d, st2)
                   | None \<Rightarrow> (NoReply, unlink e (writeFile st f) (path f)))))"

text \<open>\<^verbatim>\<open>Document.findOne({_id: id, lawyerId, isDeleted: false})\<close>\<close>

definition findOne :: "document store \<Rightarrow> oid \<Rightarrow> oid \<Rightarrow> document option" where
  "findOne st i lawyer =
     find (\<lambda>d. doc_id d = i \<and> lawyerId d = lawyer \<and> \<not> isDeleted d) (documents st)"

definition getDocumentById :: "document store \<Rightarrow> oid \<Rightarrow> oid \<Rightarrow> document reply" where
  "getDocumentById st lawyer i =
     (case findOne st i lawyer of
        None \<Rightarrow> Failure 404 ''Document not found''
      | Some d \<Rightarrow> Success 200 [] d)"

text \<open>What a download sends: the three headers and the streamed file.\<close>

record download =
  contentType :: string
  attachmentName :: string
  contentLength :: nat
  body :: bytes

definition downloadDocument ::
  "env \<Rightarrow> document store \<Rightarrow> oid \<Rightarrow> oid \<Rightarrow> download reply \<times> document store" where
  "downloadDocument e st lawyer i =
     (case findOne st i lawyer of
        None \<Rightarrow> (Failure 404 ''Document not found'', st)
      | Some d \<Rightarrow>
         (case files st (filePath d) of
            None \<Rightarrow> (Failure 404 ''Document file not found'', st)
          | Some b \<Rightarrow>
             (case save e st d (d\<lparr>downloadCount := downloadCount d + 1,
                                   lastDownloadedAt := Some (now e),
                                   lastDownloadedBy := Some lawyer\<rparr>) of
                None \<Rightarrow> (Failure 500 ''Failed to download document'', st)
              | Some (d', st') \<Rightarrow>
                  (Success 200 [] \<lparr>contentType = mimeType d', attachmentName = originalFileName d',
                                   contentLength = fileSize d', body = b\<rparr>, st'))))"

record update_request =
  p_valid :: bool
  p_title :: "string option"
  p_description :: "string option"
  p_category :: "string option"
  p_priority :: "string option"
  p_tags :: "string option"
  p_status :: "string option"
  p_reviewNotes :: "string option"

text \<open>
  The assignments of \<^verbatim>\<open>updateDocument\<close>, in the order of the source. The last test reads
  \<^verbatim>\<open>document.status\<close> after the assignment two lines above it.
\<close>

definition apply_patch :: "env \<Rightarrow> oid \<Rightarrow> update_request \<Rightarrow> document \<Rightarrow> document" where
  "apply_patch e lawyer req d =
     (let d1 = (if truthy (p_title req) then d\<lparr>title := trim (or_default (p_title req) [])\<rparr> else d);
          d2 = (case p_description req of None \<Rightarrow> d1 | Some s \<Rightarrow> d1\<lparr>description := Some (trim s)\<rparr>);
          d3 = (if truthy (p_category req) then d2\<lparr>category := or_default (p_category req) []\<rparr> else d2);
          d4 = (if truthy (p_priority req) then d3\<lparr>priority := or_default (p_priority req) []\<rparr> else d3);
          d5 = (if truthy (p_tags req) then d4\<lparr>tags := map trim (parse_tags (p_tags req))\<rparr> else d4);
          d6 = (if truthy (p_status req) then d5\<lparr>status := or_default (p_status req) []\<rparr> else d5);
          d7 = (case p_reviewNotes req of None \<Rightarrow> d6 | Some s \<Rightarrow> d6\<lparr>reviewNotes := Some s\<rparr>)
      in if p_status req = Some ''reviewed'' \<and> status d7 \<noteq> ''reviewed''
         then d7\<lparr>reviewedBy := Some lawyer, reviewedAt := Some (now e)\<rparr> else d7)"

definition updateDocument ::
  "env \<Rightarrow> document store \<Rightarrow> oid \<Rightarrow> oid \<Rightarrow> update_request \<Rightarrow> document reply \<times> document store" where
  "updateDocument e st lawyer i req =
     (if \<not> p_valid req then (Failure 400 ''Validation errors'', st)
      else case findOne st i lawyer of
        None \<Rightarrow> (Failure 404 ''Document not found'', st)
      | Some d \<Rightarrow>
         (case save e st d (apply_patch e lawyer req d) of
            None \<Rightarrow> (Failure 500 ''Failed to update document'', st)
          | Some (d', st') \<Rightarrow> (Success 200 ''Document updated successfully'' d', st')))"

text \<open>\<^verbatim>\<open>deleteDocument\<close>: the soft delete.\<close>

definition deleteDocument ::
  "env \<Rightarrow> document store \<Rightarrow> oid \<Rightarrow> oid \<Rightarrow> unit reply \<times> document store" where
  "deleteDocument e st lawyer i =
     (case findOne st i lawyer of
        None \<Rightarrow> (Failure 404 ''Document not found'', st)
      | Some d \<Rightarrow>
         (case save e st d (d\<lparr>isDeleted := True\<rparr>) of
            None \<Rightarrow> (Failure 500 ''Failed to delete document'', st)
          | Some (d', st') \<Rightarrow> (Success 200 ''Document deleted successfully'' (), st')))"


subsection \<open>What the database engine contributes to a list query\<close>

text \<open>
  Two parts of a list query are decided inside the database and not by this repository:
  the order \<^verbatim>\<open>.sort({[sortBy]: 1 or -1})\<close> produces, and the meaning of a search string
  as a regular expression. Both are arguments of the list handlers:
  \<^item> a \<open>sorter\<close> takes the field name, the direction and the matching documents, and
    gives them back in order, or \<open>None\<close> when the engine rejects the sort;
  \<^item> a \<open>matcher\<close> compiles a pattern with option \<^verbatim>\<open>i\<close>, or gives \<open>None\<close> when the pattern
    is not a regular expression (the query throws).
\<close>

type_synonym 'd sorter = "string \<Rightarrow> int \<Rightarrow> 'd list \<Rightarrow> 'd list option"
type_synonym matcher = "string \<Rightarrow> (string \<Rightarrow> bool) option"

definition permuting :: "'d sorter \<Rightarrow> bool" where
  "permuting srt = (\<forall>f dir xs ys. srt f dir xs = Some ys \<longrightarrow> mset ys = mset xs)"

text \<open>
  Strings are taken to be ASCII. The printable characters other than the fourteen
  metacharacters of a regular expression (backslash, \<^verbatim>\<open>^ $ . | ? * + ( ) [ ] { }\<close>) are
  plain: letters, digits, the space, and the quotation marks (\<open>0x22\<close>, \<open>0x27\<close>, \<open>0x60\<close>),
  \<^verbatim>\<open>! # % & , - / : ; < = > @ _ ~\<close>. A pattern of plain characters, compiled with option
  \<^verbatim>\<open>i\<close>, matches the texts that contain it, letter case aside.
\<close>

definition plain_chars :: "char list" where
  "plain_chars = ''abcdefghijklmnopqrstuvwxyzABCDEFGHIJKLMNOPQRSTUVWXYZ0123456789 _-''
     @ [CHR 0x22, CHR 0x27, CHR 0x60] @ ''!#%&,/:;<=>@~''"

definition plain :: "string \<Rightarrow> bool" where
  "plain p = list_all (\<lambda>c. c \<in> set plain_chars) p"

definition lower :: "char \<Rightarrow> char" where
  "lower c = (case map_of (zip ''ABCDEFGHIJKLMNOPQRSTUVWXYZ'' ''abcdefghijklmnopqrstuvwxyz'') c of
                None \<Rightarrow> c | Some l \<Rightarrow> l)"

fun starts_with :: "string \<Rightarrow> string \<Rightarrow> bool" where
  "starts_with [] t = True"
| "starts_with (c # p) [] = False"
| "starts_with (c # p) (x # t) = (c = x \<and> starts_with p t)"

fun contains :: "string \<Rightarrow> string \<Rightarrow> bool" where
  "contains p [] = (p = [])"
| "contains p (x # t) = (starts_with p (x # t) \<or> contains p t)"

definition ci_contains :: "string \<Rightarrow> string \<Rightarrow> bool" where
  "ci_contains p t = contains (map lower p) (map lower t)"

definition regex_i :: "matcher \<Rightarrow> string \<Rightarrow> (string \<Rightarrow> bool) option" where
  "regex_i rx p = (if plain p then Some (ci_contains p) else rx p)"

text \<open>
  \<^verbatim>\<open>.skip(skip).limit(limit)\<close> for \<open>0 \<le> skip\<close>: a limit of 0 is no limit, a negative
  limit counts as its absolute value. A negative skip is rejected by the database, which
  the handlers answer with 500.
\<close>

definition page_slice :: "int \<Rightarrow> int \<Rightarrow> 'a list \<Rightarrow> 'a list" where
  "page_slice skip lmt xs =
     (let ys = drop (nat skip) xs in if lmt = 0 then ys else take (nat \<bar>lmt\<bar>) ys)"

text \<open>
  \<^verbatim>\<open>Math.ceil(total / limit)\<close>; \<open>None\<close> when the quotient is not finite (limit 0), which
  JSON writes as \<^verbatim>\<open>null\<close>.
\<close>

definition ceil_div :: "nat \<Rightarrow> int \<Rightarrow> int option" where
  "ceil_div cnt lmt = (if lmt = 0 then None else Some (- ((- int cnt) div lmt)))"

record pagination =
  currentPage :: int
  totalPages :: "int option"
  totalItems :: nat
  hasNext :: bool
  hasPrev :: bool

record ('d, 's) listing =
  l_documents :: "'d list"
  l_pagination :: pagination
  l_stats :: 's

text \<open>
  The pagination object of both list handlers, from \<^verbatim>\<open>parseInt(page)\<close>,
  \<^verbatim>\<open>parseInt(limit)\<close>, the page of documents and the count.
\<close>

definition paginate :: "int \<Rightarrow> int \<Rightarrow> 'a list \<Rightarrow> nat \<Rightarrow> pagination" where
  "paginate page lmt docs cnt =
     \<lparr> currentPage = page, totalPages = ceil_div cnt lmt, totalItems = cnt,
       hasNext = ((page - 1) * lmt + int (length docs) < int cnt),
       hasPrev = (1 < page) \<rparr>"

text \<open>
  An identifier in the query string: absent or empty, the word \<^verbatim>\<open>all\<close> (which is not an
  ObjectId), or an ObjectId.
\<close>

datatype qid = QAbsent | QAll | QId oid

subsection \<open>Statistics and list of \<^verbatim>\<open>documentController.js\<close>\<close>

record stats =
  totalDocuments :: nat
  totalSize :: nat
  byStatus :: "(string \<times> nat) list"
  byCategory :: "(string \<times> nat) list"

text \<open>\<^verbatim>\<open>acc[k] = (acc[k] || 0) + 1\<close> on an object whose keys keep their order of insertion.\<close>

fun bump :: "string \<Rightarrow> (string \<times> nat) list \<Rightarrow> (string \<times> nat) list" where
  "bump k [] = [(k, 1)]"
| "bump k ((k', n) # r) = (if k = k' then (k', n + 1) # r else (k', n) # bump k r)"

definition tally :: "string list \<Rightarrow> (string \<times> nat) list" where
  "tally ks = foldl (\<lambda>acc k. bump k acc) [] ks"

text \<open>
  A value as the database compares it in a \<^verbatim>\<open>$match\<close> stage: an ObjectId, the string of
  24 hexadecimal digits that spells an ObjectId, or another string. Values of different
  types are never equal. \<^verbatim>\<open>find\<close>, \<^verbatim>\<open>findOne\<close> and \<^verbatim>\<open>countDocuments\<close> cast a string to the
  type of the schema path before they ask the database; \<^verbatim>\<open>aggregate\<close> hands its pipeline
  over as it is.
\<close>

datatype bson = ObjectId oid | HexString oid | Text string

text \<open>
  The static \<^verbatim>\<open>getDocumentStats(lawyerId, clientId)\<close> of the model, with the arguments its
  two callers pass: \<^verbatim>\<open>req.user.id\<close>, which is a string, and \<^verbatim>\<open>clientId\<close> as it came from the
  query string. The \<^verbatim>\<open>$match\<close> stage compares these strings with the stored ObjectIds.
\<close>

definition stats_match :: "oid \<Rightarrow> qid \<Rightarrow> document \<Rightarrow> bool" where
  "stats_match lawyer c d =
     (ObjectId (lawyerId d) = HexString lawyer \<and> \<not> isDeleted d
      \<and> (case c of QAbsent \<Rightarrow> True
          | QAll \<Rightarrow> ObjectId (clientId d) = Text ''all''
          | QId c' \<Rightarrow> ObjectId (clientId d) = HexString c'))"

definition Document_getDocumentStats :: "document list \<Rightarrow> oid \<Rightarrow> qid \<Rightarrow> stats" where
  "Document_getDocumentStats docs lawyer c =
     (let ms = filter (stats_match lawyer c) docs
      in if ms = []
         then \<lparr> totalDocuments = 0, totalSize = 0, byStatus = [], byCategory = [] \<rparr>
         else \<lparr> totalDocuments = length ms, totalSize = sum_list (map fileSize ms),
                byStatus = tally (map status ms), byCategory = tally (map category ms) \<rparr>)"

definition getDocumentStats :: "document store \<Rightarrow> oid \<Rightarrow> qid \<Rightarrow> stats reply" where
  "getDocumentStats st lawyer c = Success 200 [] (Document_getDocumentStats (documents st) lawyer c)"

text \<open>
  The query string of a list call. \<open>q_page\<close> and \<open>q_limit\<close> are \<^verbatim>\<open>parseInt(page)\<close> and
  \<^verbatim>\<open>parseInt(limit)\<close> after the defaults 1 and 20 (a value that parses to no number is
  not modelled); the other values are strings or absent.
\<close>

record list_query =
  q_page :: int
  q_limit :: int
  q_clientId :: qid
  q_category :: "string option"
  q_status :: "string option"
  q_priority :: "string option"
  q_search :: "string option"
  q_sortBy :: "string option"
  q_sortOrder :: "string option"

text \<open>
  The \<^verbatim>\<open>$or\<close> of the search: title, description, and any tag.
\<close>

definition search_match :: "(string \<Rightarrow> bool) \<Rightarrow> document \<Rightarrow> bool" where
  "search_match m d =
     (m (title d) \<or> (case description d of None \<Rightarrow> False | Some s \<Rightarrow> m s) \<or> list_ex m (tags d))"

text \<open>An optional equality filter: \<^verbatim>\<open>if (v) query.field = v\<close>.\<close>

definition opt_eq :: "string option \<Rightarrow> string \<Rightarrow> bool" where
  "opt_eq v x = (if truthy v then v = Some x else True)"

text \<open>
  The query object of \<^verbatim>\<open>getDocuments\<close> as a predicate on a document; \<open>c\<close> is the cast
  client filter and \<open>m\<close> the compiled search, when there is one.
\<close>

definition query_match ::
  "oid \<Rightarrow> oid option \<Rightarrow> list_query \<Rightarrow> (string \<Rightarrow> bool) option \<Rightarrow> document \<Rightarrow> bool" where
  "query_match lawyer c q m d =
     (lawyerId d = lawyer \<and> \<not> isDeleted d
      \<and> (case c of None \<Rightarrow> True | Some c' \<Rightarrow> clientId d = c')
      \<and> opt_eq (q_category q) (category d)
      \<and> opt_eq (q_status q) (status d)
      \<and> opt_eq (q_priority q) (priority d)
      \<and> (case m of None \<Rightarrow> True | Some f \<Rightarrow> search_match f d))"

definition sort_dir :: "string option \<Rightarrow> int" where
  "sort_dir ord = (if ord = None \<or> ord = Some ''desc'' then - 1 else 1)"

definition sort_field :: "string option \<Rightarrow> string" where
  "sort_field f = (case f of None \<Rightarrow> ''createdAt'' | Some s \<Rightarrow> s)"

text \<open>
  \<^verbatim>\<open>getDocuments\<close>. Every thrown error (a client id that does not cast, a pattern that
  does not compile, a sort or a skip the database rejects) ends in the same 500 reply.
\<close>

definition getDocuments ::
  "document sorter \<Rightarrow> matcher \<Rightarrow> document store \<Rightarrow> oid \<Rightarrow> list_query
     \<Rightarrow> (document, stats) listing reply" where
  "getDocuments srt rx st lawyer q =
     (let skip = (q_page q - 1) * q_limit q;
          failed = Failure 500 ''Failed to fetch documents''
      in if q_clientId q = QAll then failed
         else if truthy (q_search q) \<and> regex_i rx (or_default (q_search q) []) = None then failed
         else
           let c = (case q_clientId q of QId c' \<Rightarrow> Some c' | _ \<Rightarrow> None);
               m = (if truthy (q_search q) then regex_i rx (or_default (q_search q) []) else None);
               found = filter (query_match lawyer c q m) (documents st)
           in case srt (sort_field (q_sortBy q)) (sort_dir (q_sortOrder q)) found of
                None \<Rightarrow> failed
              | Some ordered \<Rightarrow>
                  if skip < 0 then failed
                  else let docs = page_slice skip (q_limit q) ordered;
                           cnt = length found
                       in Success 200 []
                            \<lparr> l_documents = docs,
                              l_pagination = paginate (q_page q) (q_limit q) docs cnt,
                              l_stats = Document_getDocumentStats (documents st) lawyer (q_clientId q) \<rparr>)"


subsection \<open>The model behind \<^verbatim>\<open>unnamed/part_002\<close>\<close>

text \<open>
  Modelled from the spec: the Mongoose model that \<^verbatim>\<open>unnamed/part_002\<close> requires is not
  among the sources (the model of \<^verbatim>\<open>unnamed/part_003\<close> has neither \<^verbatim>\<open>documentType\<close> nor
  \<^verbatim>\<open>getLawyerDocumentStats\<close>). \<^verbatim>\<open>Document.create\<close> gives the new row an \<^verbatim>\<open>_id\<close>, the
  timestamps, the default status \<^verbatim>\<open>new\<close> and \<^verbatim>\<open>downloadCount = 0\<close>, as the spec's data model
  and its \<^verbatim>\<open>create\<close> say; \<open>isPublic\<close> is the value the controller passes. A write fails
  when the environment says so.
\<close>

definition Document_create_p2 ::
  "env \<Rightarrow> document_p2 store \<Rightarrow> oid \<Rightarrow> oid \<Rightarrow> string option \<Rightarrow> string option \<Rightarrow> upfile
     \<Rightarrow> string \<Rightarrow> string list \<Rightarrow> bool \<Rightarrow> oid \<Rightarrow> (document_p2 \<times> document_p2 store) option" where
  "Document_create_p2 e st lawyer client ttl descr f dtype tgs pub uploader =
     (let d = \<lparr> doc_id = nextId st, lawyerId = lawyer, clientId = client,
                title = (case ttl of None \<Rightarrow> [] | Some s \<Rightarrow> s),
                description = descr,
                fileName = filename f, originalFileName = originalname f, filePath = path f,
                fileSize = size f, mimeType = mimetype f,
                status = ''new'', tags = tgs, uploadedBy = uploader,
                reviewedBy = None, reviewedAt = None, reviewNotes = None,
                isPublic = pub, downloadCount = 0,
                createdAt = now e, updatedAt = now e,
                documentType = dtype, lastAccessed = None \<rparr>
      in if dbFails e then None
         else Some (d, st\<lparr>documents := documents st @ [d], nextId := Suc (nextId st)\<rparr>))"

text \<open>
  Modelled from the spec: \<^verbatim>\<open>document.save()\<close> of the missing model, with the timestamp
  and the write when a path was modified, and no validator or middleware.
\<close>

definition save_p2 ::
  "env \<Rightarrow> document_p2 store \<Rightarrow> document_p2 \<Rightarrow> document_p2 \<Rightarrow> (document_p2 \<times> document_p2 store) option" where
  "save_p2 e st old new =
     (if new = old then Some (new, st)
      else if dbFails e then None
      else let n2 = new\<lparr>updatedAt := now e\<rparr>
           in Some (n2, st\<lparr>documents := replace_doc n2 (documents st)\<rparr>))"

record stats_p2 =
  totalDocuments_p2 :: nat
  totalSize_p2 :: nat
  statusDistribution :: "(string \<times> nat) list"
  typeDistribution :: "(string \<times> nat) list"

text \<open>
  Modelled from the spec: the statics \<^verbatim>\<open>getLawyerDocumentStats(lawyerId)\<close> and
  \<^verbatim>\<open>getClientDocumentStats(lawyerId, clientId)\<close> of the missing model: count, sum of
  sizes, and the frequencies of status and type over the lawyer's (and client's)
  documents.
\<close>

definition summarize_p2 :: "document_p2 list \<Rightarrow> stats_p2" where
  "summarize_p2 ms =
     \<lparr> totalDocuments_p2 = length ms, totalSize_p2 = sum_list (map fileSize ms),
       statusDistribution = tally (map status ms),
       typeDistribution = tally (map documentType ms) \<rparr>"

definition getLawyerDocumentStats :: "document_p2 list \<Rightarrow> oid \<Rightarrow> stats_p2" where
  "getLawyerDocumentStats docs lawyer = summarize_p2 (filter (\<lambda>d. lawyerId d = lawyer) docs)"

definition getClientDocumentStats :: "document_p2 list \<Rightarrow> oid \<Rightarrow> oid \<Rightarrow> stats_p2" where
  "getClientDocumentStats docs lawyer client =
     summarize_p2 (filter (\<lambda>d. lawyerId d = lawyer \<and> clientId d = client) docs)"

subsection \<open>The handlers of \<^verbatim>\<open>unnamed/part_002\<close>\<close>

text \<open>
  The upload request as the handler finds it: multer ran in front of the handler, so the
  file of \<open>u2_file\<close> is on disk already when the handler starts.
\<close>

record upload_request_p2 =
  u2_valid :: bool
  u2_clientId :: oid
  u2_title :: "string option"
  u2_description :: "string option"
  u2_documentType :: "string option"
  u2_tags :: "string list option"
  u2_isPublic :: "bool option"
  u2_file :: "upfile option"

text \<open>
  \<^verbatim>\<open>LawyerClient.findOne({lawyerId, clientId, status: {$in: ['active', 'pending']}})\<close>
\<close>

definition findRelationship_p2 :: "'d store \<Rightarrow> oid \<Rightarrow> oid \<Rightarrow> lawyerClient option" where
  "findRelationship_p2 st lawyer client =
     find (\<lambda>r. lc_lawyerId r = lawyer \<and> lc_clientId r = client
                \<and> lc_status r \<in> set [''active'', ''pending'']) (relationships st)"

definition uploadDocument_p2 ::
  "env \<Rightarrow> document_p2 store \<Rightarrow> oid \<Rightarrow> upload_request_p2 \<Rightarrow> document_p2 reply \<times> document_p2 store" where
  "uploadDocument_p2 e st lawyer req =
     (if \<not> u2_valid req then (Failure 400 ''Validation errors'', st)
      else case findRelationship_p2 st lawyer (u2_clientId req) of
        None \<Rightarrow> (Failure 404 ''Client relationship not found or inactive'', st)
      | Some lc \<Rightarrow>
         (case u2_file req of
            None \<Rightarrow> (Failure 400 ''No file uploaded'', st)
          | Some f \<Rightarrow>
             (case Document_create_p2 e st lawyer (u2_clientId req)
                     (u2_title req) (u2_description req) f
                     (case u2_documentType req of None \<Rightarrow> ''other'' | Some t \<Rightarrow> t)
                     (case u2_tags req of None \<Rightarrow> [] | Some ts \<Rightarrow> ts)
                     False lawyer of
                Some (d, st2) \<Rightarrow> (Success 201 ''Document uploaded successfully'' d, st2)
              | None \<Rightarrow> (Failure 500 ''Failed to upload document'', st))))"

text \<open>\<^verbatim>\<open>Document.findOne({_id: id, lawyerId})\<close>\<close>

definition findOne_p2 :: "document_p2 store \<Rightarrow> oid \<Rightarrow> oid \<Rightarrow> document_p2 option" where
  "findOne_p2 st i lawyer = find (\<lambda>d. doc_id d = i \<and> lawyerId d = lawyer) (documents st)"

text \<open>\<^verbatim>\<open>getDocumentById\<close> also records the access and saves.\<close>

definition getDocumentById_p2 ::
  "env \<Rightarrow> document_p2 store \<Rightarrow> oid \<Rightarrow> oid \<Rightarrow> document_p2 reply \<times> document_p2 store" where
  "getDocumentById_p2 e st lawyer i =
     (case findOne_p2 st i lawyer of
        None \<Rightarrow> (Failure 404 ''Document not found'', st)
      | Some d \<Rightarrow>
         (case save_p2 e st d (d\<lparr>lastAccessed := Some (now e)\<rparr>) of
            None \<Rightarrow> (Failure 500 ''Failed to fetch document'', st)
          | Some (d', st') \<Rightarrow> (Success 200 [] d', st')))"

record update_request_p2 =
  p2_title :: "string option"
  p2_description :: "string option"
  p2_documentType :: "string option"
  p2_status :: "string option"
  p2_tags :: "string list option"
  p2_reviewNotes :: "string option"

definition review_terminal :: "string \<Rightarrow> bool" where
  "review_terminal s = (s = ''reviewed'' \<or> s = ''approved'' \<or> s = ''rejected'')"

definition apply_patch_p2 :: "env \<Rightarrow> oid \<Rightarrow> update_request_p2 \<Rightarrow> document_p2 \<Rightarrow> document_p2" where
  "apply_patch_p2 e lawyer req d =
     (let d1 = (case p2_title req of None \<Rightarrow> d | Some s \<Rightarrow> d\<lparr>title := s\<rparr>);
          d2 = (case p2_description req of None \<Rightarrow> d1 | Some s \<Rightarrow> d1\<lparr>description := Some s\<rparr>);
          d3 = (case p2_documentType req of None \<Rightarrow> d2 | Some s \<Rightarrow> d2\<lparr>documentType := s\<rparr>);
          d4 = (case p2_tags req of None \<Rightarrow> d3 | Some ts \<Rightarrow> d3\<lparr>tags := ts\<rparr>)
      in case p2_status req of
           None \<Rightarrow> d4
         | Some s \<Rightarrow>
            if s = status d4 then d4
            else let d5 = d4\<lparr>status := s\<rparr>
                 in if review_terminal s
                    then let d6 = d5\<lparr>reviewedBy := Some lawyer, reviewedAt := Some (now e)\<rparr>
                         in if truthy (p2_reviewNotes req)
                            then d6\<lparr>reviewNotes := p2_reviewNotes req\<rparr> else d6
                    else d5)"

definition updateDocument_p2 ::
  "env \<Rightarrow> document_p2 store \<Rightarrow> oid \<Rightarrow> oid \<Rightarrow> update_request_p2
     \<Rightarrow> document_p2 reply \<times> document_p2 store" where
  "updateDocument_p2 e st lawyer i req =
     (case findOne_p2 st i lawyer of
        None \<Rightarrow> (Failure 404 ''Document not found'', st)
      | Some d \<Rightarrow>
         (case save_p2 e st d (apply_patch_p2 e lawyer req d) of
            None \<Rightarrow> (Failure 500 ''Failed to update document'', st)
          | Some (d', st') \<Rightarrow> (Success 200 ''Document updated successfully'' d', st')))"

text \<open>\<^verbatim>\<open>Document.findByIdAndDelete(id)\<close> removes the row with that \<^verbatim>\<open>_id\<close>.\<close>

fun remove_doc :: "oid \<Rightarrow> ('a doc_base_scheme) list \<Rightarrow> ('a doc_base_scheme) list" where
  "remove_doc i [] = []"
| "remove_doc i (x # xs) = (if doc_id x = i then xs else x # remove_doc i xs)"

text \<open>
  \<^verbatim>\<open>deleteDocument\<close>: the hard delete. The file goes first (a failing unlink is logged
  only), then the row.
\<close>

definition deleteDocument_p2 ::
  "env \<Rightarrow> document_p2 store \<Rightarrow> oid \<Rightarrow> oid \<Rightarrow> unit reply \<times> document_p2 store" where
  "deleteDocument_p2 e st lawyer i =
     (case findOne_p2 st i lawyer of
        None \<Rightarrow> (Failure 404 ''Document not found'', st)
      | Some d \<Rightarrow>
         (let st1 = unlink e st (filePath d)
          in if dbFails e then (Failure 500 ''Failed to delete document'', st1)
             else (Success 200 ''Document deleted successfully'' (),
                   st1\<lparr>documents := remove_doc i (documents st1)\<rparr>)))"

text \<open>\<^verbatim>\<open>res.download(document.filePath, document.originalFileName)\<close>\<close>

record sent_file =
  sent_name :: string
  sent_body :: bytes

definition downloadDocument_p2 ::
  "env \<Rightarrow> document_p2 store \<Rightarrow> oid \<Rightarrow> oid \<Rightarrow> sent_file reply \<times> document_p2 store" where
  "downloadDocument_p2 e st lawyer i =
     (case findOne_p2 st i lawyer of
        None \<Rightarrow> (Failure 404 ''Document not found'', st)
      | Some d \<Rightarrow>
         (case files st (filePath d) of
            None \<Rightarrow> (Failure 404 ''File not found on server'', st)
          | Some b \<Rightarrow>
             (case save_p2 e st d (d\<lparr>downloadCount := downloadCount d + 1,
                                      lastAccessed := Some (now e)\<rparr>) of
                None \<Rightarrow> (Failure 500 ''Failed to download document'', st)
              | Some (d', st') \<Rightarrow>
                  (Success 200 [] \<lparr>sent_name = originalFileName d', sent_body = b\<rparr>, st'))))"

text \<open>
  \<^verbatim>\<open>getDocumentStats\<close>: by client when the query names one. For the word \<^verbatim>\<open>all\<close> the
  missing static is taken to match no document, as the aggregation of
  \<^verbatim>\<open>unnamed/part_003\<close> does.
\<close>

definition getDocumentStats_p2 :: "document_p2 store \<Rightarrow> oid \<Rightarrow> qid \<Rightarrow> stats_p2 reply" where
  "getDocumentStats_p2 st lawyer c =
     (case c of
        QAbsent \<Rightarrow> Success 200 [] (getLawyerDocumentStats (documents st) lawyer)
      | QAll \<Rightarrow> Success 200 [] (summarize_p2 [])
      | QId c' \<Rightarrow> Success 200 [] (getClientDocumentStats (documents st) lawyer c'))"

record list_query_p2 =
  q2_page :: int
  q2_limit :: int
  q2_status :: "string option"
  q2_documentType :: "string option"
  q2_clientId :: qid
  q2_search :: "string option"
  q2_sortBy :: "string option"
  q2_sortOrder :: "string option"

text \<open>The \<^verbatim>\<open>$or\<close> of the search: title, description, and original file name.\<close>

definition search_match_p2 :: "(string \<Rightarrow> bool) \<Rightarrow> document_p2 \<Rightarrow> bool" where
  "search_match_p2 m d =
     (m (title d) \<or> (case description d of None \<Rightarrow> False | Some s \<Rightarrow> m s) \<or> m (originalFileName d))"

text \<open>\<^verbatim>\<open>if (v && v !== 'all') query.field = v\<close>\<close>

definition opt_eq_all :: "string option \<Rightarrow> string \<Rightarrow> bool" where
  "opt_eq_all v x = (if truthy v \<and> v \<noteq> Some ''all'' then v = Some x else True)"

definition query_match_p2 ::
  "oid \<Rightarrow> list_query_p2 \<Rightarrow> (string \<Rightarrow> bool) option \<Rightarrow> document_p2 \<Rightarrow> bool" where
  "query_match_p2 lawyer q m d =
     (lawyerId d = lawyer
      \<and> opt_eq_all (q2_status q) (status d)
      \<and> opt_eq_all (q2_documentType q) (documentType d)
      \<and> (case q2_clientId q of QId c' \<Rightarrow> clientId d = c' | _ \<Rightarrow> True)
      \<and> (case m of None \<Rightarrow> True | Some f \<Rightarrow> search_match_p2 f d))"

definition getLawyerDocuments ::
  "document_p2 sorter \<Rightarrow> matcher \<Rightarrow> document_p2 store \<Rightarrow> oid \<Rightarrow> list_query_p2
     \<Rightarrow> (document_p2, stats_p2) listing reply" where
  "getLawyerDocuments srt rx st lawyer q =
     (let skip = (q2_page q - 1) * q2_limit q;
          failed = Failure 500 ''Failed to fetch documents''
      in if truthy (q2_search q) \<and> regex_i rx (or_default (q2_search q) []) = None then failed
         else
           let m = (if truthy (q2_search q) then regex_i rx (or_default (q2_search q) []) else None);
               found = filter (query_match_p2 lawyer q m) (documents st)
           in case srt (sort_field (q2_sortBy q)) (sort_dir (q2_sortOrder q)) found of
                None \<Rightarrow> failed
              | Some ordered \<Rightarrow>
                  if skip < 0 then failed
                  else let docs = page_slice skip (q2_limit q) ordered;
                           cnt = length found
                       in Success 200 []
                            \<lparr> l_documents = docs,
                              l_pagination = paginate (q2_page q) (q2_limit q) docs cnt,
                              l_stats = getLawyerDocumentStats (documents st) lawyer \<rparr>)"


subsection \<open>What a list call ranges over\<close>

text \<open>
  The documents that the query object of a list call matches, in collection order:
  what \<^verbatim>\<open>Document.find(query)\<close> sorts and cuts into pages, and what
  \<^verbatim>\<open>Document.countDocuments(query)\<close> counts. \<open>matching\<close> is for \<^verbatim>\<open>getDocuments\<close>,
  \<open>matching_p2\<close> for \<^verbatim>\<open>getLawyerDocuments\<close>.
\<close>

definition matching :: "matcher \<Rightarrow> document store \<Rightarrow> oid \<Rightarrow> list_query \<Rightarrow> document list" where
  "matching rx st lawyer q =
     filter (query_match lawyer (case q_clientId q of QId c' \<Rightarrow> Some c' | _ \<Rightarrow> None) q
               (if truthy (q_search q) then regex_i rx (or_default (q_search q) []) else None))
       (documents st)"

definition matching_p2 ::
  "matcher \<Rightarrow> document_p2 store \<Rightarrow> oid \<Rightarrow> list_query_p2 \<Rightarrow> document_p2 list" where
  "matching_p2 rx st lawyer q =
     filter (query_match_p2 lawyer q
               (if truthy (q2_search q) then regex_i rx (or_default (q2_search q) []) else None))
       (documents st)"

text \<open>A list call without any filter: no client, category or type, status, priority, search.\<close>

definition unfiltered :: "list_query \<Rightarrow> bool" where
  "unfiltered q = (q_clientId q = QAbsent \<and> \<not> truthy (q_category q) \<and> \<not> truthy (q_status q)
     \<and> \<not> truthy (q_priority q) \<and> \<not> truthy (q_search q))"

definition unfiltered_p2 :: "list_query_p2 \<Rightarrow> bool" where
  "unfiltered_p2 q = ((q2_clientId q = QAbsent \<or> q2_clientId q = QAll)
     \<and> (\<not> truthy (q2_status q) \<or> q2_status q = Some ''all'')
     \<and> (\<not> truthy (q2_documentType q) \<or> q2_documentType q = Some ''all'')
     \<and> \<not> truthy (q2_search q))"

subsection \<open>Sequences of requests\<close>

text \<open>
  The database keeps \<^verbatim>\<open>_id\<close> unique, and the driver never hands out an ObjectId twice:
  \<open>ids_ok\<close> says so of a state.
\<close>

definition ids_ok :: "('a doc_base_scheme) store \<Rightarrow> bool" where
  "ids_ok st = (distinct (map doc_id (documents st))
                \<and> list_all (\<lambda>d. doc_id d < nextId st) (documents st))"

text \<open>A request to \<^verbatim>\<open>documentController.js\<close>, and the state it leaves.\<close>

datatype request =
    Upload upload_request
  | List list_query
  | GetById oid
  | Download oid
  | Update oid update_request
  | Delete oid
  | Stats qid

fun step :: "document store \<Rightarrow> env \<times> oid \<times> request \<Rightarrow> document store" where
  "step st (e, lawyer, Upload req) = snd (uploadDocument e st lawyer req)"
| "step st (e, lawyer, List q) = st"
| "step st (e, lawyer, GetById i) = st"
| "step st (e, lawyer, Download i) = snd (downloadDocument e st lawyer i)"
| "step st (e, lawyer, Update i req) = snd (updateDocument e st lawyer i req)"
| "step st (e, lawyer, Delete i) = snd (deleteDocument e st lawyer i)"
| "step st (e, lawyer, Stats c) = st"

definition run :: "document store \<Rightarrow> (env \<times> oid \<times> request) list \<Rightarrow> document store" where
  "run st rs = foldl step st rs"

text \<open>The same for \<^verbatim>\<open>unnamed/part_002\<close>, where reading one document writes too.\<close>

datatype request_p2 =
    Upload_p2 upload_request_p2
  | List_p2 list_query_p2
  | GetById_p2 oid
  | Download_p2 oid
  | Update_p2 oid update_request_p2
  | Delete_p2 oid
  | Stats_p2 qid

fun step_p2 :: "document_p2 store \<Rightarrow> env \<times> oid \<times> request_p2 \<Rightarrow> document_p2 store" where
  "step_p2 st (e, lawyer, Upload_p2 req) = snd (uploadDocument_p2 e st lawyer req)"
| "step_p2 st (e, lawyer, List_p2 q) = st"
| "step_p2 st (e, lawyer, GetById_p2 i) = snd (getDocumentById_p2 e st lawyer i)"
| "step_p2 st (e, lawyer, Download_p2 i) = snd (downloadDocument_p2 e st lawyer i)"
| "step_p2 st (e, lawyer, Update_p2 i req) = snd (updateDocument_p2 e st lawyer i req)"
| "step_p2 st (e, lawyer, Delete_p2 i) = snd (deleteDocument_p2 e st lawyer i)"
| "step_p2 st (e, lawyer, Stats_p2 c) = st"

definition run_p2 :: "document_p2 store \<Rightarrow> (env \<times> oid \<times> request_p2) list \<Rightarrow> document_p2 store" where
  "run_p2 st rs = foldl step_p2 st rs"

subsection \<open>A small office, for evaluating the handlers\<close>

text \<open>
  Lawyer 7 has one client, 9, and one document on file; lawyer 8 has the same client and
  no document yet.
\<close>

definition doc0 :: document where
  "doc0 = \<lparr> doc_id = 0, lawyerId = 7, clientId = 9, title = ''Lease contract'',
      description = Some ''first draft'', fileName = ''document-1-1.pdf'',
      originalFileName = ''lease.pdf'', filePath = ''/uploads/document-1-1.pdf'',
      fileSize = 5, mimeType = ''application/pdf'', status = ''pending_review'',
      tags = [''lease''], uploadedBy = 7, reviewedBy = None, reviewedAt = None,
      reviewNotes = None, isPublic = False, downloadCount = 0, createdAt = 100,
      updatedAt = 100, lawyerClientId = 3, category = ''contract'', priority = ''medium'',
      isDeleted = False, lastDownloadedAt = None, lastDownloadedBy = None \<rparr>"

definition rel0 :: lawyerClient where
  "rel0 = \<lparr> lc_id = 3, lc_lawyerId = 7, lc_clientId = 9, lc_status = ''active'',
      isArchived = False \<rparr>"

definition rel8 :: lawyerClient where
  "rel8 = \<lparr> lc_id = 4, lc_lawyerId = 8, lc_clientId = 9, lc_status = ''pending'',
      isArchived = False \<rparr>"

definition store0 :: "document store" where
  "store0 = \<lparr> documents = [doc0], relationships = [rel0, rel8],
      files = [''/uploads/document-1-1.pdf'' \<mapsto> ''hello''], nextId = 1 \<rparr>"

definition env0 :: env where
  "env0 = \<lparr> now = 1000, dbFails = False, unlinkFails = False \<rparr>"

definition doc0_p2 :: document_p2 where
  "doc0_p2 = \<lparr> doc_id = 0, lawyerId = 7, clientId = 9, title = ''Lease contract'',
      description = Some ''first draft'', fileName = ''document-1-1.pdf'',
      originalFileName = ''lease.pdf'', filePath = ''/uploads/document-1-1.pdf'',
      fileSize = 5, mimeType = ''application/pdf'', status = ''new'',
      tags = [''lease''], uploadedBy = 7, reviewedBy = None, reviewedAt = None,
      reviewNotes = None, isPublic = False, downloadCount = 0, createdAt = 100,
      updatedAt = 100, documentType = ''contract'', lastAccessed = None \<rparr>"

definition store0_p2 :: "document_p2 store" where
  "store0_p2 = \<lparr> documents = [doc0_p2], relationships = [rel0, rel8],
      files = [''/uploads/document-1-1.pdf'' \<mapsto> ''hello''], nextId = 1 \<rparr>"

text \<open>A new will for client 9, sent with \<^verbatim>\<open>isPublic: true\<close>.\<close>

definition file1 :: upfile where
  "file1 = \<lparr> originalname = ''will.pdf'', filename = ''document-2-2.pdf'',
      path = ''/uploads/document-2-2.pdf'', size = 3, mimetype = ''application/pdf'',
      content = ''abc'' \<rparr>"

definition upload0 :: upload_request where
  "upload0 = \<lparr> u_valid = True, u_clientId = 9, u_title = Some ''Last will'',
      u_description = None, u_category = None, u_priority = Some ''high'',
      u_tags = Some ''will, family'', u_isPublic = Some True, u_file = Some file1 \<rparr>"

definition upload0_p2 :: upload_request_p2 where
  "upload0_p2 = \<lparr> u2_valid = True, u2_clientId = 9, u2_title = Some ''Last will'',
      u2_description = None, u2_documentType = None,
      u2_tags = Some [''will'', ''family''], u2_isPublic = Some True, u2_file = Some file1 \<rparr>"

definition doc1 :: document where
  "doc1 = \<lparr> doc_id = 1, lawyerId = 7, clientId = 9, title = ''Last will'',
      description = None, fileName = ''document-2-2.pdf'',
      originalFileName = ''will.pdf'', filePath = ''/uploads/document-2-2.pdf'',
      fileSize = 3, mimeType = ''application/pdf'', status = ''pending_review'',
      tags = [''will'', ''family''], uploadedBy = 7, reviewedBy = None, reviewedAt = None,
      reviewNotes = None, isPublic = False, downloadCount = 0, createdAt = 1000,
      updatedAt = 1000, lawyerClientId = 3, category = ''other'', priority = ''high'',
      isDeleted = False, lastDownloadedAt = None, lastDownloadedBy = None \<rparr>"

definition doc1_p2 :: document_p2 where
  "doc1_p2 = \<lparr> doc_id = 1, lawyerId = 7, clientId = 9, title = ''Last will'',
      description = None, fileName = ''document-2-2.pdf'',
      originalFileName = ''will.pdf'', filePath = ''/uploads/document-2-2.pdf'',
      fileSize = 3, mimeType = ''application/pdf'', status = ''new'',
      tags = [''will'', ''family''], uploadedBy = 7, reviewedBy = None, reviewedAt = None,
      reviewNotes = None, isPublic = False, downloadCount = 0, createdAt = 1000,
      updatedAt = 1000, documentType = ''other'', lastAccessed = None \<rparr>"

text \<open>The state in which the upload handler of \<^verbatim>\<open>unnamed/part_002\<close> starts: multer has
  written the file.\<close>

definition arrived_p2 :: "document_p2 store" where
  "arrived_p2 = writeFile store0_p2 file1"

text \<open>Lawyer 8 uploads the will, then lawyer 7 downloads the lease.\<close>

definition doc1_by8 :: document where
  "doc1_by8 = doc1\<lparr>lawyerId := 8, uploadedBy := 8, lawyerClientId := 4\<rparr>"

definition doc1_by8_p2 :: document_p2 where
  "doc1_by8_p2 = doc1_p2\<lparr>lawyerId := 8, uploadedBy := 8\<rparr>"

definition after_upload :: "document store" where
  "after_upload = run (snd (uploadDocument env0 store0 8 upload0)) [(env0, 7, Download 0)]"

definition after_upload_p2 :: "document_p2 store" where
  "after_upload_p2
     = run_p2 (snd (uploadDocument_p2 env0 arrived_p2 8 upload0_p2)) [(env0, 7, Download_p2 0)]"

subsection \<open>An engine and a full cabinet, for evaluating the list handlers\<close>

text \<open>
  A sorter that orders by \<^verbatim>\<open>createdAt\<close> and leaves every other field in collection
  order, a matcher that knows no pattern beyond the plain ones, and a collection in which
  lawyer 7 has 45 documents, with ids 0 to 44, between a document of lawyer 8 and, in
  \<^verbatim>\<open>documentController.js\<close>, a deleted document of lawyer 7.
\<close>

definition by_createdAt :: "('a doc_base_scheme) sorter" where
  "by_createdAt f dir xs =
     (if f = ''createdAt''
      then Some (if dir < 0 then rev (sort_key createdAt xs) else sort_key createdAt xs)
      else Some xs)"

definition plain_only :: matcher where
  "plain_only p = None"

definition store45 :: "document store" where
  "store45 = \<lparr> documents = doc0\<lparr>doc_id := 45, lawyerId := 8\<rparr>
          # map (\<lambda>i. doc0\<lparr>doc_id := i\<rparr>) [0..<45] @ [doc0\<lparr>doc_id := 46, isDeleted := True\<rparr>],
      relationships = [rel0, rel8],
      files = [''/uploads/document-1-1.pdf'' \<mapsto> ''hello''], nextId = 47 \<rparr>"

definition store45_p2 :: "document_p2 store" where
  "store45_p2 = \<lparr> documents = doc0_p2\<lparr>doc_id := 45, lawyerId := 8\<rparr>
          # map (\<lambda>i. doc0_p2\<lparr>doc_id := i\<rparr>) [0..<45] @ [doc0_p2\<lparr>doc_id := 46, lawyerId := 8\<rparr>],
      relationships = [rel0, rel8],
      files = [''/uploads/document-1-1.pdf'' \<mapsto> ''hello''], nextId = 47 \<rparr>"

definition page_query :: "int \<Rightarrow> list_query" where
  "page_query p = \<lparr> q_page = p, q_limit = 20, q_clientId = QAbsent, q_category = None,
      q_status = None, q_priority = None, q_search = None, q_sortBy = Some ''title'',
      q_sortOrder = Some ''asc'' \<rparr>"

definition page_query_p2 :: "int \<Rightarrow> list_query_p2" where
  "page_query_p2 p = \<lparr> q2_page = p, q2_limit = 20, q2_status = Some ''all'',
      q2_documentType = None, q2_clientId = QAll, q2_search = None,
      q2_sortBy = Some ''title'', q2_sortOrder = Some ''asc'' \<rparr>"

subsection \<open>How a stored document may change\<close>

text \<open>
  \<open>evolves d d'\<close>: \<open>d'\<close> is a later version of the row \<open>d\<close>, with the same id, owner,
  client, file and visibility and a download count that is not smaller; \<open>evolves_soft\<close>
  adds that a soft-deleted row stays soft-deleted. \<open>advances R st st'\<close>: every row of
  \<open>st'\<close> is a later version (by \<open>R\<close>) of a row of \<open>st\<close> or has an id \<open>st\<close> had not handed
  out yet.
\<close>

definition evolves :: "('a doc_base_scheme) \<Rightarrow> ('a doc_base_scheme) \<Rightarrow> bool" where
  "evolves d d' = (doc_id d' = doc_id d \<and> lawyerId d' = lawyerId d \<and> clientId d' = clientId d
     \<and> filePath d' = filePath d \<and> isPublic d' = isPublic d
     \<and> downloadCount d \<le> downloadCount d')"

definition evolves_soft :: "document \<Rightarrow> document \<Rightarrow> bool" where
  "evolves_soft d d' = (evolves d d' \<and> (isDeleted d \<longrightarrow> isDeleted d'))"

definition advances ::
  "(('a doc_base_scheme) \<Rightarrow> ('a doc_base_scheme) \<Rightarrow> bool)
     \<Rightarrow> ('a doc_base_scheme) store \<Rightarrow> ('a doc_base_scheme) store \<Rightarrow> bool" where
  "advances R st st' = (nextId st \<le> nextId st'
     \<and> (\<forall>d' \<in> set (documents st'). (\<exists>d \<in> set (documents st). R d d') \<or> nextId st \<le> doc_id d'))"

text \<open>The database without its soft-deleted rows.\<close>

definition live :: "document store \<Rightarrow> document store" where
  "live st = st\<lparr>documents := filter (\<lambda>d. \<not> isDeleted d) (documents st)\<rparr>"

text \<open>
  Both lawyers have a document; lawyer 7 deletes the lease, then lawyer 8 downloads the
  will and lawyer 7 tries to retitle the deleted lease.
\<close>

definition two_docs :: "document store" where
  "two_docs = snd (uploadDocument env0 store0 8 upload0)"

definition two_docs_p2 :: "document_p2 store" where
  "two_docs_p2 = snd (uploadDocument_p2 env0 arrived_p2 8 upload0_p2)"

definition retitle :: update_request where
  "retitle = \<lparr> p_valid = True, p_title = Some ''Lease (signed)'', p_description = None,
      p_category = None, p_priority = None, p_tags = None, p_status = None,
      p_reviewNotes = None \<rparr>"

definition retitle_p2 :: update_request_p2 where
  "retitle_p2 = \<lparr> p2_title = Some ''Lease (signed)'', p2_description = None,
      p2_documentType = None, p2_status = None, p2_tags = None, p2_reviewNotes = None \<rparr>"

definition later :: "(env \<times> oid \<times> request) list" where
  "later = [(env0, 8, Download 1), (env0, 7, Update 0 retitle)]"

definition later_p2 :: "(env \<times> oid \<times> request_p2) list" where
  "later_p2 = [(env0, 8, Download_p2 1), (env0, 7, Update_p2 0 retitle_p2)]"

definition deleted0 :: "document store" where
  "deleted0 = snd (deleteDocument env0 two_docs 7 0)"

definition deleted0_p2 :: "document_p2 store" where
  "deleted0_p2 = snd (deleteDocument_p2 env0 two_docs_p2 7 0)"

text \<open>Lawyer 7 downloads the lease three times.\<close>

definition pdf0 :: download where
  "pdf0 = \<lparr> contentType = ''application/pdf'', attachmentName = ''lease.pdf'',
      contentLength = 5, body = ''hello'' \<rparr>"

definition sent0 :: sent_file where
  "sent0 = \<lparr> sent_name = ''lease.pdf'', sent_body = ''hello'' \<rparr>"

definition once :: "document store" where
  "once = snd (downloadDocument env0 store0 7 0)"

definition twice :: "document store" where
  "twice = snd (downloadDocument env0 once 7 0)"

definition thrice :: "document store" where
  "thrice = snd (downloadDocument env0 twice 7 0)"

definition once_p2 :: "document_p2 store" where
  "once_p2 = snd (downloadDocument_p2 env0 store0_p2 7 0)"

definition twice_p2 :: "document_p2 store" where
  "twice_p2 = snd (downloadDocument_p2 env0 once_p2 7 0)"

definition thrice_p2 :: "document_p2 store" where
  "thrice_p2 = snd (downloadDocument_p2 env0 twice_p2 7 0)"

definition reads :: "(env \<times> oid \<times> request) list" where
  "reads = [(env0, 7, Download 0), (env0, 7, GetById 0), (env0, 7, List (page_query 1))]"

definition reads_p2 :: "(env \<times> oid \<times> request_p2) list" where
  "reads_p2 = [(env0, 7, Download_p2 0), (env0, 7, GetById_p2 0),
               (env0, 7, List_p2 (page_query_p2 1))]"

definition doc0_once :: document where
  "doc0_once = doc0\<lparr>downloadCount := 1, lastDownloadedAt := Some 1000,
       lastDownloadedBy := Some 7, updatedAt := 1000\<rparr>"

definition doc0_once_p2 :: document_p2 where
  "doc0_once_p2 = doc0_p2\<lparr>downloadCount := 1, lastAccessed := Some 1000, updatedAt := 1000\<rparr>"

text \<open>Lawyer 7 marks the lease as reviewed, or as approved.\<close>

definition mark_as :: "string \<Rightarrow> update_request" where
  "mark_as s = \<lparr> p_valid = True, p_title = None, p_description = None,
      p_category = None, p_priority = None, p_tags = None, p_status = Some s,
      p_reviewNotes = None \<rparr>"

definition mark_as_p2 :: "string \<Rightarrow> update_request_p2" where
  "mark_as_p2 s = \<lparr> p2_title = None, p2_description = None, p2_documentType = None,
      p2_status = Some s, p2_tags = None, p2_reviewNotes = None \<rparr>"

text \<open>The database is down; and lawyer 6, who has no client.\<close>

definition env_down :: env where
  "env_down = \<lparr> now = 1000, dbFails = True, unlinkFails = False \<rparr>"

subsection \<open>Searching, in the words of the spec\<close>

text \<open>
  \<open>ci_substring s t\<close>: the text \<open>t\<close> contains \<open>s\<close> as a substring, letter case aside.
  \<open>mentions\<close> are the fields \<^verbatim>\<open>documentController.js\<close> searches, \<open>mentions_p2\<close> those of
  \<^verbatim>\<open>unnamed/part_002\<close>.
\<close>

definition ci_substring :: "string \<Rightarrow> string \<Rightarrow> bool" where
  "ci_substring s t = (\<exists>u v. map lower t = u @ map lower s @ v)"

definition mentions :: "string \<Rightarrow> document \<Rightarrow> bool" where
  "mentions s d = (ci_substring s (title d)
     \<or> (\<exists>x. description d = Some x \<and> ci_substring s x)
     \<or> (\<exists>t \<in> set (tags d). ci_substring s t))"

definition mentions_p2 :: "string \<Rightarrow> document_p2 \<Rightarrow> bool" where
  "mentions_p2 s d = (ci_substring s (title d)
     \<or> (\<exists>x. description d = Some x \<and> ci_substring s x)
     \<or> ci_substring s (originalFileName d))"

text \<open>
  A matcher for patterns of plain characters and dots, where a dot stands for any one
  character but a line break; it knows no other pattern.
\<close>

fun wild_starts :: "string \<Rightarrow> string \<Rightarrow> bool" where
  "wild_starts [] t = True"
| "wild_starts (c # p) [] = False"
| "wild_starts (c # p) (x # t) = ((c = CHR ''.'' \<and> x \<noteq> CHR 0x0A \<or> c = x) \<and> wild_starts p t)"

fun wild_contains :: "string \<Rightarrow> string \<Rightarrow> bool" where
  "wild_contains p [] = (p = [])"
| "wild_contains p (x # t) = (wild_starts p (x # t) \<or> wild_contains p t)"

definition dots :: matcher where
  "dots p = (if list_all (\<lambda>c. c \<in> set plain_chars \<or> c = CHR ''.'') p
             then Some (\<lambda>t. wild_contains (map lower p) (map lower t)) else None)"

text \<open>
  Two documents of lawyer 7 in either collection: a scan whose file name alone says
  \<^verbatim>\<open>contract\<close> and a memo whose tag alone says so; and the searches for \<^verbatim>\<open>contract\<close> and
  for \<^verbatim>\<open>l.ase\<close>.
\<close>

definition scan :: document where
  "scan = doc0\<lparr>title := ''Power of attorney'', description := None,
      originalFileName := ''contract-scan.pdf'', tags := [], category := ''other''\<rparr>"

definition memo :: document where
  "memo = doc0\<lparr>doc_id := 1, title := ''Meeting note'', description := None,
      originalFileName := ''note.txt'', tags := [''contract''], category := ''other''\<rparr>"

definition scan_p2 :: document_p2 where
  "scan_p2 = doc0_p2\<lparr>title := ''Power of attorney'', description := None,
      originalFileName := ''contract-scan.pdf'', tags := [], documentType := ''other''\<rparr>"

definition memo_p2 :: document_p2 where
  "memo_p2 = doc0_p2\<lparr>doc_id := 1, title := ''Meeting note'', description := None,
      originalFileName := ''note.txt'', tags := [''contract''], documentType := ''other''\<rparr>"

definition cabinet :: "document store" where
  "cabinet = store0\<lparr>documents := [scan, memo], nextId := 2\<rparr>"

definition cabinet_p2 :: "document_p2 store" where
  "cabinet_p2 = store0_p2\<lparr>documents := [scan_p2, memo_p2], nextId := 2\<rparr>"

definition search_for :: "string \<Rightarrow> list_query" where
  "search_for s = \<lparr> q_page = 1, q_limit = 20, q_clientId = QAbsent, q_category = None,
      q_status = None, q_priority = None, q_search = Some s, q_sortBy = None,
      q_sortOrder = None \<rparr>"

definition search_for_p2 :: "string \<Rightarrow> list_query_p2" where
  "search_for_p2 s = \<lparr> q2_page = 1, q2_limit = 20, q2_status = None,
      q2_documentType = None, q2_clientId = QAbsent, q2_search = Some s,
      q2_sortBy = None, q2_sortOrder = None \<rparr>"

section \<open>Properties\<close>

subsection \<open>Lists of documents\<close>

lemma find_SomeD: "find P xs = Some x \<Longrightarrow> x \<in> set xs \<and> P x"
  by (induction xs) (auto split: if_splits)

lemma id_in_ids: "y \<in> set xs \<Longrightarrow> doc_id y \<in> set (map doc_id xs)"
  by simp

lemma replace_doc_same_id:
  "distinct (map doc_id xs) \<Longrightarrow> y \<in> set (replace_doc d xs) \<Longrightarrow> doc_id y = doc_id d \<Longrightarrow> y = d"
proof (induction xs)
  case Nil
  then show ?case by simp
next
  case (Cons a xs)
  show ?case
  proof (cases "doc_id a = doc_id d")
    case True
    with Cons.prems have "y = d \<or> y \<in> set xs" by simp
    moreover have "y \<notin> set xs"
    proof
      assume "y \<in> set xs"
      then have m: "doc_id y \<in> set (map doc_id xs)" by (rule id_in_ids)
      from Cons.prems have n: "doc_id a \<notin> set (map doc_id xs)" by simp
      from m n True Cons.prems(3) show False by metis
    qed
    ultimately show ?thesis by simp
  next
    case False
    with Cons.prems have "y = a \<or> y \<in> set (replace_doc d xs)" by simp
    with False Cons.prems Cons.IH show ?thesis by auto
  qed
qed

lemma remove_doc_gone:
  "distinct (map doc_id xs) \<Longrightarrow> y \<in> set (remove_doc i xs) \<Longrightarrow> doc_id y \<noteq> i"
proof (induction xs)
  case Nil
  then show ?case by simp
next
  case (Cons a xs)
  show ?case
  proof (cases "doc_id a = i")
    case True
    with Cons.prems have "y \<in> set xs" by simp
    then have m: "doc_id y \<in> set (map doc_id xs)" by (rule id_in_ids)
    from Cons.prems have n: "doc_id a \<notin> set (map doc_id xs)" by simp
    from m n True show ?thesis by metis
  next
    case False
    with Cons.prems have "y = a \<or> y \<in> set (remove_doc i xs)" by simp
    with False Cons.prems Cons.IH show ?thesis by auto
  qed
qed

lemma replace_doc_ids: "map doc_id (replace_doc d xs) = map doc_id xs"
  by (induction xs) auto

lemma replace_doc_mem: "y \<in> set (replace_doc d xs) \<Longrightarrow> y = d \<or> y \<in> set xs"
  by (induction xs) (auto split: if_splits)

lemma replace_doc_keeps:
  "y \<in> set xs \<Longrightarrow> doc_id y \<noteq> doc_id d \<Longrightarrow> y \<in> set (replace_doc d xs)"
  by (induction xs) (auto split: if_splits)

lemma replace_doc_in:
  "x \<in> set xs \<Longrightarrow> doc_id x = doc_id d \<Longrightarrow> d \<in> set (replace_doc d xs)"
  by (induction xs) (auto split: if_splits)

lemma remove_doc_subset: "y \<in> set (remove_doc i xs) \<Longrightarrow> y \<in> set xs"
  by (induction xs) (auto split: if_splits)

lemma remove_doc_keeps:
  "y \<in> set xs \<Longrightarrow> doc_id y \<noteq> i \<Longrightarrow> y \<in> set (remove_doc i xs)"
  by (induction xs) (auto split: if_splits)

lemma remove_doc_ids: "map doc_id (remove_doc i xs) = remove1 i (map doc_id xs)"
  by (induction xs) auto

subsection \<open>Saving\<close>

lemma save_cases:
  assumes "save e st old new = Some (d', st')"
  shows "(d' = old \<and> st' = st) \<or>
         (d' = (pre_save e old new)\<lparr>updatedAt := now e\<rparr>
          \<and> st' = st\<lparr>documents := replace_doc d' (documents st)\<rparr>)"
  using assms by (auto simp: save_def Let_def split: if_splits)

subsection \<open>Deleting twice\<close>

lemma soft_delete_twice:
  assumes ok: "ids_ok st"
    and del: "deleteDocument e st lawyer i = (Success c m u, st')"
  shows "deleteDocument e' st' lawyer' i = (Failure 404 ''Document not found'', st')"
proof -
  from del obtain d d' where f: "findOne st i lawyer = Some d"
    and s: "save e st d (d\<lparr>isDeleted := True\<rparr>) = Some (d', st')"
    by (auto simp: deleteDocument_def split: option.splits)
  from f have di: "doc_id d = i" and nd: "\<not> isDeleted d"
    by (auto simp: findOne_def dest: find_SomeD)
  have ps: "pre_save e d (d\<lparr>isDeleted := True\<rparr>) = d\<lparr>isDeleted := True\<rparr>"
    by (simp add: pre_save_def)
  have ne: "d\<lparr>isDeleted := True\<rparr> \<noteq> d"
  proof
    assume "d\<lparr>isDeleted := True\<rparr> = d"
    then have "isDeleted (d\<lparr>isDeleted := True\<rparr>) = isDeleted d" by simp
    with nd show False by simp
  qed
  from s ne have d': "d' = d\<lparr>isDeleted := True, updatedAt := now e\<rparr>"
    and st': "st' = st\<lparr>documents := replace_doc d' (documents st)\<rparr>"
    by (auto simp: save_def ps Let_def split: if_splits)
  have "findOne st' i lawyer' = None"
  proof (rule ccontr)
    assume "findOne st' i lawyer' \<noteq> None"
    then obtain y where y: "y \<in> set (documents st')" "doc_id y = i" "\<not> isDeleted y"
      by (auto simp: findOne_def dest: find_SomeD)
    from ok have dist: "distinct (map doc_id (documents st))" by (simp add: ids_ok_def)
    have "doc_id d' = i" using d' di by simp
    with y st' have "y = d'"
      using replace_doc_same_id[OF dist, of y d'] by simp
    with y d' show False by simp
  qed
  then show ?thesis by (simp add: deleteDocument_def)
qed

lemma hard_delete_twice:
  assumes ok: "ids_ok st"
    and del: "deleteDocument_p2 e st lawyer i = (Success c m u, st')"
  shows "deleteDocument_p2 e' st' lawyer' i = (Failure 404 ''Document not found'', st')"
proof -
  from del obtain d where f: "findOne_p2 st i lawyer = Some d"
    and st': "st' = (unlink e st (filePath d))
        \<lparr>documents := remove_doc i (documents (unlink e st (filePath d)))\<rparr>"
    by (auto simp: deleteDocument_p2_def Let_def split: option.splits if_splits)
  have docs: "documents st' = remove_doc i (documents st)"
    using st' by (simp add: unlink_def)
  from ok have dist: "distinct (map doc_id (documents st))" by (simp add: ids_ok_def)
  have "findOne_p2 st' i lawyer' = None"
  proof (rule ccontr)
    assume "findOne_p2 st' i lawyer' \<noteq> None"
    then obtain y where y: "y \<in> set (documents st')" "doc_id y = i"
      by (auto simp: findOne_p2_def dest: find_SomeD)
    with docs remove_doc_gone[OF dist, of y i] show False by simp
  qed
  then show ?thesis by (simp add: deleteDocument_p2_def)
qed

lemma ids_ok_store0: "ids_ok store0"
  by (simp add: ids_ok_def store0_def doc0_def)

lemma ids_ok_store0_p2: "ids_ok store0_p2"
  by (simp add: ids_ok_def store0_p2_def doc0_p2_def)

lemma delete_store0:
  "fst (deleteDocument env0 store0 7 0) = Success 200 ''Document deleted successfully'' ()"
  by (simp add: deleteDocument_def findOne_def store0_def doc0_def env0_def save_def
      save_valid_def v_title_def v_file_def pre_save_def Let_def)

lemma delete_store0_p2:
  "fst (deleteDocument_p2 env0 store0_p2 7 0) = Success 200 ''Document deleted successfully'' ()"
  by (simp add: deleteDocument_p2_def findOne_p2_def store0_p2_def doc0_p2_def env0_def Let_def)

text \<open>
  C10. In a state with unique ids, once a delete of document \<open>i\<close> has succeeded, a second
  delete of \<open>i\<close>, by whichever lawyer and at whatever time, is answered 404
  \<^verbatim>\<open>Document not found\<close> and leaves the state as it was: in
  \<^verbatim>\<open>documentController.js\<close> because the lookup asks for \<^verbatim>\<open>isDeleted: false\<close>, in
  \<^verbatim>\<open>unnamed/part_002\<close> because the row is gone.
\<close>

theorem second_delete_not_found:
  "(ids_ok st \<and> deleteDocument e st lawyer i = (Success c m u, st')
      \<longrightarrow> deleteDocument e' st' lawyer' i = (Failure 404 ''Document not found'', st'))
   \<and> (ids_ok s2 \<and> deleteDocument_p2 e2 s2 lawyer2 i2 = (Success c2 m2 u2, s2')
      \<longrightarrow> deleteDocument_p2 e2' s2' lawyer2' i2 = (Failure 404 ''Document not found'', s2'))"
  using soft_delete_twice hard_delete_twice by blast

theorem second_delete_not_found_witness:
  "ids_ok store0
   \<and> fst (deleteDocument env0 store0 7 0) = Success 200 ''Document deleted successfully'' ()
   \<and> deleteDocument env0 (snd (deleteDocument env0 store0 7 0)) 7 0
       = (Failure 404 ''Document not found'', snd (deleteDocument env0 store0 7 0))
   \<and> ids_ok store0_p2
   \<and> fst (deleteDocument_p2 env0 store0_p2 7 0) = Success 200 ''Document deleted successfully'' ()
   \<and> deleteDocument_p2 env0 (snd (deleteDocument_p2 env0 store0_p2 7 0)) 7 0
       = (Failure 404 ''Document not found'', snd (deleteDocument_p2 env0 store0_p2 7 0))"
proof -
  have a: "deleteDocument env0 store0 7 0
      = (Success 200 ''Document deleted successfully'' (), snd (deleteDocument env0 store0 7 0))"
    using delete_store0 by (simp add: prod_eq_iff)
  have b: "deleteDocument_p2 env0 store0_p2 7 0
      = (Success 200 ''Document deleted successfully'' (), snd (deleteDocument_p2 env0 store0_p2 7 0))"
    using delete_store0_p2 by (simp add: prod_eq_iff)
  from second_delete_not_found [of store0 env0 7 0 200 "''Document deleted successfully''" "()"
      "snd (deleteDocument env0 store0 7 0)" env0 7
      store0_p2 env0 7 0 200 "''Document deleted successfully''" "()"
      "snd (deleteDocument_p2 env0 store0_p2 7 0)" env0 7]
  show ?thesis
    using a b ids_ok_store0 ids_ok_store0_p2 delete_store0 delete_store0_p2 by blast
qed

subsection \<open>Creating a document\<close>

lemma Document_create_result:
  assumes "Document_create e st lawyer client lc ttl descr f cat prio tgs up = Some (d, st')"
  shows "doc_id d = nextId st \<and> lawyerId d = lawyer \<and> \<not> isPublic d \<and> \<not> isDeleted d
         \<and> downloadCount d = 0 \<and> filePath d = path f
         \<and> st' = st\<lparr>documents := documents st @ [d], nextId := Suc (nextId st)\<rparr>"
  using assms by (auto simp: Document_create_def Let_def split: if_splits)

lemma Document_create_p2_result:
  assumes "Document_create_p2 e st lawyer client ttl descr f dt tgs pub up = Some (d, st')"
  shows "doc_id d = nextId st \<and> lawyerId d = lawyer \<and> isPublic d = pub
         \<and> downloadCount d = 0 \<and> filePath d = path f \<and> lastAccessed d = None
         \<and> st' = st\<lparr>documents := documents st @ [d], nextId := Suc (nextId st)\<rparr>"
  using assms by (auto simp: Document_create_p2_def Let_def split: if_splits)

lemma upload_success:
  assumes "uploadDocument e st lawyer req = (Success c m d, st')"
  shows "\<exists>f. u_file req = Some f \<and> doc_id d = nextId st \<and> lawyerId d = lawyer
         \<and> \<not> isPublic d \<and> \<not> isDeleted d \<and> downloadCount d = 0 \<and> filePath d = path f
         \<and> st' = (writeFile st f)\<lparr>documents := documents st @ [d], nextId := Suc (nextId st)\<rparr>"
  using assms
  by (auto simp: uploadDocument_def writeFile_def split: if_splits option.splits
      dest!: Document_create_result)

lemma upload_p2_success:
  assumes "uploadDocument_p2 e st lawyer req = (Success c m d, st')"
  shows "\<exists>f. u2_file req = Some f \<and> doc_id d = nextId st \<and> lawyerId d = lawyer \<and> \<not> isPublic d
         \<and> downloadCount d = 0 \<and> filePath d = path f \<and> lastAccessed d = None
         \<and> st' = st\<lparr>documents := documents st @ [d], nextId := Suc (nextId st)\<rparr>"
  using assms
  by (auto simp: uploadDocument_p2_def split: if_splits option.splits
      dest!: Document_create_p2_result)

lemma find_append_last:
  "\<forall>x \<in> set xs. \<not> P x \<Longrightarrow> find P (xs @ [d]) = (if P d then Some d else None)"
  by (induction xs) auto

lemma fresh_not_in:
  "ids_ok st \<Longrightarrow> x \<in> set (documents st) \<Longrightarrow> doc_id x \<noteq> nextId st"
  by (auto simp: ids_ok_def list_all_iff)

lemma create_then_get:
  assumes ok: "ids_ok st" and up: "uploadDocument e st lawyer req = (Success c m d, st')"
  shows "\<not> isPublic d \<and> getDocumentById st' lawyer (doc_id d) = Success 200 [] d"
proof -
  from upload_success[OF up] obtain f where
    d: "doc_id d = nextId st" "lawyerId d = lawyer" "\<not> isPublic d" "\<not> isDeleted d"
    and st': "documents st' = documents st @ [d]"
    by (auto simp: writeFile_def)
  have "\<forall>x \<in> set (documents st). \<not> (doc_id x = doc_id d \<and> lawyerId x = lawyer \<and> \<not> isDeleted x)"
    using fresh_not_in[OF ok] d by auto
  then have "findOne st' (doc_id d) lawyer = Some d"
    unfolding findOne_def st' using d by (simp add: find_append_last)
  then show ?thesis using d by (simp add: getDocumentById_def)
qed

lemma create_then_get_p2:
  assumes ok: "ids_ok st" and up: "uploadDocument_p2 e st lawyer req = (Success c m d, st')"
  shows "\<not> isPublic d
        \<and> (dbFails e' \<longrightarrow> fst (getDocumentById_p2 e' st' lawyer (doc_id d))
               = Failure 500 ''Failed to fetch document'')
        \<and> (\<not> dbFails e' \<longrightarrow> fst (getDocumentById_p2 e' st' lawyer (doc_id d))
               = Success 200 [] (d\<lparr>lastAccessed := Some (now e'), updatedAt := now e'\<rparr>))"
proof -
  from upload_p2_success[OF up] obtain f where
    d: "doc_id d = nextId st" "lawyerId d = lawyer" "\<not> isPublic d" "lastAccessed d = None"
    and st': "documents st' = documents st @ [d]"
    by auto
  have "\<forall>x \<in> set (documents st). \<not> (doc_id x = doc_id d \<and> lawyerId x = lawyer)"
    using fresh_not_in[OF ok] d by auto
  then have f: "findOne_p2 st' (doc_id d) lawyer = Some d"
    unfolding findOne_p2_def st' using d by (simp add: find_append_last)
  have ne: "d\<lparr>lastAccessed := Some (now e')\<rparr> \<noteq> d"
  proof
    assume "d\<lparr>lastAccessed := Some (now e')\<rparr> = d"
    then have "lastAccessed (d\<lparr>lastAccessed := Some (now e')\<rparr>) = lastAccessed d" by simp
    with d show False by simp
  qed
  show ?thesis using d f ne by (simp add: getDocumentById_p2_def save_p2_def Let_def)
qed

lemmas schema_defs = schema_valid_def v_title_def v_description_def v_file_def v_category_def
  v_status_def v_priority_def v_tags_def v_reviewNotes_def enum_category_def enum_status_def
  enum_priority_def

lemma trim_eval:
  "trim ''will'' = ''will''" "trim '' family'' = ''family''" "trim ''family'' = ''family''"
  "trim ''Last will'' = ''Last will''"
  by (simp_all add: trim_def is_space_def)

lemma upload0_reply:
  "fst (uploadDocument env0 store0 7 upload0) = Success 201 ''Document uploaded successfully'' doc1"
  by (simp add: uploadDocument_def upload0_def store0_def env0_def rel0_def findRelationship_def
      file1_def fileFilter_def allowedTypes_def fileSizeLimit_def Document_create_def Let_def
      writeFile_def or_default_def parse_tags_def schema_defs trim_eval doc1_def)

lemma ids_ok_arrived_p2: "ids_ok arrived_p2"
  by (simp add: ids_ok_def arrived_p2_def writeFile_def store0_p2_def doc0_p2_def)

lemma upload0_p2_reply:
  "fst (uploadDocument_p2 env0 arrived_p2 7 upload0_p2)
     = Success 201 ''Document uploaded successfully'' doc1_p2"
  by (simp add: uploadDocument_p2_def upload0_p2_def arrived_p2_def writeFile_def store0_p2_def
      env0_def rel0_def findRelationship_p2_def file1_def Document_create_p2_def Let_def
      doc1_p2_def)

text \<open>
  C1. Whatever the request says about visibility (\<open>u_isPublic\<close>, \<open>u2_isPublic\<close>), the
  document a successful upload creates has \<open>isPublic = False\<close>, and reading it back by
  its id as the same lawyer gives a record with \<open>isPublic = False\<close>: in
  \<^verbatim>\<open>documentController.js\<close> the created record itself; in \<^verbatim>\<open>unnamed/part_002\<close>, whose read
  also saves the access time, the created record with that time, unless that save fails
  and the read is answered 500.
\<close>

theorem created_document_is_private:
  "(ids_ok st \<and> uploadDocument e st lawyer req = (Success c m d, st')
      \<longrightarrow> \<not> isPublic d \<and> getDocumentById st' lawyer (doc_id d) = Success 200 [] d)
   \<and> (ids_ok s2 \<and> uploadDocument_p2 e2 s2 lawyer2 req2 = (Success c2 m2 d2, s2')
      \<longrightarrow> \<not> isPublic d2
          \<and> (dbFails e3 \<longrightarrow> fst (getDocumentById_p2 e3 s2' lawyer2 (doc_id d2))
                 = Failure 500 ''Failed to fetch document'')
          \<and> (\<not> dbFails e3 \<longrightarrow> (\<exists>d3. fst (getDocumentById_p2 e3 s2' lawyer2 (doc_id d2))
                 = Success 200 [] d3 \<and> \<not> isPublic d3 \<and> doc_id d3 = doc_id d2)))"
proof (intro conjI impI)
  assume a: "ids_ok st \<and> uploadDocument e st lawyer req = (Success c m d, st')"
  from a create_then_get show "\<not> isPublic d" by blast
  from a create_then_get show "getDocumentById st' lawyer (doc_id d) = Success 200 [] d" by blast
next
  assume b: "ids_ok s2 \<and> uploadDocument_p2 e2 s2 lawyer2 req2 = (Success c2 m2 d2, s2')"
  from b create_then_get_p2 show "\<not> isPublic d2" by blast
  { assume "dbFails e3"
    with b create_then_get_p2[of s2 e2 lawyer2 req2 c2 m2 d2 s2' e3]
    show "fst (getDocumentById_p2 e3 s2' lawyer2 (doc_id d2)) = Failure 500 ''Failed to fetch document''"
      by blast }
  { assume "\<not> dbFails e3"
    with b create_then_get_p2[of s2 e2 lawyer2 req2 c2 m2 d2 s2' e3]
    have "fst (getDocumentById_p2 e3 s2' lawyer2 (doc_id d2))
            = Success 200 [] (d2\<lparr>lastAccessed := Some (now e3), updatedAt := now e3\<rparr>)"
      and "\<not> isPublic d2" by blast+
    then show "\<exists>d3. fst (getDocumentById_p2 e3 s2' lawyer2 (doc_id d2)) = Success 200 [] d3
        \<and> \<not> isPublic d3 \<and> doc_id d3 = doc_id d2"
      by simp }
qed

theorem created_document_is_private_witness:
  "ids_ok store0 \<and> u_isPublic upload0 = Some True
   \<and> fst (uploadDocument env0 store0 7 upload0) = Success 201 ''Document uploaded successfully'' doc1
   \<and> \<not> isPublic doc1
   \<and> getDocumentById (snd (uploadDocument env0 store0 7 upload0)) 7 (doc_id doc1) = Success 200 [] doc1
   \<and> ids_ok arrived_p2 \<and> u2_isPublic upload0_p2 = Some True
   \<and> fst (uploadDocument_p2 env0 arrived_p2 7 upload0_p2)
       = Success 201 ''Document uploaded successfully'' doc1_p2
   \<and> \<not> isPublic doc1_p2
   \<and> (\<exists>d3. fst (getDocumentById_p2 env0 (snd (uploadDocument_p2 env0 arrived_p2 7 upload0_p2)) 7
                  (doc_id doc1_p2)) = Success 200 [] d3 \<and> \<not> isPublic d3 \<and> doc_id d3 = doc_id doc1_p2)"
proof -
  have a: "uploadDocument env0 store0 7 upload0
      = (Success 201 ''Document uploaded successfully'' doc1, snd (uploadDocument env0 store0 7 upload0))"
    using upload0_reply by (simp add: prod_eq_iff)
  have b: "uploadDocument_p2 env0 arrived_p2 7 upload0_p2
      = (Success 201 ''Document uploaded successfully'' doc1_p2,
         snd (uploadDocument_p2 env0 arrived_p2 7 upload0_p2))"
    using upload0_p2_reply by (simp add: prod_eq_iff)
  have n: "\<not> dbFails env0" by (simp add: env0_def)
  have v: "u_isPublic upload0 = Some True" "u2_isPublic upload0_p2 = Some True"
    by (simp_all add: upload0_def upload0_p2_def)
  from created_document_is_private [of store0 env0 7 upload0 201 "''Document uploaded successfully''"
      doc1 "snd (uploadDocument env0 store0 7 upload0)"
      arrived_p2 env0 7 upload0_p2 201 "''Document uploaded successfully''" doc1_p2
      "snd (uploadDocument_p2 env0 arrived_p2 7 upload0_p2)" env0]
  show ?thesis
    using a b n v ids_ok_store0 ids_ok_arrived_p2 upload0_reply upload0_p2_reply by blast
qed

subsection \<open>What an upload needs\<close>

text \<open>
  \<^verbatim>\<open>uploadDocument\<close> of \<^verbatim>\<open>documentController.js\<close> answers 201 only when the body it found on
  the request passed the validation and its own multer call found a file below the size
  limit in the request stream. A request whose body was left empty (a multipart request
  behind \<^verbatim>\<open>express.json\<close>) or that has no multipart part (a JSON request) is answered 400
  or 404 and changes nothing; so is a file of exactly \<open>fileSizeLimit\<close> bytes.
\<close>

lemma upload_needs_body_and_file:
  assumes "fst (uploadDocument e st lawyer req) = Success c m d"
  shows "u_valid req \<and> (\<exists>f. u_file req = Some f \<and> fileFilter f \<and> size f < fileSizeLimit)"
  using assms
  by (auto simp: uploadDocument_def split: if_splits option.splits)

lemma upload_without_body_or_file:
  assumes "\<not> u_valid req \<or> u_file req = None"
  shows "uploadDocument e st lawyer req = (Failure 400 ''Validation errors'', st)
       \<or> uploadDocument e st lawyer req = (Failure 404 ''Client relationship not found'', st)
       \<or> uploadDocument e st lawyer req = (Failure 400 ''No file uploaded'', st)"
  using assms
  by (auto simp: uploadDocument_def split: option.splits)

lemma upload_at_limit:
  assumes "u_valid req" "findRelationship st lawyer (u_clientId req) = Some lc"
    "u_file req = Some f" "fileFilter f" "size f = fileSizeLimit"
  shows "uploadDocument e st lawyer req = (Failure 400 ''File too large'', st)"
  using assms by (simp add: uploadDocument_def)

subsection \<open>Statistics of \<^verbatim>\<open>documentController.js\<close>\<close>

text \<open>
  The aggregation compares the strings it was given with stored ObjectIds, so it matches
  no document: the statistics of \<^verbatim>\<open>getDocumentStats\<close>, and those inside every list reply,
  are the zeros of an empty collection, whatever the lawyer has on file.
\<close>

lemma stats_match_never: "\<not> stats_match lawyer c d"
  by (simp add: stats_match_def)

lemma Document_getDocumentStats_empty:
  "Document_getDocumentStats docs lawyer c
     = \<lparr> totalDocuments = 0, totalSize = 0, byStatus = [], byCategory = [] \<rparr>"
  by (simp add: Document_getDocumentStats_def stats_match_def)

lemma getDocumentStats_empty:
  "getDocumentStats st lawyer c
     = Success 200 [] \<lparr> totalDocuments = 0, totalSize = 0, byStatus = [], byCategory = [] \<rparr>"
  by (simp add: getDocumentStats_def Document_getDocumentStats_empty)

subsection \<open>Listing\<close>

lemma getDocuments_success:
  assumes "getDocuments srt rx st lawyer q = Success c m r"
  shows "\<exists>mt ordered.
      (mt = (if truthy (q_search q) then regex_i rx (or_default (q_search q) []) else None))
    \<and> (truthy (q_search q) \<longrightarrow> mt \<noteq> None)
    \<and> srt (sort_field (q_sortBy q)) (sort_dir (q_sortOrder q))
          (filter (query_match lawyer (case q_clientId q of QId c' \<Rightarrow> Some c' | _ \<Rightarrow> None) q mt) (documents st)) = Some ordered
    \<and> 0 \<le> (q_page q - 1) * q_limit q
    \<and> l_documents r = page_slice ((q_page q - 1) * q_limit q) (q_limit q) ordered
    \<and> l_pagination r = paginate (q_page q) (q_limit q) (l_documents r)
          (length (filter (query_match lawyer (case q_clientId q of QId c' \<Rightarrow> Some c' | _ \<Rightarrow> None) q mt) (documents st)))
    \<and> l_stats r = Document_getDocumentStats (documents st) lawyer (q_clientId q)"
  using assms
  by (auto simp: getDocuments_def Let_def split: if_splits option.splits)

lemma getLawyerDocuments_success:
  assumes "getLawyerDocuments srt rx st lawyer q = Success c m r"
  shows "\<exists>mt ordered.
      (mt = (if truthy (q2_search q) then regex_i rx (or_default (q2_search q) []) else None))
    \<and> (truthy (q2_search q) \<longrightarrow> mt \<noteq> None)
    \<and> srt (sort_field (q2_sortBy q)) (sort_dir (q2_sortOrder q))
          (filter (query_match_p2 lawyer q mt) (documents st)) = Some ordered
    \<and> 0 \<le> (q2_page q - 1) * q2_limit q
    \<and> l_documents r = page_slice ((q2_page q - 1) * q2_limit q) (q2_limit q) ordered
    \<and> l_pagination r = paginate (q2_page q) (q2_limit q) (l_documents r)
          (length (filter (query_match_p2 lawyer q mt) (documents st)))
    \<and> l_stats r = getLawyerDocumentStats (documents st) lawyer"
  using assms
  by (auto simp: getLawyerDocuments_def Let_def split: if_splits option.splits)

lemma page_slice_subset: "set (page_slice skip l xs) \<subseteq> set xs"
  by (auto simp: page_slice_def Let_def dest: in_set_takeD in_set_dropD)

lemma permuting_set: "permuting srt \<Longrightarrow> srt f dir xs = Some ys \<Longrightarrow> set ys = set xs"
  unfolding permuting_def by (metis mset_eq_setD)

lemma ceil_div_ceiling:
  assumes "l \<noteq> 0"
  shows "ceil_div n l = Some \<lceil>real n / real_of_int l\<rceil>"
proof -
  have "\<lceil>real n / real_of_int l\<rceil> = \<lceil>real_of_int (int n) / real_of_int l\<rceil>" by simp
  also have "\<dots> = - (- int n div l)" by (rule ceiling_divide_eq_div)
  finally show ?thesis using assms by (simp add: ceil_div_def)
qed

lemma permuting_by_createdAt: "permuting by_createdAt"
  by (auto simp: permuting_def by_createdAt_def split: if_splits)

lemma paginate_formulas:
  assumes l1: "1 \<le> l" and pg: "pg = paginate p l docs n"
  shows "totalItems pg = n \<and> currentPage pg = p
       \<and> totalPages pg = Some \<lceil>real (totalItems pg) / real_of_int l\<rceil>
       \<and> hasNext pg = ((p - 1) * l + int (length docs) < int (totalItems pg))
       \<and> hasPrev pg = (1 < p)"
proof -
  have l0: "l \<noteq> 0" using l1 by simp
  show ?thesis unfolding pg by (simp add: paginate_def ceil_div_ceiling[OF l0])
qed

lemma page_slice_block:
  assumes "1 \<le> l"
  shows "page_slice skip l xs = take (nat l) (drop (nat skip) xs)"
  using assms by (simp add: page_slice_def Let_def)

lemma page_45:
  assumes p1: "1 \<le> p" and n: "n = 45"
    and len: "length docs = min (nat 20) (n - nat ((p - 1) * 20))"
    and pg: "pg = paginate p 20 docs n"
  shows "totalItems pg = 45 \<and> totalPages pg = Some 3
       \<and> (p = 1 \<longrightarrow> length docs = 20 \<and> hasNext pg \<and> \<not> hasPrev pg)
       \<and> (p = 2 \<longrightarrow> length docs = 20 \<and> hasNext pg \<and> hasPrev pg)
       \<and> (p = 3 \<longrightarrow> length docs = 5 \<and> \<not> hasNext pg \<and> hasPrev pg)"
proof -
  have t: "totalItems pg = 45 \<and> totalPages pg = Some 3"
    unfolding pg n by (simp add: paginate_def ceil_div_def)
  have e1: "length docs = 20 \<and> hasNext pg \<and> \<not> hasPrev pg" if "p = 1"
    using that len unfolding pg n by (simp add: paginate_def)
  have e2: "length docs = 20 \<and> hasNext pg \<and> hasPrev pg" if "p = 2"
    using that len unfolding pg n by (simp add: paginate_def)
  have e3: "length docs = 5 \<and> \<not> hasNext pg \<and> hasPrev pg" if "p = 3"
    using that len unfolding pg n by (simp add: paginate_def)
  from t e1 e2 e3 show ?thesis by blast
qed

lemma matching_iff:
  "\<forall>d. d \<in> set (matching rx st lawyer q) \<longleftrightarrow>
      d \<in> set (documents st) \<and> lawyerId d = lawyer \<and> \<not> isDeleted d
    \<and> (\<forall>c'. q_clientId q = QId c' \<longrightarrow> clientId d = c')
    \<and> (\<forall>v. q_category q = Some v \<and> v \<noteq> [] \<longrightarrow> category d = v)
    \<and> (\<forall>v. q_status q = Some v \<and> v \<noteq> [] \<longrightarrow> status d = v)
    \<and> (\<forall>v. q_priority q = Some v \<and> v \<noteq> [] \<longrightarrow> priority d = v)
    \<and> (\<forall>s f. q_search q = Some s \<and> s \<noteq> [] \<and> regex_i rx s = Some f \<longrightarrow>
          f (title d) \<or> (\<exists>x. description d = Some x \<and> f x) \<or> (\<exists>t \<in> set (tags d). f t))"
  by (auto simp: matching_def query_match_def opt_eq_def truthy_def or_default_def
      search_match_def list_ex_iff split: qid.splits option.splits if_splits)

lemma matching_p2_iff:
  "\<forall>d. d \<in> set (matching_p2 rx st lawyer q) \<longleftrightarrow>
      d \<in> set (documents st) \<and> lawyerId d = lawyer
    \<and> (\<forall>c'. q2_clientId q = QId c' \<longrightarrow> clientId d = c')
    \<and> (\<forall>v. q2_status q = Some v \<and> v \<noteq> [] \<and> v \<noteq> ''all'' \<longrightarrow> status d = v)
    \<and> (\<forall>v. q2_documentType q = Some v \<and> v \<noteq> [] \<and> v \<noteq> ''all'' \<longrightarrow> documentType d = v)
    \<and> (\<forall>s f. q2_search q = Some s \<and> s \<noteq> [] \<and> regex_i rx s = Some f \<longrightarrow>
          f (title d) \<or> (\<exists>x. description d = Some x \<and> f x) \<or> f (originalFileName d))"
  by (auto simp: matching_p2_def query_match_p2_def opt_eq_all_def truthy_def or_default_def
      search_match_p2_def split: qid.splits option.splits if_splits)

lemma matching_unfiltered:
  "unfiltered q \<longrightarrow>
     matching rx st lawyer q = filter (\<lambda>d. lawyerId d = lawyer \<and> \<not> isDeleted d) (documents st)"
  by (auto simp: unfiltered_def matching_def query_match_def opt_eq_def intro!: filter_cong)

lemma matching_p2_unfiltered:
  "unfiltered_p2 q \<longrightarrow> matching_p2 rx st lawyer q = filter (\<lambda>d. lawyerId d = lawyer) (documents st)"
  by (auto simp: unfiltered_p2_def matching_p2_def query_match_p2_def opt_eq_all_def
      intro!: filter_cong)

lemma getDocuments_answers:
  "1 \<le> q_page q \<and> 1 \<le> q_limit q \<and> q_clientId q \<noteq> QAll
     \<and> (truthy (q_search q) \<longrightarrow> regex_i rx (or_default (q_search q) []) \<noteq> None)
     \<and> srt (sort_field (q_sortBy q)) (sort_dir (q_sortOrder q)) (matching rx st lawyer q) \<noteq> None
   \<longrightarrow> (\<exists>r. getDocuments srt rx st lawyer q = Success 200 [] r)"
proof
  assume h: "1 \<le> q_page q \<and> 1 \<le> q_limit q \<and> q_clientId q \<noteq> QAll
     \<and> (truthy (q_search q) \<longrightarrow> regex_i rx (or_default (q_search q) []) \<noteq> None)
     \<and> srt (sort_field (q_sortBy q)) (sort_dir (q_sortOrder q)) (matching rx st lawyer q) \<noteq> None"
  then have "0 \<le> q_page q - 1" "0 \<le> q_limit q" by simp_all
  then have "0 \<le> (q_page q - 1) * q_limit q" by (rule mult_nonneg_nonneg)
  then have sk: "\<not> (q_page q - 1) * q_limit q < 0" by simp
  from h obtain ordered where
    "srt (sort_field (q_sortBy q)) (sort_dir (q_sortOrder q)) (matching rx st lawyer q) = Some ordered"
    by blast
  then show "\<exists>r. getDocuments srt rx st lawyer q = Success 200 [] r"
    using h sk by (simp add: getDocuments_def Let_def matching_def)
qed

lemma getLawyerDocuments_answers:
  "1 \<le> q2_page q \<and> 1 \<le> q2_limit q
     \<and> (truthy (q2_search q) \<longrightarrow> regex_i rx (or_default (q2_search q) []) \<noteq> None)
     \<and> srt (sort_field (q2_sortBy q)) (sort_dir (q2_sortOrder q)) (matching_p2 rx st lawyer q) \<noteq> None
   \<longrightarrow> (\<exists>r. getLawyerDocuments srt rx st lawyer q = Success 200 [] r)"
proof
  assume h: "1 \<le> q2_page q \<and> 1 \<le> q2_limit q
     \<and> (truthy (q2_search q) \<longrightarrow> regex_i rx (or_default (q2_search q) []) \<noteq> None)
     \<and> srt (sort_field (q2_sortBy q)) (sort_dir (q2_sortOrder q)) (matching_p2 rx st lawyer q) \<noteq> None"
  then have "0 \<le> q2_page q - 1" "0 \<le> q2_limit q" by simp_all
  then have "0 \<le> (q2_page q - 1) * q2_limit q" by (rule mult_nonneg_nonneg)
  then have sk: "\<not> (q2_page q - 1) * q2_limit q < 0" by simp
  from h obtain ordered where
    "srt (sort_field (q2_sortBy q)) (sort_dir (q2_sortOrder q)) (matching_p2 rx st lawyer q) = Some ordered"
    by blast
  then show "\<exists>r. getLawyerDocuments srt rx st lawyer q = Success 200 [] r"
    using h sk by (simp add: getLawyerDocuments_def Let_def matching_p2_def)
qed

lemma mset_block: "mset (take n (drop k xs)) \<subseteq># mset xs"
proof -
  have "mset (take n (drop k xs)) \<subseteq># mset (drop k xs)"
    by (metis append_take_drop_id mset_append mset_subset_eq_add_left)
  also have "\<dots> \<subseteq># mset xs"
    by (metis append_take_drop_id mset_append mset_subset_eq_add_right)
  finally show ?thesis .
qed

lemma getDocuments_pages:
  "1 \<le> q_page q \<and> 1 \<le> q_limit q \<and> getDocuments srt rx st lawyer q = Success c m r \<longrightarrow>
      totalItems (l_pagination r) = length (matching rx st lawyer q)
      \<and> currentPage (l_pagination r) = q_page q
      \<and> totalPages (l_pagination r)
          = Some \<lceil>real (totalItems (l_pagination r)) / real_of_int (q_limit q)\<rceil>
      \<and> hasNext (l_pagination r)
          = ((q_page q - 1) * q_limit q + int (length (l_documents r))
                < int (totalItems (l_pagination r)))
      \<and> hasPrev (l_pagination r) = (1 < q_page q)
      \<and> (\<exists>ordered. srt (sort_field (q_sortBy q)) (sort_dir (q_sortOrder q)) (matching rx st lawyer q) = Some ordered
            \<and> l_documents r = take (nat (q_limit q)) (drop (nat ((q_page q - 1) * q_limit q)) ordered))
      \<and> (permuting srt \<longrightarrow>
            mset (l_documents r) \<subseteq># mset (matching rx st lawyer q)
          \<and> length (l_documents r) = min (nat (q_limit q)) (length (matching rx st lawyer q) - nat ((q_page q - 1) * q_limit q))
          \<and> (length (matching rx st lawyer q) = 45 \<and> q_limit q = 20 \<longrightarrow>
                totalItems (l_pagination r) = 45 \<and> totalPages (l_pagination r) = Some 3
              \<and> (q_page q = 1 \<longrightarrow> length (l_documents r) = 20
                    \<and> hasNext (l_pagination r) \<and> \<not> hasPrev (l_pagination r))
              \<and> (q_page q = 2 \<longrightarrow> length (l_documents r) = 20
                    \<and> hasNext (l_pagination r) \<and> hasPrev (l_pagination r))
              \<and> (q_page q = 3 \<longrightarrow> length (l_documents r) = 5
                    \<and> \<not> hasNext (l_pagination r) \<and> hasPrev (l_pagination r))))"
proof
  let ?M = "matching rx st lawyer q"
  let ?p = "q_page q" and ?l = "q_limit q"
  assume h: "1 \<le> ?p \<and> 1 \<le> ?l \<and> getDocuments srt rx st lawyer q = Success c m r"
  then have p1: "1 \<le> ?p" and l1: "1 \<le> ?l"
    and g: "getDocuments srt rx st lawyer q = Success c m r" by blast+
  from getDocuments_success[OF g] obtain ordered where
    s: "srt (sort_field (q_sortBy q)) (sort_dir (q_sortOrder q)) ?M = Some ordered"
    and d: "l_documents r = page_slice ((?p - 1) * ?l) ?l ordered"
    and p: "l_pagination r = paginate ?p ?l (l_documents r) (length ?M)"
    unfolding matching_def by blast
  note f = paginate_formulas[OF l1 p]
  have blk: "l_documents r = take (nat ?l) (drop (nat ((?p - 1) * ?l)) ordered)"
    unfolding d by (rule page_slice_block[OF l1])
  from s blk have srtd: "\<exists>ordered. srt (sort_field (q_sortBy q)) (sort_dir (q_sortOrder q)) ?M = Some ordered
      \<and> l_documents r = take (nat ?l) (drop (nat ((?p - 1) * ?l)) ordered)" by blast
  have perm: "mset (l_documents r) \<subseteq># mset ?M
        \<and> length (l_documents r) = min (nat ?l) (length ?M - nat ((?p - 1) * ?l))
        \<and> (length ?M = 45 \<and> ?l = 20 \<longrightarrow>
              totalItems (l_pagination r) = 45 \<and> totalPages (l_pagination r) = Some 3
            \<and> (?p = 1 \<longrightarrow> length (l_documents r) = 20
                  \<and> hasNext (l_pagination r) \<and> \<not> hasPrev (l_pagination r))
            \<and> (?p = 2 \<longrightarrow> length (l_documents r) = 20
                  \<and> hasNext (l_pagination r) \<and> hasPrev (l_pagination r))
            \<and> (?p = 3 \<longrightarrow> length (l_documents r) = 5
                  \<and> \<not> hasNext (l_pagination r) \<and> hasPrev (l_pagination r)))"
    if pm: "permuting srt"
  proof -
    from pm s have ms: "mset ordered = mset ?M" unfolding permuting_def by blast
    then have lo: "length ordered = length ?M" by (rule mset_eq_length)
    have sub: "mset (l_documents r) \<subseteq># mset ?M"
      unfolding blk ms[symmetric] by (rule mset_block)
    have len: "length (l_documents r) = min (nat ?l) (length ?M - nat ((?p - 1) * ?l))"
      unfolding blk using lo by simp
    have ex: "totalItems (l_pagination r) = 45 \<and> totalPages (l_pagination r) = Some 3
            \<and> (?p = 1 \<longrightarrow> length (l_documents r) = 20
                  \<and> hasNext (l_pagination r) \<and> \<not> hasPrev (l_pagination r))
            \<and> (?p = 2 \<longrightarrow> length (l_documents r) = 20
                  \<and> hasNext (l_pagination r) \<and> hasPrev (l_pagination r))
            \<and> (?p = 3 \<longrightarrow> length (l_documents r) = 5
                  \<and> \<not> hasNext (l_pagination r) \<and> hasPrev (l_pagination r))"
      if e: "length ?M = 45 \<and> ?l = 20"
    proof -
      from e have n: "length ?M = 45" and l20: "?l = 20" by blast+
      from len l20 have len': "length (l_documents r)
          = min (nat 20) (length ?M - nat ((?p - 1) * 20))" by simp
      from p l20 have p': "l_pagination r = paginate ?p 20 (l_documents r) (length ?M)" by simp
      from page_45[OF p1 n len' p'] show ?thesis .
    qed
    from sub len ex show ?thesis by blast
  qed
  from f srtd perm show "totalItems (l_pagination r) = length ?M
    \<and> currentPage (l_pagination r) = ?p
    \<and> totalPages (l_pagination r)
        = Some \<lceil>real (totalItems (l_pagination r)) / real_of_int ?l\<rceil>
    \<and> hasNext (l_pagination r)
        = ((?p - 1) * ?l + int (length (l_documents r))
              < int (totalItems (l_pagination r)))
    \<and> hasPrev (l_pagination r) = (1 < ?p)
    \<and> (\<exists>ordered. srt (sort_field (q_sortBy q)) (sort_dir (q_sortOrder q)) ?M = Some ordered
          \<and> l_documents r = take (nat ?l) (drop (nat ((?p - 1) * ?l)) ordered))
    \<and> (permuting srt \<longrightarrow>
          mset (l_documents r) \<subseteq># mset ?M
        \<and> length (l_documents r) = min (nat ?l) (length ?M - nat ((?p - 1) * ?l))
        \<and> (length ?M = 45 \<and> ?l = 20 \<longrightarrow>
              totalItems (l_pagination r) = 45 \<and> totalPages (l_pagination r) = Some 3
            \<and> (?p = 1 \<longrightarrow> length (l_documents r) = 20
                  \<and> hasNext (l_pagination r) \<and> \<not> hasPrev (l_pagination r))
            \<and> (?p = 2 \<longrightarrow> length (l_documents r) = 20
                  \<and> hasNext (l_pagination r) \<and> hasPrev (l_pagination r))
            \<and> (?p = 3 \<longrightarrow> length (l_documents r) = 5
                  \<and> \<not> hasNext (l_pagination r) \<and> hasPrev (l_pagination r))))"
    by blast
qed

lemma getLawyerDocuments_pages:
  "1 \<le> q2_page q \<and> 1 \<le> q2_limit q \<and> getLawyerDocuments srt rx st lawyer q = Success c m r \<longrightarrow>
      totalItems (l_pagination r) = length (matching_p2 rx st lawyer q)
      \<and> currentPage (l_pagination r) = q2_page q
      \<and> totalPages (l_pagination r)
          = Some \<lceil>real (totalItems (l_pagination r)) / real_of_int (q2_limit q)\<rceil>
      \<and> hasNext (l_pagination r)
          = ((q2_page q - 1) * q2_limit q + int (length (l_documents r))
                < int (totalItems (l_pagination r)))
      \<and> hasPrev (l_pagination r) = (1 < q2_page q)
      \<and> (\<exists>ordered. srt (sort_field (q2_sortBy q)) (sort_dir (q2_sortOrder q)) (matching_p2 rx st lawyer q) = Some ordered
            \<and> l_documents r = take (nat (q2_limit q)) (drop (nat ((q2_page q - 1) * q2_limit q)) ordered))
      \<and> (permuting srt \<longrightarrow>
            mset (l_documents r) \<subseteq># mset (matching_p2 rx st lawyer q)
          \<and> length (l_documents r) = min (nat (q2_limit q)) (length (matching_p2 rx st lawyer q) - nat ((q2_page q - 1) * q2_limit q))
          \<and> (length (matching_p2 rx st lawyer q) = 45 \<and> q2_limit q = 20 \<longrightarrow>
                totalItems (l_pagination r) = 45 \<and> totalPages (l_pagination r) = Some 3
              \<and> (q2_page q = 1 \<longrightarrow> length (l_documents r) = 20
                    \<and> hasNext (l_pagination r) \<and> \<not> hasPrev (l_pagination r))
              \<and> (q2_page q = 2 \<longrightarrow> length (l_documents r) = 20
                    \<and> hasNext (l_pagination r) \<and> hasPrev (l_pagination r))
              \<and> (q2_page q = 3 \<longrightarrow> length (l_documents r) = 5
                    \<and> \<not> hasNext (l_pagination r) \<and> hasPrev (l_pagination r))))"
proof
  let ?M = "matching_p2 rx st lawyer q"
  let ?p = "q2_page q" and ?l = "q2_limit q"
  assume h: "1 \<le> ?p \<and> 1 \<le> ?l \<and> getLawyerDocuments srt rx st lawyer q = Success c m r"
  then have p1: "1 \<le> ?p" and l1: "1 \<le> ?l"
    and g: "getLawyerDocuments srt rx st lawyer q = Success c m r" by blast+
  from getLawyerDocuments_success[OF g] obtain ordered where
    s: "srt (sort_field (q2_sortBy q)) (sort_dir (q2_sortOrder q)) ?M = Some ordered"
    and d: "l_documents r = page_slice ((?p - 1) * ?l) ?l ordered"
    and p: "l_pagination r = paginate ?p ?l (l_documents r) (length ?M)"
    unfolding matching_p2_def by blast
  note f = paginate_formulas[OF l1 p]
  have blk: "l_documents r = take (nat ?l) (drop (nat ((?p - 1) * ?l)) ordered)"
    unfolding d by (rule page_slice_block[OF l1])
  from s blk have srtd: "\<exists>ordered. srt (sort_field (q2_sortBy q)) (sort_dir (q2_sortOrder q)) ?M = Some ordered
      \<and> l_documents r = take (nat ?l) (drop (nat ((?p - 1) * ?l)) ordered)" by blast
  have perm: "mset (l_documents r) \<subseteq># mset ?M
        \<and> length (l_documents r) = min (nat ?l) (length ?M - nat ((?p - 1) * ?l))
        \<and> (length ?M = 45 \<and> ?l = 20 \<longrightarrow>
              totalItems (l_pagination r) = 45 \<and> totalPages (l_pagination r) = Some 3
            \<and> (?p = 1 \<longrightarrow> length (l_documents r) = 20
                  \<and> hasNext (l_pagination r) \<and> \<not> hasPrev (l_pagination r))
            \<and> (?p = 2 \<longrightarrow> length (l_documents r) = 20
                  \<and> hasNext (l_pagination r) \<and> hasPrev (l_pagination r))
            \<and> (?p = 3 \<longrightarrow> length (l_documents r) = 5
                  \<and> \<not> hasNext (l_pagination r) \<and> hasPrev (l_pagination r)))"
    if pm: "permuting srt"
  proof -
    from pm s have ms: "mset ordered = mset ?M" unfolding permuting_def by blast
    then have lo: "length ordered = length ?M" by (rule mset_eq_length)
    have sub: "mset (l_documents r) \<subseteq># mset ?M"
      unfolding blk ms[symmetric] by (rule mset_block)
    have len: "length (l_documents r) = min (nat ?l) (length ?M - nat ((?p - 1) * ?l))"
      unfolding blk using lo by simp
    have ex: "totalItems (l_pagination r) = 45 \<and> totalPages (l_pagination r) = Some 3
            \<and> (?p = 1 \<longrightarrow> length (l_documents r) = 20
                  \<and> hasNext (l_pagination r) \<and> \<not> hasPrev (l_pagination r))
            \<and> (?p = 2 \<longrightarrow> length (l_documents r) = 20
                  \<and> hasNext (l_pagination r) \<and> hasPrev (l_pagination r))
            \<and> (?p = 3 \<longrightarrow> length (l_documents r) = 5
                  \<and> \<not> hasNext (l_pagination r) \<and> hasPrev (l_pagination r))"
      if e: "length ?M = 45 \<and> ?l = 20"
    proof -
      from e have n: "length ?M = 45" and l20: "?l = 20" by blast+
      from len l20 have len': "length (l_documents r)
          = min (nat 20) (length ?M - nat ((?p - 1) * 20))" by simp
      from p l20 have p': "l_pagination r = paginate ?p 20 (l_documents r) (length ?M)" by simp
      from page_45[OF p1 n len' p'] show ?thesis .
    qed
    from sub len ex show ?thesis by blast
  qed
  from f srtd perm show "totalItems (l_pagination r) = length ?M
    \<and> currentPage (l_pagination r) = ?p
    \<and> totalPages (l_pagination r)
        = Some \<lceil>real (totalItems (l_pagination r)) / real_of_int ?l\<rceil>
    \<and> hasNext (l_pagination r)
        = ((?p - 1) * ?l + int (length (l_documents r))
              < int (totalItems (l_pagination r)))
    \<and> hasPrev (l_pagination r) = (1 < ?p)
    \<and> (\<exists>ordered. srt (sort_field (q2_sortBy q)) (sort_dir (q2_sortOrder q)) ?M = Some ordered
          \<and> l_documents r = take (nat ?l) (drop (nat ((?p - 1) * ?l)) ordered))
    \<and> (permuting srt \<longrightarrow>
          mset (l_documents r) \<subseteq># mset ?M
        \<and> length (l_documents r) = min (nat ?l) (length ?M - nat ((?p - 1) * ?l))
        \<and> (length ?M = 45 \<and> ?l = 20 \<longrightarrow>
              totalItems (l_pagination r) = 45 \<and> totalPages (l_pagination r) = Some 3
            \<and> (?p = 1 \<longrightarrow> length (l_documents r) = 20
                  \<and> hasNext (l_pagination r) \<and> \<not> hasPrev (l_pagination r))
            \<and> (?p = 2 \<longrightarrow> length (l_documents r) = 20
                  \<and> hasNext (l_pagination r) \<and> hasPrev (l_pagination r))
            \<and> (?p = 3 \<longrightarrow> length (l_documents r) = 5
                  \<and> \<not> hasNext (l_pagination r) \<and> hasPrev (l_pagination r))))"
    by blast
qed

lemma matching_store45:
  "matching plain_only store45 7 (page_query p) = map (\<lambda>i. doc0\<lparr>doc_id := i\<rparr>) [0..<45]"
  by (simp add: matching_def store45_def query_match_def page_query_def opt_eq_def truthy_def
      doc0_def filter_map o_def)

lemma matching_store45_p2:
  "matching_p2 plain_only store45_p2 7 (page_query_p2 p) = map (\<lambda>i. doc0_p2\<lparr>doc_id := i\<rparr>) [0..<45]"
  by (simp add: matching_p2_def store45_p2_def query_match_p2_def page_query_p2_def
      opt_eq_all_def truthy_def doc0_p2_def filter_map o_def)

lemma page_query_simps:
  "q_page (page_query p) = p" "q_limit (page_query p) = 20" "q_clientId (page_query p) = QAbsent"
  "q_search (page_query p) = None" "q_sortBy (page_query p) = Some ''title''"
  "q_sortOrder (page_query p) = Some ''asc''" "unfiltered (page_query p)"
  "q2_page (page_query_p2 p) = p" "q2_limit (page_query_p2 p) = 20"
  "q2_search (page_query_p2 p) = None" "q2_sortBy (page_query_p2 p) = Some ''title''"
  "q2_sortOrder (page_query_p2 p) = Some ''asc''" "unfiltered_p2 (page_query_p2 p)"
  by (simp_all add: page_query_def page_query_p2_def unfiltered_def unfiltered_p2_def truthy_def)

lemma list45:
  assumes "1 \<le> p"
  shows "\<exists>r. getDocuments by_createdAt plain_only store45 7 (page_query p) = Success 200 [] r"
proof -
  have "by_createdAt (sort_field (q_sortBy (page_query p))) (sort_dir (q_sortOrder (page_query p)))
          (matching plain_only store45 7 (page_query p)) \<noteq> None"
    by (simp add: by_createdAt_def sort_field_def page_query_simps)
  with assms getDocuments_answers[of "page_query p" plain_only by_createdAt store45 7]
  show ?thesis by (simp add: page_query_simps truthy_def)
qed

lemma list45_p2:
  assumes "1 \<le> p"
  shows "\<exists>r. getLawyerDocuments by_createdAt plain_only store45_p2 7 (page_query_p2 p)
               = Success 200 [] r"
proof -
  have "by_createdAt (sort_field (q2_sortBy (page_query_p2 p)))
          (sort_dir (q2_sortOrder (page_query_p2 p)))
          (matching_p2 plain_only store45_p2 7 (page_query_p2 p)) \<noteq> None"
    by (simp add: by_createdAt_def sort_field_def page_query_simps)
  with assms getLawyerDocuments_answers[of "page_query_p2 p" plain_only by_createdAt store45_p2 7]
  show ?thesis by (simp add: page_query_simps truthy_def)
qed

lemma permuting_ex:
  "permuting (by_createdAt :: document sorter)" "permuting (by_createdAt :: document_p2 sorter)"
  by (rule permuting_by_createdAt)+

text \<open>
  C9. The set a list call pages over is \<open>matching\<close>: the stored documents of the caller
  that are not deleted (in \<^verbatim>\<open>documentController.js\<close>) and pass each filter the query
  gives (client, category or type, status, priority, search); without a filter, all
  documents of the caller that are not deleted. For a call with \<open>1 \<le> page\<close> and \<open>1 \<le> limit\<close> the
  handler answers 200 whenever the database accepts the query, and in every such answer
  \<open>totalItems\<close> is the number of matching documents, \<open>totalPages\<close> is the ceiling of
  \<open>totalItems / limit\<close>, \<open>hasNext\<close> is \<open>(page - 1) * limit + returnedCount < totalItems\<close>,
  and \<open>hasPrev\<close> is \<open>1 < page\<close>. When the sort returns the documents it was given, the
  page is the block of \<open>limit\<close> documents after the first \<open>(page - 1) * limit\<close> of an
  ordering of the matching documents, so \<open>returnedCount\<close> is the smaller of \<open>limit\<close> and what
  is left; and with 45 matching documents and limit 20 there are 3 pages: pages 1 and 2
  hold 20 documents and have a next page, page 3 holds 5 and has none, and only page 1
  has no previous page. The same for \<^verbatim>\<open>unnamed/part_002\<close>.
\<close>

theorem pagination_math:
  "((1 \<le> q_page q \<and> 1 \<le> q_limit q \<and> q_clientId q \<noteq> QAll
       \<and> (truthy (q_search q) \<longrightarrow> regex_i rx (or_default (q_search q) []) \<noteq> None)
       \<and> srt (sort_field (q_sortBy q)) (sort_dir (q_sortOrder q)) (matching rx st lawyer q) \<noteq> None
     \<longrightarrow> (\<exists>r. getDocuments srt rx st lawyer q = Success 200 [] r))
    \<and> (\<forall>d. d \<in> set (matching rx st lawyer q) \<longleftrightarrow>
          d \<in> set (documents st) \<and> lawyerId d = lawyer \<and> \<not> isDeleted d
          \<and> (\<forall>c'. q_clientId q = QId c' \<longrightarrow> clientId d = c')
          \<and> (\<forall>v. q_category q = Some v \<and> v \<noteq> [] \<longrightarrow> category d = v)
          \<and> (\<forall>v. q_status q = Some v \<and> v \<noteq> [] \<longrightarrow> status d = v)
          \<and> (\<forall>v. q_priority q = Some v \<and> v \<noteq> [] \<longrightarrow> priority d = v)
          \<and> (\<forall>s f. q_search q = Some s \<and> s \<noteq> [] \<and> regex_i rx s = Some f \<longrightarrow>
                f (title d) \<or> (\<exists>x. description d = Some x \<and> f x)
                \<or> (\<exists>t \<in> set (tags d). f t)))
    \<and> (unfiltered q \<longrightarrow>
          matching rx st lawyer q
            = filter (\<lambda>d. lawyerId d = lawyer \<and> \<not> isDeleted d) (documents st))
    \<and> (1 \<le> q_page q \<and> 1 \<le> q_limit q \<and> getDocuments srt rx st lawyer q = Success c m r \<longrightarrow>
          totalItems (l_pagination r) = length (matching rx st lawyer q)
          \<and> currentPage (l_pagination r) = q_page q
          \<and> totalPages (l_pagination r)
              = Some \<lceil>real (totalItems (l_pagination r)) / real_of_int (q_limit q)\<rceil>
          \<and> hasNext (l_pagination r)
              = ((q_page q - 1) * q_limit q + int (length (l_documents r))
                    < int (totalItems (l_pagination r)))
          \<and> hasPrev (l_pagination r) = (1 < q_page q)
          \<and> (\<exists>ordered. srt (sort_field (q_sortBy q)) (sort_dir (q_sortOrder q)) (matching rx st lawyer q) = Some ordered
                \<and> l_documents r = take (nat (q_limit q)) (drop (nat ((q_page q - 1) * q_limit q)) ordered))
          \<and> (permuting srt \<longrightarrow>
                mset (l_documents r) \<subseteq># mset (matching rx st lawyer q)
              \<and> length (l_documents r) = min (nat (q_limit q)) (length (matching rx st lawyer q) - nat ((q_page q - 1) * q_limit q))
              \<and> (length (matching rx st lawyer q) = 45 \<and> q_limit q = 20 \<longrightarrow>
                    totalItems (l_pagination r) = 45 \<and> totalPages (l_pagination r) = Some 3
                  \<and> (q_page q = 1 \<longrightarrow> length (l_documents r) = 20
                        \<and> hasNext (l_pagination r) \<and> \<not> hasPrev (l_pagination r))
                  \<and> (q_page q = 2 \<longrightarrow> length (l_documents r) = 20
                        \<and> hasNext (l_pagination r) \<and> hasPrev (l_pagination r))
                  \<and> (q_page q = 3 \<longrightarrow> length (l_documents r) = 5
                        \<and> \<not> hasNext (l_pagination r) \<and> hasPrev (l_pagination r))))))
   \<and> ((1 \<le> q2_page q2 \<and> 1 \<le> q2_limit q2
       \<and> (truthy (q2_search q2) \<longrightarrow> regex_i rx2 (or_default (q2_search q2) []) \<noteq> None)
       \<and> srt2 (sort_field (q2_sortBy q2)) (sort_dir (q2_sortOrder q2))
            (matching_p2 rx2 s2 lawyer2 q2) \<noteq> None
     \<longrightarrow> (\<exists>r. getLawyerDocuments srt2 rx2 s2 lawyer2 q2 = Success 200 [] r))
    \<and> (\<forall>d. d \<in> set (matching_p2 rx2 s2 lawyer2 q2) \<longleftrightarrow>
          d \<in> set (documents s2) \<and> lawyerId d = lawyer2
          \<and> (\<forall>c'. q2_clientId q2 = QId c' \<longrightarrow> clientId d = c')
          \<and> (\<forall>v. q2_status q2 = Some v \<and> v \<noteq> [] \<and> v \<noteq> ''all'' \<longrightarrow> status d = v)
          \<and> (\<forall>v. q2_documentType q2 = Some v \<and> v \<noteq> [] \<and> v \<noteq> ''all''
                \<longrightarrow> documentType d = v)
          \<and> (\<forall>s f. q2_search q2 = Some s \<and> s \<noteq> [] \<and> regex_i rx2 s = Some f \<longrightarrow>
                f (title d) \<or> (\<exists>x. description d = Some x \<and> f x)
                \<or> f (originalFileName d)))
    \<and> (unfiltered_p2 q2 \<longrightarrow>
          matching_p2 rx2 s2 lawyer2 q2 = filter (\<lambda>d. lawyerId d = lawyer2) (documents s2))
    \<and> (1 \<le> q2_page q2 \<and> 1 \<le> q2_limit q2
          \<and> getLawyerDocuments srt2 rx2 s2 lawyer2 q2 = Success c2 m2 r2 \<longrightarrow>
          totalItems (l_pagination r2) = length (matching_p2 rx2 s2 lawyer2 q2)
          \<and> currentPage (l_pagination r2) = q2_page q2
          \<and> totalPages (l_pagination r2)
              = Some \<lceil>real (totalItems (l_pagination r2)) / real_of_int (q2_limit q2)\<rceil>
          \<and> hasNext (l_pagination r2)
              = ((q2_page q2 - 1) * q2_limit q2 + int (length (l_documents r2))
                    < int (totalItems (l_pagination r2)))
          \<and> hasPrev (l_pagination r2) = (1 < q2_page q2)
          \<and> (\<exists>ordered. srt2 (sort_field (q2_sortBy q2)) (sort_dir (q2_sortOrder q2)) (matching_p2 rx2 s2 lawyer2 q2) = Some ordered
                \<and> l_documents r2 = take (nat (q2_limit q2)) (drop (nat ((q2_page q2 - 1) * q2_limit q2)) ordered))
          \<and> (permuting srt2 \<longrightarrow>
                mset (l_documents r2) \<subseteq># mset (matching_p2 rx2 s2 lawyer2 q2)
              \<and> length (l_documents r2) = min (nat (q2_limit q2)) (length (matching_p2 rx2 s2 lawyer2 q2) - nat ((q2_page q2 - 1) * q2_limit q2))
              \<and> (length (matching_p2 rx2 s2 lawyer2 q2) = 45 \<and> q2_limit q2 = 20 \<longrightarrow>
                    totalItems (l_pagination r2) = 45 \<and> totalPages (l_pagination r2) = Some 3
                  \<and> (q2_page q2 = 1 \<longrightarrow> length (l_documents r2) = 20
                        \<and> hasNext (l_pagination r2) \<and> \<not> hasPrev (l_pagination r2))
                  \<and> (q2_page q2 = 2 \<longrightarrow> length (l_documents r2) = 20
                        \<and> hasNext (l_pagination r2) \<and> hasPrev (l_pagination r2))
                  \<and> (q2_page q2 = 3 \<longrightarrow> length (l_documents r2) = 5
                        \<and> \<not> hasNext (l_pagination r2) \<and> hasPrev (l_pagination r2))))))"
proof (rule conjI)
  show "(1 \<le> q_page q \<and> 1 \<le> q_limit q \<and> q_clientId q \<noteq> QAll
       \<and> (truthy (q_search q) \<longrightarrow> regex_i rx (or_default (q_search q) []) \<noteq> None)
       \<and> srt (sort_field (q_sortBy q)) (sort_dir (q_sortOrder q)) (matching rx st lawyer q) \<noteq> None
     \<longrightarrow> (\<exists>r. getDocuments srt rx st lawyer q = Success 200 [] r))
    \<and> (\<forall>d. d \<in> set (matching rx st lawyer q) \<longleftrightarrow>
          d \<in> set (documents st) \<and> lawyerId d = lawyer \<and> \<not> isDeleted d
          \<and> (\<forall>c'. q_clientId q = QId c' \<longrightarrow> clientId d = c')
          \<and> (\<forall>v. q_category q = Some v \<and> v \<noteq> [] \<longrightarrow> category d = v)
          \<and> (\<forall>v. q_status q = Some v \<and> v \<noteq> [] \<longrightarrow> status d = v)
          \<and> (\<forall>v. q_priority q = Some v \<and> v \<noteq> [] \<longrightarrow> priority d = v)
          \<and> (\<forall>s f. q_search q = Some s \<and> s \<noteq> [] \<and> regex_i rx s = Some f \<longrightarrow>
                f (title d) \<or> (\<exists>x. description d = Some x \<and> f x)
                \<or> (\<exists>t \<in> set (tags d). f t)))
    \<and> (unfiltered q \<longrightarrow>
          matching rx st lawyer q
            = filter (\<lambda>d. lawyerId d = lawyer \<and> \<not> isDeleted d) (documents st))
    \<and> (1 \<le> q_page q \<and> 1 \<le> q_limit q \<and> getDocuments srt rx st lawyer q = Success c m r \<longrightarrow>
          totalItems (l_pagination r) = length (matching rx st lawyer q)
          \<and> currentPage (l_pagination r) = q_page q
          \<and> totalPages (l_pagination r)
              = Some \<lceil>real (totalItems (l_pagination r)) / real_of_int (q_limit q)\<rceil>
          \<and> hasNext (l_pagination r)
              = ((q_page q - 1) * q_limit q + int (length (l_documents r))
                    < int (totalItems (l_pagination r)))
          \<and> hasPrev (l_pagination r) = (1 < q_page q)
          \<and> (\<exists>ordered. srt (sort_field (q_sortBy q)) (sort_dir (q_sortOrder q)) (matching rx st lawyer q) = Some ordered
                \<and> l_documents r = take (nat (q_limit q)) (drop (nat ((q_page q - 1) * q_limit q)) ordered))
          \<and> (permuting srt \<longrightarrow>
                mset (l_documents r) \<subseteq># mset (matching rx st lawyer q)
              \<and> length (l_documents r) = min (nat (q_limit q)) (length (matching rx st lawyer q) - nat ((q_page q - 1) * q_limit q))
              \<and> (length (matching rx st lawyer q) = 45 \<and> q_limit q = 20 \<longrightarrow>
                    totalItems (l_pagination r) = 45 \<and> totalPages (l_pagination r) = Some 3
                  \<and> (q_page q = 1 \<longrightarrow> length (l_documents r) = 20
                        \<and> hasNext (l_pagination r) \<and> \<not> hasPrev (l_pagination r))
                  \<and> (q_page q = 2 \<longrightarrow> length (l_documents r) = 20
                        \<and> hasNext (l_pagination r) \<and> hasPrev (l_pagination r))
                  \<and> (q_page q = 3 \<longrightarrow> length (l_documents r) = 5
                        \<and> \<not> hasNext (l_pagination r) \<and> hasPrev (l_pagination r)))))"
    by (intro conjI) (rule getDocuments_answers matching_iff matching_unfiltered
        getDocuments_pages)+
next
  show "(1 \<le> q2_page q2 \<and> 1 \<le> q2_limit q2
       \<and> (truthy (q2_search q2) \<longrightarrow> regex_i rx2 (or_default (q2_search q2) []) \<noteq> None)
       \<and> srt2 (sort_field (q2_sortBy q2)) (sort_dir (q2_sortOrder q2))
            (matching_p2 rx2 s2 lawyer2 q2) \<noteq> None
     \<longrightarrow> (\<exists>r. getLawyerDocuments srt2 rx2 s2 lawyer2 q2 = Success 200 [] r))
    \<and> (\<forall>d. d \<in> set (matching_p2 rx2 s2 lawyer2 q2) \<longleftrightarrow>
          d \<in> set (documents s2) \<and> lawyerId d = lawyer2
          \<and> (\<forall>c'. q2_clientId q2 = QId c' \<longrightarrow> clientId d = c')
          \<and> (\<forall>v. q2_status q2 = Some v \<and> v \<noteq> [] \<and> v \<noteq> ''all'' \<longrightarrow> status d = v)
          \<and> (\<forall>v. q2_documentType q2 = Some v \<and> v \<noteq> [] \<and> v \<noteq> ''all''
                \<longrightarrow> documentType d = v)
          \<and> (\<forall>s f. q2_search q2 = Some s \<and> s \<noteq> [] \<and> regex_i rx2 s = Some f \<longrightarrow>
                f (title d) \<or> (\<exists>x. description d = Some x \<and> f x)
                \<or> f (originalFileName d)))
    \<and> (unfiltered_p2 q2 \<longrightarrow>
          matching_p2 rx2 s2 lawyer2 q2 = filter (\<lambda>d. lawyerId d = lawyer2) (documents s2))
    \<and> (1 \<le> q2_page q2 \<and> 1 \<le> q2_limit q2
          \<and> getLawyerDocuments srt2 rx2 s2 lawyer2 q2 = Success c2 m2 r2 \<longrightarrow>
          totalItems (l_pagination r2) = length (matching_p2 rx2 s2 lawyer2 q2)
          \<and> currentPage (l_pagination r2) = q2_page q2
          \<and> totalPages (l_pagination r2)
              = Some \<lceil>real (totalItems (l_pagination r2)) / real_of_int (q2_limit q2)\<rceil>
          \<and> hasNext (l_pagination r2)
              = ((q2_page q2 - 1) * q2_limit q2 + int (length (l_documents r2))
                    < int (totalItems (l_pagination r2)))
          \<and> hasPrev (l_pagination r2) = (1 < q2_page q2)
          \<and> (\<exists>ordered. srt2 (sort_field (q2_sortBy q2)) (sort_dir (q2_sortOrder q2)) (matching_p2 rx2 s2 lawyer2 q2) = Some ordered
                \<and> l_documents r2 = take (nat (q2_limit q2)) (drop (nat ((q2_page q2 - 1) * q2_limit q2)) ordered))
          \<and> (permuting srt2 \<longrightarrow>
                mset (l_documents r2) \<subseteq># mset (matching_p2 rx2 s2 lawyer2 q2)
              \<and> length (l_documents r2) = min (nat (q2_limit q2)) (length (matching_p2 rx2 s2 lawyer2 q2) - nat ((q2_page q2 - 1) * q2_limit q2))
              \<and> (length (matching_p2 rx2 s2 lawyer2 q2) = 45 \<and> q2_limit q2 = 20 \<longrightarrow>
                    totalItems (l_pagination r2) = 45 \<and> totalPages (l_pagination r2) = Some 3
                  \<and> (q2_page q2 = 1 \<longrightarrow> length (l_documents r2) = 20
                        \<and> hasNext (l_pagination r2) \<and> \<not> hasPrev (l_pagination r2))
                  \<and> (q2_page q2 = 2 \<longrightarrow> length (l_documents r2) = 20
                        \<and> hasNext (l_pagination r2) \<and> hasPrev (l_pagination r2))
                  \<and> (q2_page q2 = 3 \<longrightarrow> length (l_documents r2) = 5
                        \<and> \<not> hasNext (l_pagination r2) \<and> hasPrev (l_pagination r2)))))"
    by (intro conjI) (rule getLawyerDocuments_answers matching_p2_iff matching_p2_unfiltered
        getLawyerDocuments_pages)+
qed

theorem pagination_math_witness:
  "length (documents store45) = 47 \<and> length (documents store45_p2) = 47
   \<and> unfiltered (page_query 1) \<and> unfiltered_p2 (page_query_p2 1)
   \<and> matching plain_only store45 7 (page_query 1)
       = filter (\<lambda>d. lawyerId d = 7 \<and> \<not> isDeleted d) (documents store45)
   \<and> matching_p2 plain_only store45_p2 7 (page_query_p2 1)
       = filter (\<lambda>d. lawyerId d = 7) (documents store45_p2)
   \<and> length (matching plain_only store45 7 (page_query 1)) = 45
   \<and> length (matching_p2 plain_only store45_p2 7 (page_query_p2 1)) = 45
   \<and> permuting (by_createdAt :: document sorter)
   \<and> permuting (by_createdAt :: document_p2 sorter)
   \<and> (\<exists>r. getDocuments by_createdAt plain_only store45 7 (page_query 1) = Success 200 [] r
        \<and> totalItems (l_pagination r) = 45 \<and> totalPages (l_pagination r) = Some 3
        \<and> length (l_documents r) = 20 \<and> map doc_id (l_documents r) = [0..<20]
        \<and> hasNext (l_pagination r) \<and> \<not> hasPrev (l_pagination r))
   \<and> (\<exists>r. getDocuments by_createdAt plain_only store45 7 (page_query 3) = Success 200 [] r
        \<and> totalItems (l_pagination r) = 45 \<and> totalPages (l_pagination r) = Some 3
        \<and> length (l_documents r) = 5 \<and> map doc_id (l_documents r) = [40..<45]
        \<and> \<not> hasNext (l_pagination r) \<and> hasPrev (l_pagination r))
   \<and> (\<exists>r. getLawyerDocuments by_createdAt plain_only store45_p2 7 (page_query_p2 1)
             = Success 200 [] r
        \<and> totalItems (l_pagination r) = 45 \<and> totalPages (l_pagination r) = Some 3
        \<and> length (l_documents r) = 20 \<and> map doc_id (l_documents r) = [0..<20]
        \<and> hasNext (l_pagination r) \<and> \<not> hasPrev (l_pagination r))
   \<and> (\<exists>r. getLawyerDocuments by_createdAt plain_only store45_p2 7 (page_query_p2 3)
             = Success 200 [] r
        \<and> totalItems (l_pagination r) = 45 \<and> totalPages (l_pagination r) = Some 3
        \<and> length (l_documents r) = 5 \<and> map doc_id (l_documents r) = [40..<45]
        \<and> \<not> hasNext (l_pagination r) \<and> hasPrev (l_pagination r))"
proof -
  have n: "length (documents store45) = 47" "length (documents store45_p2) = 47"
    by (simp_all add: store45_def store45_p2_def)
  have k: "length (matching plain_only store45 7 (page_query p)) = 45"
    "length (matching_p2 plain_only store45_p2 7 (page_query_p2 p)) = 45" for p
    by (simp_all add: matching_store45 matching_store45_p2)
  from list45[of 1] obtain r1 where r1:
    "getDocuments by_createdAt plain_only store45 7 (page_query 1) = Success 200 [] r1" by auto
  from list45[of 3] obtain r3 where r3:
    "getDocuments by_createdAt plain_only store45 7 (page_query 3) = Success 200 [] r3" by auto
  from list45_p2[of 1] obtain t1 where t1:
    "getLawyerDocuments by_createdAt plain_only store45_p2 7 (page_query_p2 1) = Success 200 [] t1"
    by auto
  from list45_p2[of 3] obtain t3 where t3:
    "getLawyerDocuments by_createdAt plain_only store45_p2 7 (page_query_p2 3) = Success 200 [] t3"
    by auto
  note p1 = pagination_math [where q = "page_query 1" and rx = plain_only and srt = by_createdAt
      and st = store45 and lawyer = 7 and c = 200 and m = "[]" and r = r1
      and ?q2.0 = "page_query_p2 1" and ?rx2.0 = plain_only and ?srt2.0 = by_createdAt
      and ?s2.0 = store45_p2 and ?lawyer2.0 = 7 and ?c2.0 = 200 and ?m2.0 = "[]" and ?r2.0 = t1]
  note p3 = pagination_math [where q = "page_query 3" and rx = plain_only and srt = by_createdAt
      and st = store45 and lawyer = 7 and c = 200 and m = "[]" and r = r3
      and ?q2.0 = "page_query_p2 3" and ?rx2.0 = plain_only and ?srt2.0 = by_createdAt
      and ?s2.0 = store45_p2 and ?lawyer2.0 = 7 and ?c2.0 = 200 and ?m2.0 = "[]" and ?r2.0 = t3]
  note a1 = p1[THEN conjunct1] and b1 = p1[THEN conjunct2]
  note a3 = p3[THEN conjunct1] and b3 = p3[THEN conjunct2]
  have u: "matching plain_only store45 7 (page_query 1)
       = filter (\<lambda>d. lawyerId d = 7 \<and> \<not> isDeleted d) (documents store45)"
    using a1[THEN conjunct2, THEN conjunct2, THEN conjunct1] page_query_simps(7) by simp
  have u2: "matching_p2 plain_only store45_p2 7 (page_query_p2 1)
       = filter (\<lambda>d. lawyerId d = 7) (documents store45_p2)"
    using b1[THEN conjunct2, THEN conjunct2, THEN conjunct1] page_query_simps(13) by simp
  have a: "totalItems (l_pagination r1) = 45 \<and> totalPages (l_pagination r1) = Some 3
        \<and> length (l_documents r1) = 20
        \<and> hasNext (l_pagination r1) \<and> \<not> hasPrev (l_pagination r1)"
    using a1[THEN conjunct2, THEN conjunct2, THEN conjunct2] r1 permuting_ex(1) k(1)
    by (simp add: page_query_simps)
  have b: "totalItems (l_pagination t1) = 45 \<and> totalPages (l_pagination t1) = Some 3
        \<and> length (l_documents t1) = 20
        \<and> hasNext (l_pagination t1) \<and> \<not> hasPrev (l_pagination t1)"
    using b1[THEN conjunct2, THEN conjunct2, THEN conjunct2] t1 permuting_ex(2) k(2)
    by (simp add: page_query_simps)
  have c: "totalItems (l_pagination r3) = 45 \<and> totalPages (l_pagination r3) = Some 3
        \<and> length (l_documents r3) = 5
        \<and> \<not> hasNext (l_pagination r3) \<and> hasPrev (l_pagination r3)"
    using a3[THEN conjunct2, THEN conjunct2, THEN conjunct2] r3 permuting_ex(1) k(1)
    by (simp add: page_query_simps)
  have d: "totalItems (l_pagination t3) = 45 \<and> totalPages (l_pagination t3) = Some 3
        \<and> length (l_documents t3) = 5
        \<and> \<not> hasNext (l_pagination t3) \<and> hasPrev (l_pagination t3)"
    using b3[THEN conjunct2, THEN conjunct2, THEN conjunct2] t3 permuting_ex(2) k(2)
    by (simp add: page_query_simps)
  note ev = page_query_simps matching_store45 matching_store45_p2 by_createdAt_def sort_field_def
    drop_map take_map o_def
  have a': "map doc_id (l_documents r1) = [0..<20]"
    using a1[THEN conjunct2, THEN conjunct2, THEN conjunct2] r1 by (auto simp: ev)
  have b': "map doc_id (l_documents t1) = [0..<20]"
    using b1[THEN conjunct2, THEN conjunct2, THEN conjunct2] t1 by (auto simp: ev)
  have c': "map doc_id (l_documents r3) = [40..<45]"
    using a3[THEN conjunct2, THEN conjunct2, THEN conjunct2] r3 by (auto simp: ev)
  have d': "map doc_id (l_documents t3) = [40..<45]"
    using b3[THEN conjunct2, THEN conjunct2, THEN conjunct2] t3 by (auto simp: ev)
  from n u u2 k a b c d a' b' c' d' r1 r3 t1 t3 permuting_ex page_query_simps(7,13)
  show ?thesis by blast
qed

subsection \<open>What every request preserves\<close>

lemma evolves_refl: "evolves d d"
  by (simp add: evolves_def)

lemma evolves_soft_refl: "evolves_soft d d"
  by (simp add: evolves_soft_def evolves_refl)

lemma evolves_trans: "evolves a b \<Longrightarrow> evolves b c \<Longrightarrow> evolves a c"
  by (simp add: evolves_def)

lemma evolves_soft_trans: "evolves_soft a b \<Longrightarrow> evolves_soft b c \<Longrightarrow> evolves_soft a c"
  by (auto simp: evolves_soft_def intro: evolves_trans)

lemma advances_refl: "(\<And>d. R d d) \<Longrightarrow> advances R st st"
  by (auto simp: advances_def)

lemma advances_trans:
  assumes t: "\<And>a b c. R a b \<Longrightarrow> R b c \<Longrightarrow> R a c"
    and i: "\<And>a b. R a b \<Longrightarrow> doc_id b = doc_id a"
    and ab: "advances R s1 s2" and bc: "advances R s2 s3"
  shows "advances R s1 s3"
proof -
  from ab bc have n: "nextId s1 \<le> nextId s3" by (simp add: advances_def)
  have "(\<exists>d \<in> set (documents s1). R d x) \<or> nextId s1 \<le> doc_id x" if x: "x \<in> set (documents s3)" for x
  proof -
    from bc x consider y where "y \<in> set (documents s2)" "R y x" | "nextId s2 \<le> doc_id x"
      by (auto simp: advances_def)
    then show ?thesis
    proof cases
      case 1
      from ab 1(1) consider z where "z \<in> set (documents s1)" "R z y" | "nextId s1 \<le> doc_id y"
        by (auto simp: advances_def)
      then show ?thesis
      proof cases
        case 1
        with \<open>R y x\<close> t show ?thesis by blast
      next
        case 2
        with i[OF \<open>R y x\<close>] show ?thesis by simp
      qed
    next
      case 2
      with ab show ?thesis by (simp add: advances_def)
    qed
  qed
  with n show ?thesis by (simp add: advances_def)
qed

text \<open>The three ways a handler changes the collection.\<close>

lemma unchanged_ok:
  assumes "documents st' = documents st" "nextId st' = nextId st" "\<And>d. R d d"
  shows "(ids_ok st \<longrightarrow> ids_ok st') \<and> advances R st st'"
  using assms by (auto simp: ids_ok_def advances_def)

lemma appended_ok:
  assumes "documents st' = documents st @ [d]" "nextId st' = Suc (nextId st)"
    "doc_id d = nextId st" "\<And>d. R d d"
  shows "(ids_ok st \<longrightarrow> ids_ok st') \<and> advances R st st'"
proof -
  have "ids_ok st'" if ok: "ids_ok st"
  proof -
    from ok have "\<forall>x \<in> set (documents st). doc_id x < nextId st"
      by (simp add: ids_ok_def list_all_iff)
    then have "nextId st \<notin> set (map doc_id (documents st))" by auto
    with ok assms show ?thesis
      by (auto simp: ids_ok_def list_all_iff)
  qed
  moreover have "advances R st st'"
    using assms by (auto simp: advances_def)
  ultimately show ?thesis by blast
qed

lemma replaced_ok:
  assumes "documents st' = replace_doc d' (documents st)" "nextId st' = nextId st"
    "d \<in> set (documents st)" "R d d'" "doc_id d' = doc_id d" "\<And>d. R d d"
  shows "(ids_ok st \<longrightarrow> ids_ok st') \<and> advances R st st'"
proof -
  have "ids_ok st'" if ok: "ids_ok st"
  proof -
    from ok assms(3) have "doc_id d < nextId st" by (simp add: ids_ok_def list_all_iff)
    moreover have "\<forall>y \<in> set (replace_doc d' (documents st)). y = d' \<or> y \<in> set (documents st)"
      using replace_doc_mem by blast
    ultimately show ?thesis using ok assms
      by (auto simp: ids_ok_def list_all_iff replace_doc_ids)
  qed
  moreover have "advances R st st'"
    unfolding advances_def using assms replace_doc_mem[of _ d' "documents st"] by auto
  ultimately show ?thesis by blast
qed

lemma removed_ok:
  assumes "documents st' = remove_doc i (documents st)" "nextId st' = nextId st" "\<And>d. R d d"
  shows "(ids_ok st \<longrightarrow> ids_ok st') \<and> advances R st st'"
proof -
  have "ids_ok st'" if ok: "ids_ok st"
    using ok assms remove_doc_subset[of _ i "documents st"]
    by (auto simp: ids_ok_def list_all_iff remove_doc_ids)
  moreover have "advances R st st'"
    unfolding advances_def using assms remove_doc_subset[of _ i "documents st"] by auto
  ultimately show ?thesis by blast
qed

lemma pre_save_evolves:
  "evolves_soft old new \<Longrightarrow> evolves_soft old ((pre_save e old new)\<lparr>updatedAt := t\<rparr>)"
  by (simp add: pre_save_def evolves_soft_def evolves_def)

lemma save_ok:
  assumes s: "save e st old new = Some (d', st')"
    and m: "old \<in> set (documents st)" and r: "evolves_soft old new"
  shows "(ids_ok st \<longrightarrow> ids_ok st') \<and> advances evolves_soft st st'
         \<and> files st' = files st \<and> evolves_soft old d'"
proof -
  from save_cases[OF s] show ?thesis
  proof
    assume "d' = old \<and> st' = st"
    then show ?thesis
      using unchanged_ok[of st' st evolves_soft] by (simp add: evolves_soft_refl)
  next
    assume a: "d' = (pre_save e old new)\<lparr>updatedAt := now e\<rparr>
          \<and> st' = st\<lparr>documents := replace_doc d' (documents st)\<rparr>"
    then have ev: "evolves_soft old d'" using pre_save_evolves[OF r] by simp
    then have id: "doc_id d' = doc_id old" by (simp add: evolves_soft_def evolves_def)
    from a have "documents st' = replace_doc d' (documents st)" "nextId st' = nextId st"
      "files st' = files st" by simp_all
    with replaced_ok[of st' d' st old evolves_soft] m ev id show ?thesis
      by (simp add: evolves_soft_refl)
  qed
qed

lemma findOne_mem: "findOne st i lawyer = Some d \<Longrightarrow> d \<in> set (documents st) \<and> doc_id d = i \<and> lawyerId d = lawyer \<and> \<not> isDeleted d"
  by (auto simp: findOne_def dest: find_SomeD)

lemma apply_patch_evolves: "evolves_soft d (apply_patch e lawyer req d)"
  by (simp add: apply_patch_def Let_def evolves_soft_def evolves_def split: option.splits)

lemma upload_ok:
  "(ids_ok st \<longrightarrow> ids_ok (snd (uploadDocument e st lawyer req)))
   \<and> advances evolves_soft st (snd (uploadDocument e st lawyer req))"
proof (cases "uploadDocument e st lawyer req")
  case (Pair r st')
  show ?thesis
  proof (cases r)
    case (Success c m d)
    with Pair upload_success[of e st lawyer req c m d st'] obtain f where
      "doc_id d = nextId st" "st' = (writeFile st f)\<lparr>documents := documents st @ [d], nextId := Suc (nextId st)\<rparr>"
      by auto
    then have "documents st' = documents st @ [d]" "nextId st' = Suc (nextId st)" "doc_id d = nextId st"
      by (simp_all add: writeFile_def)
    from appended_ok[OF this, of evolves_soft] Pair show ?thesis by (simp add: evolves_soft_refl)
  next
    case (Failure c m)
    with Pair have "st' = st"
      by (auto simp: uploadDocument_def split: if_splits option.splits)
    with Pair unchanged_ok[of st st evolves_soft] show ?thesis by (simp add: evolves_soft_refl)
  next
    case NoReply
    with Pair have "documents st' = documents st \<and> nextId st' = nextId st"
      by (auto simp: uploadDocument_def writeFile_def unlink_def split: if_splits option.splits)
    with Pair unchanged_ok[of st' st evolves_soft] show ?thesis by (simp add: evolves_soft_refl)
  qed
qed

lemma download_ok:
  "(ids_ok st \<longrightarrow> ids_ok (snd (downloadDocument e st lawyer i)))
   \<and> advances evolves_soft st (snd (downloadDocument e st lawyer i))"
proof (cases "findOne st i lawyer")
  case None
  then show ?thesis using unchanged_ok[of st st evolves_soft]
    by (simp add: downloadDocument_def evolves_soft_refl)
next
  case (Some d)
  let ?n = "d\<lparr>downloadCount := downloadCount d + 1, lastDownloadedAt := Some (now e),
                lastDownloadedBy := Some lawyer\<rparr>"
  have ev: "evolves_soft d ?n" by (simp add: evolves_soft_def evolves_def)
  show ?thesis
  proof (cases "files st (filePath d)")
    case None
    with Some show ?thesis using unchanged_ok[of st st evolves_soft]
      by (simp add: downloadDocument_def evolves_soft_refl)
  next
    case (Some b)
    show ?thesis
    proof (cases "save e st d ?n")
      case None
      with Some \<open>findOne st i lawyer = Some d\<close> show ?thesis using unchanged_ok[of st st evolves_soft]
        by (simp add: downloadDocument_def evolves_soft_refl)
    next
      case (Some p)
      obtain d' st' where p: "p = (d', st')" by (cases p)
      from save_ok[OF Some[unfolded p] _ ev] findOne_mem[OF \<open>findOne st i lawyer = Some d\<close>]
      have "(ids_ok st \<longrightarrow> ids_ok st') \<and> advances evolves_soft st st'" by simp
      with Some p \<open>findOne st i lawyer = Some d\<close> \<open>files st (filePath d) = Some b\<close> show ?thesis
        by (simp add: downloadDocument_def)
    qed
  qed
qed

lemma update_ok:
  "(ids_ok st \<longrightarrow> ids_ok (snd (updateDocument e st lawyer i req)))
   \<and> advances evolves_soft st (snd (updateDocument e st lawyer i req))"
proof (cases "p_valid req \<and> findOne st i lawyer \<noteq> None")
  case False
  then show ?thesis using unchanged_ok[of st st evolves_soft]
    by (auto simp: updateDocument_def evolves_soft_refl)
next
  case True
  then obtain d where f: "findOne st i lawyer = Some d" by auto
  show ?thesis
  proof (cases "save e st d (apply_patch e lawyer req d)")
    case None
    with True f show ?thesis using unchanged_ok[of st st evolves_soft]
      by (simp add: updateDocument_def evolves_soft_refl)
  next
    case (Some p)
    obtain d' st' where p: "p = (d', st')" by (cases p)
    from save_ok[OF Some[unfolded p] _ apply_patch_evolves] findOne_mem[OF f]
    have "(ids_ok st \<longrightarrow> ids_ok st') \<and> advances evolves_soft st st'" by simp
    with Some p f True show ?thesis by (simp add: updateDocument_def)
  qed
qed

lemma delete_ok:
  "(ids_ok st \<longrightarrow> ids_ok (snd (deleteDocument e st lawyer i)))
   \<and> advances evolves_soft st (snd (deleteDocument e st lawyer i))"
proof (cases "findOne st i lawyer")
  case None
  then show ?thesis using unchanged_ok[of st st evolves_soft]
    by (simp add: deleteDocument_def evolves_soft_refl)
next
  case (Some d)
  have ev: "evolves_soft d (d\<lparr>isDeleted := True\<rparr>)" by (simp add: evolves_soft_def evolves_def)
  show ?thesis
  proof (cases "save e st d (d\<lparr>isDeleted := True\<rparr>)")
    case None
    with Some show ?thesis using unchanged_ok[of st st evolves_soft]
      by (simp add: deleteDocument_def evolves_soft_refl)
  next
    case (Some p)
    obtain d' st' where p: "p = (d', st')" by (cases p)
    from save_ok[OF Some[unfolded p] _ ev] findOne_mem[OF \<open>findOne st i lawyer = Some d\<close>]
    have "(ids_ok st \<longrightarrow> ids_ok st') \<and> advances evolves_soft st st'" by simp
    with Some p \<open>findOne st i lawyer = Some d\<close> show ?thesis by (simp add: deleteDocument_def)
  qed
qed

lemma step_ok:
  "(ids_ok st \<longrightarrow> ids_ok (step st c)) \<and> advances evolves_soft st (step st c)"
proof -
  obtain e lawyer r where c: "c = (e, lawyer, r)" by (cases c)
  show ?thesis unfolding c
    using upload_ok download_ok update_ok delete_ok unchanged_ok[of st st evolves_soft]
    by (cases r) (simp_all add: evolves_soft_refl)
qed

lemma evolves_soft_id: "evolves_soft a b \<Longrightarrow> doc_id b = doc_id a"
  by (simp add: evolves_soft_def evolves_def)

lemma run_ok:
  "(ids_ok st \<longrightarrow> ids_ok (run st rs)) \<and> advances evolves_soft st (run st rs)"
proof (induction rs arbitrary: st)
  case Nil
  show ?case by (simp add: run_def advances_refl evolves_soft_refl)
next
  case (Cons c rs)
  have r: "run st (c # rs) = run (step st c) rs" by (simp add: run_def)
  have "advances evolves_soft st (run (step st c) rs)"
  proof (rule advances_trans)
    show "\<And>a b c. evolves_soft a b \<Longrightarrow> evolves_soft b c \<Longrightarrow> evolves_soft a c"
      by (rule evolves_soft_trans)
    show "\<And>a b. evolves_soft a b \<Longrightarrow> doc_id b = doc_id a"
      by (rule evolves_soft_id)
    show "advances evolves_soft st (step st c)" using step_ok[of st c] by blast
    show "advances evolves_soft (step st c) (run (step st c) rs)"
      using Cons.IH[of "step st c"] by blast
  qed
  with step_ok[of st c] Cons.IH[of "step st c"] show ?case unfolding r by blast
qed

lemma save_p2_cases:
  assumes "save_p2 e st old new = Some (d', st')"
  shows "(d' = old \<and> st' = st) \<or>
         (d' = new\<lparr>updatedAt := now e\<rparr> \<and> st' = st\<lparr>documents := replace_doc d' (documents st)\<rparr>)"
  using assms by (auto simp: save_p2_def Let_def split: if_splits)

lemma save_p2_ok:
  assumes s: "save_p2 e st old new = Some (d', st')"
    and m: "old \<in> set (documents st)" and r: "evolves old new"
  shows "(ids_ok st \<longrightarrow> ids_ok st') \<and> advances evolves st st'
         \<and> files st' = files st \<and> evolves old d'"
proof -
  from save_p2_cases[OF s] show ?thesis
  proof
    assume "d' = old \<and> st' = st"
    then show ?thesis
      using unchanged_ok[of st' st evolves] by (simp add: evolves_refl)
  next
    assume a: "d' = new\<lparr>updatedAt := now e\<rparr>
          \<and> st' = st\<lparr>documents := replace_doc d' (documents st)\<rparr>"
    then have ev: "evolves old d'" using r by (simp add: evolves_def)
    then have id: "doc_id d' = doc_id old" by (simp add: evolves_def)
    from a have "documents st' = replace_doc d' (documents st)" "nextId st' = nextId st"
      "files st' = files st" by simp_all
    with replaced_ok[of st' d' st old evolves] m ev id show ?thesis
      by (simp add: evolves_refl)
  qed
qed

lemma findOne_p2_mem:
  "findOne_p2 st i lawyer = Some d \<Longrightarrow> d \<in> set (documents st) \<and> doc_id d = i \<and> lawyerId d = lawyer"
  by (auto simp: findOne_p2_def dest: find_SomeD)

lemma apply_patch_p2_evolves: "evolves d (apply_patch_p2 e lawyer req d)"
  by (simp add: apply_patch_p2_def Let_def evolves_def split: option.splits)

lemma upload_p2_ok:
  "(ids_ok st \<longrightarrow> ids_ok (snd (uploadDocument_p2 e st lawyer req)))
   \<and> advances evolves st (snd (uploadDocument_p2 e st lawyer req))"
proof (cases "uploadDocument_p2 e st lawyer req")
  case (Pair r st')
  show ?thesis
  proof (cases r)
    case (Success c m d)
    with Pair upload_p2_success[of e st lawyer req c m d st'] obtain f where
      "doc_id d = nextId st" "st' = st\<lparr>documents := documents st @ [d], nextId := Suc (nextId st)\<rparr>"
      by auto
    then have "documents st' = documents st @ [d]" "nextId st' = Suc (nextId st)" "doc_id d = nextId st"
      by simp_all
    from appended_ok[OF this, of evolves] Pair show ?thesis by (simp add: evolves_refl)
  next
    case (Failure c m)
    with Pair have "st' = st"
      by (auto simp: uploadDocument_p2_def split: if_splits option.splits)
    with Pair unchanged_ok[of st st evolves] show ?thesis by (simp add: evolves_refl)
  next
    case NoReply
    with Pair have "st' = st"
      by (auto simp: uploadDocument_p2_def split: if_splits option.splits)
    with Pair unchanged_ok[of st st evolves] show ?thesis by (simp add: evolves_refl)
  qed
qed

lemma getById_p2_ok:
  "(ids_ok st \<longrightarrow> ids_ok (snd (getDocumentById_p2 e st lawyer i)))
   \<and> advances evolves st (snd (getDocumentById_p2 e st lawyer i))"
proof (cases "findOne_p2 st i lawyer")
  case None
  then show ?thesis using unchanged_ok[of st st evolves]
    by (simp add: getDocumentById_p2_def evolves_refl)
next
  case (Some d)
  have ev: "evolves d (d\<lparr>lastAccessed := Some (now e)\<rparr>)" by (simp add: evolves_def)
  show ?thesis
  proof (cases "save_p2 e st d (d\<lparr>lastAccessed := Some (now e)\<rparr>)")
    case None
    with Some show ?thesis using unchanged_ok[of st st evolves]
      by (simp add: getDocumentById_p2_def evolves_refl)
  next
    case (Some p)
    obtain d' st' where p: "p = (d', st')" by (cases p)
    from save_p2_ok[OF Some[unfolded p] _ ev] findOne_p2_mem[OF \<open>findOne_p2 st i lawyer = Some d\<close>]
    have "(ids_ok st \<longrightarrow> ids_ok st') \<and> advances evolves st st'" by simp
    with Some p \<open>findOne_p2 st i lawyer = Some d\<close> show ?thesis by (simp add: getDocumentById_p2_def)
  qed
qed

lemma download_p2_ok:
  "(ids_ok st \<longrightarrow> ids_ok (snd (downloadDocument_p2 e st lawyer i)))
   \<and> advances evolves st (snd (downloadDocument_p2 e st lawyer i))"
proof (cases "findOne_p2 st i lawyer")
  case None
  then show ?thesis using unchanged_ok[of st st evolves]
    by (simp add: downloadDocument_p2_def evolves_refl)
next
  case (Some d)
  let ?n = "d\<lparr>downloadCount := downloadCount d + 1, lastAccessed := Some (now e)\<rparr>"
  have ev: "evolves d ?n" by (simp add: evolves_def)
  show ?thesis
  proof (cases "files st (filePath d)")
    case None
    with Some show ?thesis using unchanged_ok[of st st evolves]
      by (simp add: downloadDocument_p2_def evolves_refl)
  next
    case (Some b)
    show ?thesis
    proof (cases "save_p2 e st d ?n")
      case None
      with Some \<open>findOne_p2 st i lawyer = Some d\<close> show ?thesis using unchanged_ok[of st st evolves]
        by (simp add: downloadDocument_p2_def evolves_refl)
    next
      case (Some p)
      obtain d' st' where p: "p = (d', st')" by (cases p)
      from save_p2_ok[OF Some[unfolded p] _ ev] findOne_p2_mem[OF \<open>findOne_p2 st i lawyer = Some d\<close>]
      have "(ids_ok st \<longrightarrow> ids_ok st') \<and> advances evolves st st'" by simp
      with Some p \<open>findOne_p2 st i lawyer = Some d\<close> \<open>files st (filePath d) = Some b\<close> show ?thesis
        by (simp add: downloadDocument_p2_def)
    qed
  qed
qed

lemma update_p2_ok:
  "(ids_ok st \<longrightarrow> ids_ok (snd (updateDocument_p2 e st lawyer i req)))
   \<and> advances evolves st (snd (updateDocument_p2 e st lawyer i req))"
proof (cases "findOne_p2 st i lawyer")
  case None
  then show ?thesis using unchanged_ok[of st st evolves]
    by (auto simp: updateDocument_p2_def evolves_refl)
next
  case (Some d)
  show ?thesis
  proof (cases "save_p2 e st d (apply_patch_p2 e lawyer req d)")
    case None
    with Some show ?thesis using unchanged_ok[of st st evolves]
      by (simp add: updateDocument_p2_def evolves_refl)
  next
    case (Some p)
    obtain d' st' where p: "p = (d', st')" by (cases p)
    from save_p2_ok[OF Some[unfolded p] _ apply_patch_p2_evolves] findOne_p2_mem[OF \<open>findOne_p2 st i lawyer = Some d\<close>]
    have "(ids_ok st \<longrightarrow> ids_ok st') \<and> advances evolves st st'" by simp
    with Some p \<open>findOne_p2 st i lawyer = Some d\<close> show ?thesis by (simp add: updateDocument_p2_def)
  qed
qed

lemma delete_p2_ok:
  "(ids_ok st \<longrightarrow> ids_ok (snd (deleteDocument_p2 e st lawyer i)))
   \<and> advances evolves st (snd (deleteDocument_p2 e st lawyer i))"
proof (cases "findOne_p2 st i lawyer")
  case None
  then show ?thesis using unchanged_ok[of st st evolves]
    by (simp add: deleteDocument_p2_def evolves_refl)
next
  case (Some d)
  show ?thesis
  proof (cases "dbFails e")
    case True
    have "documents (unlink e st (filePath d)) = documents st" "nextId (unlink e st (filePath d)) = nextId st"
      by (simp_all add: unlink_def)
    from unchanged_ok[OF this, of evolves] Some True show ?thesis
      by (simp add: deleteDocument_p2_def Let_def evolves_refl)
  next
    case False
    let ?s = "(unlink e st (filePath d))\<lparr>documents := remove_doc i (documents (unlink e st (filePath d)))\<rparr>"
    have "documents ?s = remove_doc i (documents st)" "nextId ?s = nextId st"
      by (simp_all add: unlink_def)
    from removed_ok[OF this, of evolves] Some False show ?thesis
      by (simp add: deleteDocument_p2_def Let_def evolves_refl)
  qed
qed

lemma step_p2_ok:
  "(ids_ok st \<longrightarrow> ids_ok (step_p2 st c)) \<and> advances evolves st (step_p2 st c)"
proof -
  obtain e lawyer r where c: "c = (e, lawyer, r)" by (cases c)
  show ?thesis unfolding c
    using upload_p2_ok download_p2_ok update_p2_ok delete_p2_ok getById_p2_ok
      unchanged_ok[of st st evolves]
    by (cases r) (simp_all add: evolves_refl)
qed

lemma evolves_id: "evolves a b \<Longrightarrow> doc_id b = doc_id a"
  by (simp add: evolves_def)

lemma run_p2_ok:
  "(ids_ok st \<longrightarrow> ids_ok (run_p2 st rs)) \<and> advances evolves st (run_p2 st rs)"
proof (induction rs arbitrary: st)
  case Nil
  show ?case by (simp add: run_p2_def advances_refl evolves_refl)
next
  case (Cons c rs)
  have r: "run_p2 st (c # rs) = run_p2 (step_p2 st c) rs" by (simp add: run_p2_def)
  have "advances evolves st (run_p2 (step_p2 st c) rs)"
  proof (rule advances_trans)
    show "\<And>a b c. evolves a b \<Longrightarrow> evolves b c \<Longrightarrow> evolves a (c :: document_p2)"
      by (rule evolves_trans)
    show "\<And>a b. evolves a b \<Longrightarrow> doc_id b = doc_id (a :: document_p2)"
      by (rule evolves_id)
    show "advances evolves st (step_p2 st c)" using step_p2_ok[of st c] by blast
    show "advances evolves (step_p2 st c) (run_p2 (step_p2 st c) rs)"
      using Cons.IH[of "step_p2 st c"] by blast
  qed
  with step_p2_ok[of st c] Cons.IH[of "step_p2 st c"] show ?case unfolding r by blast
qed

text \<open>What a later state can hold under an id that was handed out before.\<close>

lemma later_version:
  assumes ok: "ids_ok st" and adv: "advances R st st'"
    and id: "\<And>a b. R a b \<Longrightarrow> doc_id b = doc_id a"
    and d: "d \<in> set (documents st)" and x: "x \<in> set (documents st')" "doc_id x = doc_id d"
  shows "R d x"
proof -
  from ok d have lt: "doc_id d < nextId st" by (simp add: ids_ok_def list_all_iff)
  from adv x(1) consider y where "y \<in> set (documents st)" "R y x" | "nextId st \<le> doc_id x"
    by (auto simp: advances_def)
  then show ?thesis
  proof cases
    case 1
    from id[OF 1(2)] x(2) have "doc_id y = doc_id d" by simp
    moreover from ok have "distinct (map doc_id (documents st))" by (simp add: ids_ok_def)
    ultimately have "y = d" using 1(1) d by (simp add: distinct_map inj_on_def)
    with 1 show ?thesis by simp
  next
    case 2
    with lt x(2) show ?thesis by simp
  qed
qed

lemma stays_absent:
  assumes adv: "advances R st st'"
    and id: "\<And>a b. R a b \<Longrightarrow> doc_id b = doc_id a"
    and lt: "i < nextId st" and no: "\<forall>d \<in> set (documents st). doc_id d \<noteq> i"
    and x: "x \<in> set (documents st')"
  shows "doc_id x \<noteq> i"
proof -
  from adv x consider y where "y \<in> set (documents st)" "R y x" | "nextId st \<le> doc_id x"
    by (auto simp: advances_def)
  then show ?thesis
  proof cases
    case 1
    with id[OF 1(2)] no show ?thesis by auto
  next
    case 2
    with lt show ?thesis by simp
  qed
qed

subsection \<open>Whose documents a list shows\<close>

lemma getDocuments_members:
  assumes p: "permuting srt" and g: "getDocuments srt rx st lawyer q = Success c m r"
    and d: "d \<in> set (l_documents r)"
  shows "d \<in> set (documents st) \<and> lawyerId d = lawyer \<and> \<not> isDeleted d"
proof -
  from getDocuments_success[OF g] obtain mt ordered where
    s: "srt (sort_field (q_sortBy q)) (sort_dir (q_sortOrder q))
          (filter (query_match lawyer (case q_clientId q of QId c' \<Rightarrow> Some c' | _ \<Rightarrow> None) q mt)
             (documents st)) = Some ordered"
    and l: "l_documents r = page_slice ((q_page q - 1) * q_limit q) (q_limit q) ordered"
    by blast
  have "d \<in> set ordered"
    using d l page_slice_subset[of _ _ ordered] by auto
  with permuting_set[OF p s] show ?thesis by (auto simp: query_match_def)
qed

lemma getLawyerDocuments_members:
  assumes p: "permuting srt" and g: "getLawyerDocuments srt rx st lawyer q = Success c m r"
    and d: "d \<in> set (l_documents r)"
  shows "d \<in> set (documents st) \<and> lawyerId d = lawyer"
proof -
  from getLawyerDocuments_success[OF g] obtain mt ordered where
    s: "srt (sort_field (q2_sortBy q)) (sort_dir (q2_sortOrder q))
          (filter (query_match_p2 lawyer q mt) (documents st)) = Some ordered"
    and l: "l_documents r = page_slice ((q2_page q - 1) * q2_limit q) (q2_limit q) ordered"
    by blast
  have "d \<in> set ordered"
    using d l page_slice_subset[of _ _ ordered] by auto
  with permuting_set[OF p s] show ?thesis by (auto simp: query_match_p2_def)
qed

lemma created_stays_owned:
  assumes ok: "ids_ok st" and up: "uploadDocument e st a req = (Success c m d, st')"
    and x: "x \<in> set (documents (run st' rs))" "doc_id x = doc_id d"
  shows "lawyerId x = a"
proof -
  from upload_ok[of st e a req] ok up have ok': "ids_ok st'" by simp
  from upload_success[OF up] have d: "d \<in> set (documents st')" "lawyerId d = a"
    by (auto simp: writeFile_def)
  from run_ok[of st' rs] have adv: "advances evolves_soft st' (run st' rs)" by blast
  from later_version[OF ok' adv evolves_soft_id d(1) x] d(2)
  show ?thesis by (simp add: evolves_soft_def evolves_def)
qed

lemma created_stays_owned_p2:
  assumes ok: "ids_ok st" and up: "uploadDocument_p2 e st a req = (Success c m d, st')"
    and x: "x \<in> set (documents (run_p2 st' rs))" "doc_id x = doc_id d"
  shows "lawyerId x = a"
proof -
  from upload_p2_ok[of st e a req] ok up have ok': "ids_ok st'" by simp
  from upload_p2_success[OF up] have d: "d \<in> set (documents st')" "lawyerId d = a"
    by auto
  from run_p2_ok[of st' rs] have adv: "advances evolves st' (run_p2 st' rs)" by blast
  from later_version[OF ok' adv evolves_id d(1) x] d(2)
  show ?thesis by (simp add: evolves_def)
qed

lemma list_store0:
  "\<exists>r. getDocuments by_createdAt plain_only store0 7 (page_query 1) = Success 200 [] r
       \<and> l_documents r = [doc0]"
  by (simp add: getDocuments_def Let_def page_query_def truthy_def store0_def doc0_def query_match_def
      opt_eq_def by_createdAt_def sort_field_def page_slice_def)

lemma list_store0_p2:
  "\<exists>r. getLawyerDocuments by_createdAt plain_only store0_p2 7 (page_query_p2 1) = Success 200 [] r
       \<and> l_documents r = [doc0_p2]"
  by (simp add: getLawyerDocuments_def Let_def page_query_p2_def truthy_def store0_p2_def doc0_p2_def query_match_p2_def
      opt_eq_all_def by_createdAt_def sort_field_def page_slice_def)

lemma upload8:
  "uploadDocument env0 store0 8 upload0
     = (Success 201 ''Document uploaded successfully'' doc1_by8,
        \<lparr> documents = [doc0, doc1_by8], relationships = [rel0, rel8],
          files = [''/uploads/document-1-1.pdf'' \<mapsto> ''hello'',
                   ''/uploads/document-2-2.pdf'' \<mapsto> ''abc''],
          nextId = 2 \<rparr>)"
  by (simp add: uploadDocument_def upload0_def store0_def env0_def rel0_def rel8_def findRelationship_def
      file1_def fileFilter_def allowedTypes_def fileSizeLimit_def Document_create_def Let_def
      writeFile_def or_default_def parse_tags_def schema_defs trim_eval doc1_def doc1_by8_def)

lemma upload8_p2:
  "uploadDocument_p2 env0 arrived_p2 8 upload0_p2
     = (Success 201 ''Document uploaded successfully'' doc1_by8_p2,
        arrived_p2\<lparr> documents := [doc0_p2, doc1_by8_p2], nextId := 2 \<rparr>)"
  by (simp add: uploadDocument_p2_def upload0_p2_def arrived_p2_def writeFile_def store0_p2_def env0_def rel0_def rel8_def
      findRelationship_p2_def file1_def Document_create_p2_def Let_def doc1_p2_def doc1_by8_p2_def)

lemma after_upload_docs:
  "documents after_upload = [doc0\<lparr>downloadCount := 1, lastDownloadedAt := Some 1000,
       lastDownloadedBy := Some 7, updatedAt := 1000\<rparr>, doc1_by8]"
  unfolding after_upload_def run_def upload8
  by (simp add: downloadDocument_def findOne_def doc0_def doc1_def doc1_by8_def
      save_def save_valid_def v_title_def v_file_def pre_save_def Let_def env0_def)

lemma after_upload_p2_docs:
  "documents after_upload_p2
     = [doc0_p2\<lparr>downloadCount := 1, lastAccessed := Some 1000, updatedAt := 1000\<rparr>, doc1_by8_p2]"
  unfolding after_upload_p2_def run_p2_def upload8_p2
  by (simp add: downloadDocument_p2_def findOne_p2_def doc0_p2_def doc1_p2_def doc1_by8_p2_def
      save_p2_def Let_def env0_def arrived_p2_def writeFile_def store0_p2_def)

lemma list_after_upload:
  "\<exists>r. getDocuments by_createdAt plain_only after_upload 7 (page_query 1) = Success 200 [] r
       \<and> l_documents r = [doc0\<lparr>downloadCount := 1, lastDownloadedAt := Some 1000,
       lastDownloadedBy := Some 7, updatedAt := 1000\<rparr>]"
  by (simp add: getDocuments_def Let_def page_query_def truthy_def after_upload_docs doc0_def doc1_def doc1_by8_def query_match_def
      opt_eq_def by_createdAt_def sort_field_def page_slice_def)

lemma list_after_upload_p2:
  "\<exists>r. getLawyerDocuments by_createdAt plain_only after_upload_p2 7 (page_query_p2 1) = Success 200 [] r
       \<and> l_documents r = [doc0_p2\<lparr>downloadCount := 1, lastAccessed := Some 1000, updatedAt := 1000\<rparr>]"
  by (simp add: getLawyerDocuments_def Let_def page_query_p2_def truthy_def after_upload_p2_docs doc0_p2_def doc1_p2_def doc1_by8_p2_def query_match_p2_def
      opt_eq_all_def by_createdAt_def sort_field_def page_slice_def)

text \<open>
  C4. When the engine's sort returns the documents it was given, every document in the
  result of a list call by a lawyer is a stored document of that lawyer, whatever the
  filters (both controllers). And a document that lawyer \<open>a\<close> created never shows up under
  its id in a list of another lawyer \<open>b\<close>, after whatever requests came in between.
\<close>

theorem list_scoped_to_lawyer:
  "(permuting srt \<and> getDocuments srt rx st lawyer q = Success c m r
      \<longrightarrow> (\<forall>d \<in> set (l_documents r). d \<in> set (documents st) \<and> lawyerId d = lawyer))
   \<and> (permuting srt2 \<and> getLawyerDocuments srt2 rx2 s2 lawyer2 q2 = Success c2 m2 r2
      \<longrightarrow> (\<forall>d \<in> set (l_documents r2). d \<in> set (documents s2) \<and> lawyerId d = lawyer2))
   \<and> (ids_ok st0 \<and> uploadDocument e st0 a req = (Success ca ma da, st1) \<and> a \<noteq> b
        \<and> permuting srt \<and> getDocuments srt rx (run st1 rs) b qb = Success cb mb rb
      \<longrightarrow> (\<forall>x \<in> set (l_documents rb). doc_id x \<noteq> doc_id da))
   \<and> (ids_ok t0 \<and> uploadDocument_p2 e2 t0 a2 req2 = (Success ca2 ma2 da2, t1) \<and> a2 \<noteq> b2
        \<and> permuting srt2 \<and> getLawyerDocuments srt2 rx2 (run_p2 t1 rs2) b2 qb2 = Success cb2 mb2 rb2
      \<longrightarrow> (\<forall>x \<in> set (l_documents rb2). doc_id x \<noteq> doc_id da2))"
proof -
  have 1: "permuting srt \<and> getDocuments srt rx st lawyer q = Success c m r
      \<longrightarrow> (\<forall>d \<in> set (l_documents r). d \<in> set (documents st) \<and> lawyerId d = lawyer)"
    using getDocuments_members[of srt rx st lawyer q c m r] by blast
  have 2: "permuting srt2 \<and> getLawyerDocuments srt2 rx2 s2 lawyer2 q2 = Success c2 m2 r2
      \<longrightarrow> (\<forall>d \<in> set (l_documents r2). d \<in> set (documents s2) \<and> lawyerId d = lawyer2)"
    using getLawyerDocuments_members[of srt2 rx2 s2 lawyer2 q2 c2 m2 r2] by blast
  have 3: "ids_ok st0 \<and> uploadDocument e st0 a req = (Success ca ma da, st1) \<and> a \<noteq> b
        \<and> permuting srt \<and> getDocuments srt rx (run st1 rs) b qb = Success cb mb rb
      \<longrightarrow> (\<forall>x \<in> set (l_documents rb). doc_id x \<noteq> doc_id da)"
  proof (intro impI ballI)
    fix x assume h: "ids_ok st0 \<and> uploadDocument e st0 a req = (Success ca ma da, st1) \<and> a \<noteq> b
        \<and> permuting srt \<and> getDocuments srt rx (run st1 rs) b qb = Success cb mb rb"
      and x: "x \<in> set (l_documents rb)"
    from h x getDocuments_members[of srt rx "run st1 rs" b qb cb mb rb x]
    have m: "x \<in> set (documents (run st1 rs))" "lawyerId x = b" by blast+
    show "doc_id x \<noteq> doc_id da"
    proof
      assume "doc_id x = doc_id da"
      with created_stays_owned[of st0 e a req ca ma da st1 x rs] h m show False by blast
    qed
  qed
  have 4: "ids_ok t0 \<and> uploadDocument_p2 e2 t0 a2 req2 = (Success ca2 ma2 da2, t1) \<and> a2 \<noteq> b2
        \<and> permuting srt2 \<and> getLawyerDocuments srt2 rx2 (run_p2 t1 rs2) b2 qb2 = Success cb2 mb2 rb2
      \<longrightarrow> (\<forall>x \<in> set (l_documents rb2). doc_id x \<noteq> doc_id da2)"
  proof (intro impI ballI)
    fix x assume h: "ids_ok t0 \<and> uploadDocument_p2 e2 t0 a2 req2 = (Success ca2 ma2 da2, t1) \<and> a2 \<noteq> b2
        \<and> permuting srt2 \<and> getLawyerDocuments srt2 rx2 (run_p2 t1 rs2) b2 qb2 = Success cb2 mb2 rb2"
      and x: "x \<in> set (l_documents rb2)"
    from h x getLawyerDocuments_members[of srt2 rx2 "run_p2 t1 rs2" b2 qb2 cb2 mb2 rb2 x]
    have m: "x \<in> set (documents (run_p2 t1 rs2))" "lawyerId x = b2" by blast+
    show "doc_id x \<noteq> doc_id da2"
    proof
      assume "doc_id x = doc_id da2"
      with created_stays_owned_p2[of t0 e2 a2 req2 ca2 ma2 da2 t1 x rs2] h m show False by blast
    qed
  qed
  from 1 2 3 4 show ?thesis by blast
qed

theorem list_scoped_to_lawyer_witness:
  "permuting (by_createdAt :: document sorter) \<and> permuting (by_createdAt :: document_p2 sorter)
   \<and> ids_ok store0 \<and> ids_ok arrived_p2
   \<and> (\<exists>r. getDocuments by_createdAt plain_only store0 7 (page_query 1) = Success 200 [] r
        \<and> l_documents r = [doc0] \<and> (\<forall>d \<in> set (l_documents r). lawyerId d = 7))
   \<and> (\<exists>r. getLawyerDocuments by_createdAt plain_only store0_p2 7 (page_query_p2 1) = Success 200 [] r
        \<and> l_documents r = [doc0_p2] \<and> (\<forall>d \<in> set (l_documents r). lawyerId d = 7))
   \<and> fst (uploadDocument env0 store0 8 upload0) = Success 201 ''Document uploaded successfully'' doc1_by8
   \<and> (\<exists>r. getDocuments by_createdAt plain_only after_upload 7 (page_query 1) = Success 200 [] r
        \<and> l_documents r \<noteq> [] \<and> (\<forall>x \<in> set (l_documents r). doc_id x \<noteq> doc_id doc1_by8))
   \<and> fst (uploadDocument_p2 env0 arrived_p2 8 upload0_p2)
        = Success 201 ''Document uploaded successfully'' doc1_by8_p2
   \<and> (\<exists>r. getLawyerDocuments by_createdAt plain_only after_upload_p2 7 (page_query_p2 1) = Success 200 [] r
        \<and> l_documents r \<noteq> [] \<and> (\<forall>x \<in> set (l_documents r). doc_id x \<noteq> doc_id doc1_by8_p2))"
proof -
  from list_store0 obtain r where r: "getDocuments by_createdAt plain_only store0 7 (page_query 1) = Success 200 [] r"
    "l_documents r = [doc0]" by blast
  from list_store0_p2 obtain r2 where r2: "getLawyerDocuments by_createdAt plain_only store0_p2 7 (page_query_p2 1) = Success 200 [] r2"
    "l_documents r2 = [doc0_p2]" by blast
  from list_after_upload obtain rb where rb:
    "getDocuments by_createdAt plain_only after_upload 7 (page_query 1) = Success 200 [] rb"
    "l_documents rb \<noteq> []" by auto
  from list_after_upload_p2 obtain rb2 where rb2:
    "getLawyerDocuments by_createdAt plain_only after_upload_p2 7 (page_query_p2 1) = Success 200 [] rb2"
    "l_documents rb2 \<noteq> []" by auto
  have u: "uploadDocument env0 store0 8 upload0
      = (Success 201 ''Document uploaded successfully'' doc1_by8, snd (uploadDocument env0 store0 8 upload0))"
    by (simp add: upload8)
  have u2: "uploadDocument_p2 env0 arrived_p2 8 upload0_p2
      = (Success 201 ''Document uploaded successfully'' doc1_by8_p2, snd (uploadDocument_p2 env0 arrived_p2 8 upload0_p2))"
    by (simp add: upload8_p2)
  have ne: "(8::nat) \<noteq> 7" by simp
  note t = list_scoped_to_lawyer [of by_createdAt plain_only store0 7 "page_query 1" 200 "[]" r
      by_createdAt plain_only store0_p2 7 "page_query_p2 1" 200 "[]" r2
      store0 env0 8 upload0 201 "''Document uploaded successfully''" doc1_by8
      "snd (uploadDocument env0 store0 8 upload0)" 7 "[(env0, 7, Download 0)]" "page_query 1" 200 "[]" rb
      arrived_p2 env0 8 upload0_p2 201 "''Document uploaded successfully''" doc1_by8_p2
      "snd (uploadDocument_p2 env0 arrived_p2 8 upload0_p2)" 7 "[(env0, 7, Download_p2 0)]" "page_query_p2 1" 200 "[]" rb2]
  have a: "\<forall>d \<in> set (l_documents r). lawyerId d = 7"
    using t r permuting_ex by blast
  have b: "\<forall>d \<in> set (l_documents r2). lawyerId d = 7"
    using t r2 permuting_ex by blast
  have c: "\<forall>x \<in> set (l_documents rb). doc_id x \<noteq> doc_id doc1_by8"
    using t u ne rb ids_ok_store0 permuting_ex unfolding after_upload_def by blast
  have d: "\<forall>x \<in> set (l_documents rb2). doc_id x \<noteq> doc_id doc1_by8_p2"
    using t u2 ne rb2 ids_ok_arrived_p2 permuting_ex unfolding after_upload_p2_def by blast
  from a b c d r r2 rb rb2 u u2 permuting_ex ids_ok_store0 ids_ok_arrived_p2 show ?thesis
    by (auto simp: upload8 upload8_p2)
qed

subsection \<open>Deleted documents\<close>

lemma find_filter: "(\<And>x. P x \<Longrightarrow> Q x) \<Longrightarrow> find P (filter Q xs) = find P xs"
  by (induction xs) auto

lemma filter_filter_imp: "(\<And>x. P x \<Longrightarrow> Q x) \<Longrightarrow> filter P (filter Q xs) = filter P xs"
  by (induction xs) auto

lemma documents_live: "documents (live st) = filter (\<lambda>d. \<not> isDeleted d) (documents st)"
  by (simp add: live_def)

lemma findOne_live: "findOne (live st) i lawyer = findOne st i lawyer"
  unfolding findOne_def documents_live by (rule find_filter) simp

lemma getDocumentById_live: "getDocumentById (live st) lawyer i = getDocumentById st lawyer i"
  by (simp add: getDocumentById_def findOne_live)

lemma stats_live:
  "Document_getDocumentStats (documents (live st)) lawyer c
     = Document_getDocumentStats (documents st) lawyer c"
proof -
  have "filter (stats_match lawyer c) (filter (\<lambda>d. \<not> isDeleted d) (documents st))
          = filter (stats_match lawyer c) (documents st)"
    by (rule filter_filter_imp) (simp add: stats_match_def)
  then have "filter (stats_match lawyer c) (documents (live st))
          = filter (stats_match lawyer c) (documents st)"
    by (simp only: documents_live)
  then show ?thesis by (simp only: Document_getDocumentStats_def)
qed

lemma getDocumentStats_live: "getDocumentStats (live st) lawyer c = getDocumentStats st lawyer c"
  by (simp add: getDocumentStats_def stats_live)

lemma query_live:
  "filter (query_match lawyer c q m) (documents (live st))
     = filter (query_match lawyer c q m) (documents st)"
proof -
  have "filter (query_match lawyer c q m) (filter (\<lambda>d. \<not> isDeleted d) (documents st))
          = filter (query_match lawyer c q m) (documents st)"
    by (rule filter_filter_imp) (simp add: query_match_def)
  then show ?thesis by (simp only: documents_live)
qed

lemma getDocuments_live: "getDocuments srt rx (live st) lawyer q = getDocuments srt rx st lawyer q"
  by (simp only: getDocuments_def query_live stats_live)

lemma save_reply_live:
  "map_option fst (save e (live st) old new) = map_option fst (save e st old new)"
  by (simp add: save_def Let_def)

lemma download_live:
  "fst (downloadDocument e (live st) lawyer i) = fst (downloadDocument e st lawyer i)"
proof -
  have f: "files (live st) = files st" by (simp add: live_def)
  show ?thesis
  proof (cases "findOne st i lawyer")
    case None
    then show ?thesis by (simp add: downloadDocument_def findOne_live)
  next
    case (Some d)
    show ?thesis
    proof (cases "files st (filePath d)")
      case None
      with Some show ?thesis by (simp add: downloadDocument_def findOne_live f)
    next
      case (Some b)
      let ?n = "d\<lparr>downloadCount := downloadCount d + 1, lastDownloadedAt := Some (now e),
                lastDownloadedBy := Some lawyer\<rparr>"
      from save_reply_live[of e st d ?n]
      show ?thesis using Some \<open>findOne st i lawyer = Some d\<close>
        by (cases "save e st d ?n"; cases "save e (live st) d ?n")
           (auto simp: downloadDocument_def findOne_live f)
    qed
  qed
qed

lemma getDocumentById_not_deleted:
  "getDocumentById st lawyer i = Success c m d \<Longrightarrow> \<not> isDeleted d \<and> d \<in> set (documents st)"
  by (auto simp: getDocumentById_def split: option.splits dest: findOne_mem)

lemma soft_delete_result:
  assumes ok: "ids_ok st"
    and del: "deleteDocument e st lawyer i = (Success c m u, st')"
  shows "ids_ok st' \<and> i < nextId st'
         \<and> (\<forall>x \<in> set (documents st'). doc_id x = i \<longrightarrow> isDeleted x)"
proof -
  from del obtain d d' where f: "findOne st i lawyer = Some d"
    and s: "save e st d (d\<lparr>isDeleted := True\<rparr>) = Some (d', st')"
    by (auto simp: deleteDocument_def split: option.splits)
  from findOne_mem[OF f] have di: "doc_id d = i" and nd: "\<not> isDeleted d"
    and din: "d \<in> set (documents st)" by simp_all
  have ps: "pre_save e d (d\<lparr>isDeleted := True\<rparr>) = d\<lparr>isDeleted := True\<rparr>"
    by (simp add: pre_save_def)
  have ne: "d\<lparr>isDeleted := True\<rparr> \<noteq> d"
  proof
    assume "d\<lparr>isDeleted := True\<rparr> = d"
    then have "isDeleted (d\<lparr>isDeleted := True\<rparr>) = isDeleted d" by simp
    with nd show False by simp
  qed
  from s ne have d': "d' = d\<lparr>isDeleted := True, updatedAt := now e\<rparr>"
    and st': "st' = st\<lparr>documents := replace_doc d' (documents st)\<rparr>"
    by (auto simp: save_def ps Let_def split: if_splits)
  from delete_ok[of st e lawyer i] ok del have ok': "ids_ok st'" by simp
  from ok din di have lt: "i < nextId st'" using st' by (auto simp: ids_ok_def list_all_iff)
  from ok have dist: "distinct (map doc_id (documents st))" by (simp add: ids_ok_def)
  have "isDeleted x" if "x \<in> set (documents st')" "doc_id x = i" for x
  proof -
    from that st' d' di have "x = d'"
      using replace_doc_same_id[OF dist, of x d'] by simp
    with d' show ?thesis by simp
  qed
  with ok' lt show ?thesis by blast
qed

lemma deleted_stays:
  assumes ok: "ids_ok st" and lt: "i < nextId st"
    and del: "\<forall>x \<in> set (documents st). doc_id x = i \<longrightarrow> isDeleted x"
    and x: "x \<in> set (documents (run st rs))" "doc_id x = i"
  shows "isDeleted x"
proof -
  from run_ok[of st rs] have adv: "advances evolves_soft st (run st rs)" by blast
  from adv x(1) consider y where "y \<in> set (documents st)" "evolves_soft y x"
    | "nextId st \<le> doc_id x"
    by (auto simp: advances_def)
  then show ?thesis
  proof cases
    case 1
    from evolves_soft_id[OF 1(2)] x(2) have "doc_id y = i" by simp
    with del 1 show ?thesis by (auto simp: evolves_soft_def)
  next
    case 2
    with lt x(2) show ?thesis by simp
  qed
qed

lemma findOne_all_deleted:
  "\<forall>x \<in> set (documents st). doc_id x = i \<longrightarrow> isDeleted x \<Longrightarrow> findOne st i lawyer = None"
  by (auto simp: findOne_def find_None_iff)

lemma stats_without:
  assumes "\<forall>x \<in> set docs. doc_id x = i \<longrightarrow> isDeleted x"
  shows "Document_getDocumentStats (filter (\<lambda>x. doc_id x \<noteq> i) docs) lawyer c
           = Document_getDocumentStats docs lawyer c"
proof -
  have "filter (stats_match lawyer c) (filter (\<lambda>x. doc_id x \<noteq> i) docs)
          = filter (stats_match lawyer c) docs"
    using assms by (induction docs) (auto simp: stats_match_def)
  then show ?thesis by (simp add: Document_getDocumentStats_def)
qed

lemma hard_delete_result:
  assumes ok: "ids_ok st"
    and del: "deleteDocument_p2 e st lawyer i = (Success c m u, st')"
  shows "ids_ok st' \<and> i < nextId st' \<and> (\<forall>x \<in> set (documents st'). doc_id x \<noteq> i)"
proof -
  from del obtain d where f: "findOne_p2 st i lawyer = Some d"
    and st': "st' = (unlink e st (filePath d))
        \<lparr>documents := remove_doc i (documents (unlink e st (filePath d)))\<rparr>"
    by (auto simp: deleteDocument_p2_def Let_def split: option.splits if_splits)
  have docs: "documents st' = remove_doc i (documents st)" "nextId st' = nextId st"
    using st' by (simp_all add: unlink_def)
  from delete_p2_ok[of st e lawyer i] ok del have ok': "ids_ok st'" by simp
  from findOne_p2_mem[OF f] ok have lt: "i < nextId st'"
    using docs by (auto simp: ids_ok_def list_all_iff)
  from ok have dist: "distinct (map doc_id (documents st))" by (simp add: ids_ok_def)
  from remove_doc_gone[OF dist] docs have "\<forall>x \<in> set (documents st'). doc_id x \<noteq> i" by auto
  with ok' lt show ?thesis by blast
qed

lemma removed_stays:
  assumes lt: "i < nextId st" and no: "\<forall>x \<in> set (documents st). doc_id x \<noteq> i"
    and x: "x \<in> set (documents (run_p2 st rs))"
  shows "doc_id x \<noteq> i"
proof -
  from run_p2_ok[of st rs] have adv: "advances evolves st (run_p2 st rs)" by blast
  from stays_absent[OF adv evolves_id lt no x] show ?thesis .
qed

lemma findOne_p2_absent:
  "\<forall>x \<in> set (documents st). doc_id x \<noteq> i \<Longrightarrow> findOne_p2 st i lawyer = None"
  by (auto simp: findOne_p2_def find_None_iff)

lemma two_docs_eq:
  "two_docs = \<lparr> documents = [doc0, doc1_by8], relationships = [rel0, rel8],
          files = [''/uploads/document-1-1.pdf'' \<mapsto> ''hello'',
                   ''/uploads/document-2-2.pdf'' \<mapsto> ''abc''],
          nextId = 2 \<rparr>"
  by (simp add: two_docs_def upload8)

lemma two_docs_p2_eq:
  "two_docs_p2 = arrived_p2\<lparr> documents := [doc0_p2, doc1_by8_p2], nextId := 2 \<rparr>"
  by (simp add: two_docs_p2_def upload8_p2)

lemma ids_ok_two_docs: "ids_ok two_docs"
  by (simp add: two_docs_eq ids_ok_def doc0_def doc1_by8_def doc1_def)

lemma ids_ok_two_docs_p2: "ids_ok two_docs_p2"
  by (simp add: two_docs_p2_eq ids_ok_def doc0_p2_def doc1_by8_p2_def doc1_p2_def)

lemma delete_two_docs:
  "deleteDocument env0 two_docs 7 0 = (Success 200 ''Document deleted successfully'' (), deleted0)"
  unfolding deleted0_def
  by (simp add: two_docs_eq deleteDocument_def findOne_def doc0_def env0_def save_def
      save_valid_def v_title_def v_file_def pre_save_def Let_def)

lemma delete_two_docs_p2:
  "deleteDocument_p2 env0 two_docs_p2 7 0
     = (Success 200 ''Document deleted successfully'' (), deleted0_p2)"
  unfolding deleted0_p2_def
  by (simp add: two_docs_p2_eq deleteDocument_p2_def findOne_p2_def doc0_p2_def env0_def Let_def)

lemma deleted0_eq:
  "deleted0 = \<lparr> documents = [doc0\<lparr>isDeleted := True, updatedAt := 1000\<rparr>, doc1_by8],
          relationships = [rel0, rel8],
          files = [''/uploads/document-1-1.pdf'' \<mapsto> ''hello'',
                   ''/uploads/document-2-2.pdf'' \<mapsto> ''abc''],
          nextId = 2 \<rparr>"
  unfolding deleted0_def
  by (simp add: two_docs_eq deleteDocument_def findOne_def doc0_def env0_def save_def
      save_valid_def v_title_def v_file_def pre_save_def Let_def)

lemma later_docs:
  "documents (run deleted0 later)
     = [doc0\<lparr>isDeleted := True, updatedAt := 1000\<rparr>,
        doc1_by8\<lparr>downloadCount := 1, lastDownloadedAt := Some 1000, lastDownloadedBy := Some 8\<rparr>]"
  by (simp add: run_def later_def deleted0_eq downloadDocument_def updateDocument_def findOne_def
      retitle_def doc0_def doc1_by8_def doc1_def save_def save_valid_def v_title_def v_file_def
      pre_save_def Let_def env0_def)

lemma deleted0_p2_eq:
  "deleted0_p2 = \<lparr> documents = [doc1_by8_p2], relationships = [rel0, rel8],
          files = [''/uploads/document-2-2.pdf'' \<mapsto> ''abc''],
          nextId = 2 \<rparr>"
  unfolding deleted0_p2_def
  by (simp add: two_docs_p2_eq deleteDocument_p2_def findOne_p2_def doc0_p2_def env0_def Let_def
      arrived_p2_def writeFile_def store0_p2_def unlink_def file1_def fun_upd_twist)

lemma later_p2_docs:
  "documents (run_p2 deleted0_p2 later_p2)
     = [doc1_by8_p2\<lparr>downloadCount := 1, lastAccessed := Some 1000\<rparr>]"
  by (simp add: run_p2_def later_p2_def deleted0_p2_eq downloadDocument_p2_def updateDocument_p2_def
      findOne_p2_def retitle_p2_def doc1_by8_p2_def doc1_p2_def save_p2_def Let_def env0_def)

lemma list_later:
  "\<exists>r. getDocuments by_createdAt plain_only (run deleted0 later) 8 (page_query 1) = Success 200 [] r
       \<and> l_documents r = [doc1_by8\<lparr>downloadCount := 1, lastDownloadedAt := Some 1000,
                              lastDownloadedBy := Some 8\<rparr>]"
  by (simp add: getDocuments_def Let_def page_query_def truthy_def later_docs doc0_def doc1_def
      doc1_by8_def query_match_def opt_eq_def by_createdAt_def sort_field_def page_slice_def)

lemma list_later_p2:
  "\<exists>r. getLawyerDocuments by_createdAt plain_only (run_p2 deleted0_p2 later_p2) 8 (page_query_p2 1)
          = Success 200 [] r
       \<and> l_documents r = [doc1_by8_p2\<lparr>downloadCount := 1, lastAccessed := Some 1000\<rparr>]"
  by (simp add: getLawyerDocuments_def Let_def page_query_p2_def truthy_def later_p2_docs
      doc1_p2_def doc1_by8_p2_def query_match_p2_def opt_eq_all_def by_createdAt_def
      sort_field_def page_slice_def)

lemma get_two_docs: "getDocumentById two_docs 7 0 = Success 200 [] doc0"
  by (simp add: getDocumentById_def findOne_def two_docs_eq doc0_def)

text \<open>
  C2. In \<^verbatim>\<open>documentController.js\<close> every answer of list, getById, stats and download is
  the answer the same call gets from the database without its soft-deleted rows, and no
  listed or fetched document has \<open>isDeleted\<close>. After a successful delete of document
  \<open>ia\<close>, and after whatever requests follow, getById and download of \<open>ia\<close> are answered
  404 for every lawyer, no list holds a document with that id, and the statistics are
  those of the collection without it. In \<^verbatim>\<open>unnamed/part_002\<close>, after a successful delete
  of \<open>ip\<close> no later state holds a row with that id, so its statistics cannot count it,
  getById and download are answered 404, and no list holds it.
\<close>

theorem deleted_documents_invisible:
  "getDocuments srt rx st lawyer q = getDocuments srt rx (live st) lawyer q
   \<and> getDocumentById st lawyer i = getDocumentById (live st) lawyer i
   \<and> getDocumentStats st lawyer cq = getDocumentStats (live st) lawyer cq
   \<and> fst (downloadDocument e st lawyer i) = fst (downloadDocument e (live st) lawyer i)
   \<and> (permuting srt \<and> getDocuments srt rx st lawyer q = Success c m r
        \<longrightarrow> (\<forall>d \<in> set (l_documents r). \<not> isDeleted d))
   \<and> (getDocumentById st lawyer i = Success c1 m1 d1 \<longrightarrow> \<not> isDeleted d1)
   \<and> (ids_ok sa \<and> deleteDocument ea sa la ia = (Success c2 m2 u2, sa') \<longrightarrow>
         getDocumentById (run sa' rs) lb ia = Failure 404 ''Document not found''
       \<and> downloadDocument eb (run sa' rs) lb ia
           = (Failure 404 ''Document not found'', run sa' rs)
       \<and> (permuting srt \<and> getDocuments srt rx (run sa' rs) lb qb = Success c3 m3 r3
            \<longrightarrow> (\<forall>x \<in> set (l_documents r3). doc_id x \<noteq> ia))
       \<and> getDocumentStats (run sa' rs) lb cb
           = Success 200 [] (Document_getDocumentStats
                (filter (\<lambda>x. doc_id x \<noteq> ia) (documents (run sa' rs))) lb cb))
   \<and> (ids_ok sp \<and> deleteDocument_p2 ep sp lp ip = (Success c4 m4 u4, sp') \<longrightarrow>
         (\<forall>x \<in> set (documents (run_p2 sp' rs2)). doc_id x \<noteq> ip)
       \<and> getDocumentById_p2 eq (run_p2 sp' rs2) lq ip
           = (Failure 404 ''Document not found'', run_p2 sp' rs2)
       \<and> downloadDocument_p2 eq (run_p2 sp' rs2) lq ip
           = (Failure 404 ''Document not found'', run_p2 sp' rs2)
       \<and> (permuting srt2 \<and> getLawyerDocuments srt2 rx (run_p2 sp' rs2) lq q2 = Success c5 m5 r5
            \<longrightarrow> (\<forall>x \<in> set (l_documents r5). doc_id x \<noteq> ip)))"
proof -
  have 1: "getDocuments srt rx st lawyer q = getDocuments srt rx (live st) lawyer q"
    by (simp only: getDocuments_live)
  have 2: "getDocumentById st lawyer i = getDocumentById (live st) lawyer i"
    by (simp only: getDocumentById_live)
  have 3: "getDocumentStats st lawyer cq = getDocumentStats (live st) lawyer cq"
    by (simp only: getDocumentStats_live)
  have 4: "fst (downloadDocument e st lawyer i) = fst (downloadDocument e (live st) lawyer i)"
    by (simp only: download_live)
  have 5: "permuting srt \<and> getDocuments srt rx st lawyer q = Success c m r
        \<longrightarrow> (\<forall>d \<in> set (l_documents r). \<not> isDeleted d)"
    using getDocuments_members[of srt rx st lawyer q c m r] by blast
  have 6: "getDocumentById st lawyer i = Success c1 m1 d1 \<longrightarrow> \<not> isDeleted d1"
    using getDocumentById_not_deleted by blast
  have 7: "getDocumentById (run sa' rs) lb ia = Failure 404 ''Document not found''
       \<and> downloadDocument eb (run sa' rs) lb ia
           = (Failure 404 ''Document not found'', run sa' rs)
       \<and> (permuting srt \<and> getDocuments srt rx (run sa' rs) lb qb = Success c3 m3 r3
            \<longrightarrow> (\<forall>x \<in> set (l_documents r3). doc_id x \<noteq> ia))
       \<and> getDocumentStats (run sa' rs) lb cb
           = Success 200 [] (Document_getDocumentStats
                (filter (\<lambda>x. doc_id x \<noteq> ia) (documents (run sa' rs))) lb cb)"
    if h: "ids_ok sa \<and> deleteDocument ea sa la ia = (Success c2 m2 u2, sa')"
  proof -
    from h soft_delete_result[of sa ea la ia c2 m2 u2 sa']
    have r: "ids_ok sa'" "ia < nextId sa'" "\<forall>x \<in> set (documents sa'). doc_id x = ia \<longrightarrow> isDeleted x"
      by blast+
    have del: "\<forall>x \<in> set (documents (run sa' rs)). doc_id x = ia \<longrightarrow> isDeleted x"
      using deleted_stays[OF r] by blast
    from findOne_all_deleted[OF del] have f: "findOne (run sa' rs) ia lb = None" .
    have a: "getDocumentById (run sa' rs) lb ia = Failure 404 ''Document not found''"
      using f by (simp add: getDocumentById_def)
    have b: "downloadDocument eb (run sa' rs) lb ia = (Failure 404 ''Document not found'', run sa' rs)"
      using f by (simp add: downloadDocument_def)
    have c: "\<forall>x \<in> set (l_documents r3). doc_id x \<noteq> ia"
      if "permuting srt \<and> getDocuments srt rx (run sa' rs) lb qb = Success c3 m3 r3"
      using getDocuments_members[of srt rx "run sa' rs" lb qb c3 m3 r3] that del by blast
    have d: "getDocumentStats (run sa' rs) lb cb
           = Success 200 [] (Document_getDocumentStats
                (filter (\<lambda>x. doc_id x \<noteq> ia) (documents (run sa' rs))) lb cb)"
      using stats_without[OF del] by (simp add: getDocumentStats_def)
    from a b c d show ?thesis by blast
  qed
  have 8: "(\<forall>x \<in> set (documents (run_p2 sp' rs2)). doc_id x \<noteq> ip)
       \<and> getDocumentById_p2 eq (run_p2 sp' rs2) lq ip
           = (Failure 404 ''Document not found'', run_p2 sp' rs2)
       \<and> downloadDocument_p2 eq (run_p2 sp' rs2) lq ip
           = (Failure 404 ''Document not found'', run_p2 sp' rs2)
       \<and> (permuting srt2 \<and> getLawyerDocuments srt2 rx (run_p2 sp' rs2) lq q2 = Success c5 m5 r5
            \<longrightarrow> (\<forall>x \<in> set (l_documents r5). doc_id x \<noteq> ip))"
    if h: "ids_ok sp \<and> deleteDocument_p2 ep sp lp ip = (Success c4 m4 u4, sp')"
  proof -
    from h hard_delete_result[of sp ep lp ip c4 m4 u4 sp']
    have r: "ip < nextId sp'" "\<forall>x \<in> set (documents sp'). doc_id x \<noteq> ip"
      by blast+
    have no: "\<forall>x \<in> set (documents (run_p2 sp' rs2)). doc_id x \<noteq> ip"
      using removed_stays[OF r] by blast
    from findOne_p2_absent[OF no] have f: "findOne_p2 (run_p2 sp' rs2) ip lq = None" .
    have a: "getDocumentById_p2 eq (run_p2 sp' rs2) lq ip
           = (Failure 404 ''Document not found'', run_p2 sp' rs2)"
      using f by (simp add: getDocumentById_p2_def)
    have b: "downloadDocument_p2 eq (run_p2 sp' rs2) lq ip
           = (Failure 404 ''Document not found'', run_p2 sp' rs2)"
      using f by (simp add: downloadDocument_p2_def)
    have c: "\<forall>x \<in> set (l_documents r5). doc_id x \<noteq> ip"
      if "permuting srt2 \<and> getLawyerDocuments srt2 rx (run_p2 sp' rs2) lq q2 = Success c5 m5 r5"
      using getLawyerDocuments_members[of srt2 rx "run_p2 sp' rs2" lq q2 c5 m5 r5] that no by blast
    from no a b c show ?thesis by blast
  qed
  from 1 2 3 4 5 6 7 8 show ?thesis by blast
qed

theorem deleted_documents_invisible_witness:
  "ids_ok two_docs \<and> permuting (by_createdAt :: document sorter)
   \<and> getDocumentById two_docs 7 0 = Success 200 [] doc0 \<and> \<not> isDeleted doc0
   \<and> deleteDocument env0 two_docs 7 0 = (Success 200 ''Document deleted successfully'' (), deleted0)
   \<and> getDocumentById (run deleted0 later) 7 0 = Failure 404 ''Document not found''
   \<and> fst (downloadDocument env0 (run deleted0 later) 7 0) = Failure 404 ''Document not found''
   \<and> (\<exists>r. getDocuments by_createdAt plain_only (run deleted0 later) 8 (page_query 1) = Success 200 [] r
        \<and> l_documents r \<noteq> []
        \<and> (\<forall>x \<in> set (l_documents r). \<not> isDeleted x \<and> doc_id x \<noteq> 0))
   \<and> ids_ok two_docs_p2 \<and> permuting (by_createdAt :: document_p2 sorter)
   \<and> deleteDocument_p2 env0 two_docs_p2 7 0
        = (Success 200 ''Document deleted successfully'' (), deleted0_p2)
   \<and> fst (getDocumentById_p2 env0 (run_p2 deleted0_p2 later_p2) 7 0) = Failure 404 ''Document not found''
   \<and> fst (downloadDocument_p2 env0 (run_p2 deleted0_p2 later_p2) 7 0) = Failure 404 ''Document not found''
   \<and> (\<exists>r. getLawyerDocuments by_createdAt plain_only (run_p2 deleted0_p2 later_p2) 8 (page_query_p2 1)
          = Success 200 [] r
        \<and> l_documents r \<noteq> [] \<and> (\<forall>x \<in> set (l_documents r). doc_id x \<noteq> 0))"
proof -
  from list_later obtain r where r:
    "getDocuments by_createdAt plain_only (run deleted0 later) 8 (page_query 1) = Success 200 [] r"
    "l_documents r \<noteq> []" by auto
  from list_later_p2 obtain r2 where r2:
    "getLawyerDocuments by_createdAt plain_only (run_p2 deleted0_p2 later_p2) 8 (page_query_p2 1)
       = Success 200 [] r2"
    "l_documents r2 \<noteq> []" by auto
  note t1 = deleted_documents_invisible [of by_createdAt plain_only two_docs 7 "page_query 1" 0 QAbsent env0
      200 "[]" r 200 "[]" doc0
      two_docs env0 7 0 200 "''Document deleted successfully''" "()" deleted0 later 7 env0
      "page_query 1" 200 "[]" r QAbsent
      two_docs_p2 env0 7 0 200 "''Document deleted successfully''" "()" deleted0_p2 later_p2 env0 7
      by_createdAt "page_query_p2 1" 200 "[]" r2]
  note t2 = deleted_documents_invisible [of by_createdAt plain_only "run deleted0 later" 8 "page_query 1" 0 QAbsent env0
      200 "[]" r 200 "[]" doc0
      two_docs env0 7 0 200 "''Document deleted successfully''" "()" deleted0 later 8 env0
      "page_query 1" 200 "[]" r QAbsent
      two_docs_p2 env0 7 0 200 "''Document deleted successfully''" "()" deleted0_p2 later_p2 env0 8
      by_createdAt "page_query_p2 1" 200 "[]" r2]
  have a: "\<not> isDeleted doc0"
    using t1 get_two_docs by blast
  have b: "getDocumentById (run deleted0 later) 7 0 = Failure 404 ''Document not found''"
    "downloadDocument env0 (run deleted0 later) 7 0
       = (Failure 404 ''Document not found'', run deleted0 later)"
    using t1 ids_ok_two_docs delete_two_docs by blast+
  have c: "\<forall>x \<in> set (l_documents r). \<not> isDeleted x"
    using t2 r permuting_ex by blast
  have d: "\<forall>x \<in> set (l_documents r). doc_id x \<noteq> 0"
    using t2 r permuting_ex ids_ok_two_docs delete_two_docs by blast
  have e: "getDocumentById_p2 env0 (run_p2 deleted0_p2 later_p2) 7 0
           = (Failure 404 ''Document not found'', run_p2 deleted0_p2 later_p2)"
    "downloadDocument_p2 env0 (run_p2 deleted0_p2 later_p2) 7 0
           = (Failure 404 ''Document not found'', run_p2 deleted0_p2 later_p2)"
    using t1 ids_ok_two_docs_p2 delete_two_docs_p2 by blast+
  have f: "\<forall>x \<in> set (l_documents r2). doc_id x \<noteq> 0"
    using t2 r2 permuting_ex ids_ok_two_docs_p2 delete_two_docs_p2 by blast
  from a b c d e f r r2 show ?thesis
    using ids_ok_two_docs ids_ok_two_docs_p2 permuting_ex get_two_docs delete_two_docs
      delete_two_docs_p2 by auto
qed

subsection \<open>Downloads\<close>

lemma find_replaced:
  assumes dist: "distinct (map doc_id xs)" and d: "d \<in> set xs" and id: "doc_id d' = doc_id d"
    and P: "P d'" and Pid: "\<And>x. P x \<Longrightarrow> doc_id x = doc_id d'"
  shows "find P (replace_doc d' xs) = Some d'"
proof -
  from replace_doc_in[OF d id[symmetric]] have m: "d' \<in> set (replace_doc d' xs)" .
  with P have "find P (replace_doc d' xs) \<noteq> None" by (auto simp: find_None_iff)
  then obtain y where y: "find P (replace_doc d' xs) = Some y" by auto
  from find_SomeD[OF y] Pid have "y \<in> set (replace_doc d' xs)" "doc_id y = doc_id d'" by auto
  with replace_doc_same_id[OF dist] have "y = d'" by blast
  with y show ?thesis by simp
qed

lemma pre_save_download:
  "pre_save e d (d\<lparr>downloadCount := k, lastDownloadedAt := a, lastDownloadedBy := b\<rparr>)
     = d\<lparr>downloadCount := k, lastDownloadedAt := a, lastDownloadedBy := b\<rparr>"
  by (simp add: pre_save_def)

lemma download_success:
  assumes ok: "ids_ok st" and dl: "downloadDocument e st lawyer i = (Success c m p, st')"
  shows "\<exists>d d'. findOne st i lawyer = Some d \<and> findOne st' i lawyer = Some d'
           \<and> downloadCount d' = downloadCount d + 1 \<and> filePath d' = filePath d
           \<and> files st (filePath d) = Some (body p) \<and> files st' = files st \<and> ids_ok st'"
proof -
  from dl obtain d b d' where f: "findOne st i lawyer = Some d"
    and b: "files st (filePath d) = Some b"
    and s: "save e st d (d\<lparr>downloadCount := downloadCount d + 1,
                           lastDownloadedAt := Some (now e),
                           lastDownloadedBy := Some lawyer\<rparr>) = Some (d', st')"
    and p: "body p = b"
    by (auto simp: downloadDocument_def split: option.splits)
  let ?n = "d\<lparr>downloadCount := downloadCount d + 1, lastDownloadedAt := Some (now e),
               lastDownloadedBy := Some lawyer\<rparr>"
  from findOne_mem[OF f] have din: "d \<in> set (documents st)" and di: "doc_id d = i"
    and dl': "lawyerId d = lawyer" and nd: "\<not> isDeleted d" by simp_all
  have ps: "pre_save e d ?n = ?n" by (simp add: pre_save_def)
  have ne: "?n \<noteq> d"
  proof
    assume "?n = d"
    then have "downloadCount ?n = downloadCount d" by simp
    then show False by simp
  qed
  from s ne have d': "d' = ?n\<lparr>updatedAt := now e\<rparr>"
    and st': "st' = st\<lparr>documents := replace_doc d' (documents st)\<rparr>"
    by (auto simp: save_def pre_save_download Let_def split: if_splits)
  from ok have dist: "distinct (map doc_id (documents st))" by (simp add: ids_ok_def)
  have "find (\<lambda>x. doc_id x = i \<and> lawyerId x = lawyer \<and> \<not> isDeleted x)
          (replace_doc d' (documents st)) = Some d'"
    by (rule find_replaced[OF dist din]) (use d' di dl' nd in auto)
  then have f': "findOne st' i lawyer = Some d'" by (simp add: findOne_def st')
  from download_ok[of st e lawyer i] ok dl have ok': "ids_ok st'" by simp
  from f f' d' b p st' ok' show ?thesis by simp
qed

lemma download_p2_success:
  assumes ok: "ids_ok st" and dl: "downloadDocument_p2 e st lawyer i = (Success c m p, st')"
  shows "\<exists>d d'. findOne_p2 st i lawyer = Some d \<and> findOne_p2 st' i lawyer = Some d'
           \<and> downloadCount d' = downloadCount d + 1 \<and> filePath d' = filePath d
           \<and> files st (filePath d) = Some (sent_body p) \<and> files st' = files st \<and> ids_ok st'"
proof -
  from dl obtain d b d' where f: "findOne_p2 st i lawyer = Some d"
    and b: "files st (filePath d) = Some b"
    and s: "save_p2 e st d (d\<lparr>downloadCount := downloadCount d + 1,
                           lastAccessed := Some (now e)\<rparr>) = Some (d', st')"
    and p: "sent_body p = b"
    by (auto simp: downloadDocument_p2_def split: option.splits)
  let ?n = "d\<lparr>downloadCount := downloadCount d + 1, lastAccessed := Some (now e)\<rparr>"
  from findOne_p2_mem[OF f] have din: "d \<in> set (documents st)" and di: "doc_id d = i"
    and dl': "lawyerId d = lawyer" by simp_all
  have ne: "?n \<noteq> d"
  proof
    assume "?n = d"
    then have "downloadCount ?n = downloadCount d" by simp
    then show False by simp
  qed
  from s ne have d': "d' = ?n\<lparr>updatedAt := now e\<rparr>"
    and st': "st' = st\<lparr>documents := replace_doc d' (documents st)\<rparr>"
    by (auto simp: save_p2_def Let_def split: if_splits)
  from ok have dist: "distinct (map doc_id (documents st))" by (simp add: ids_ok_def)
  have "find (\<lambda>x. doc_id x = i \<and> lawyerId x = lawyer)
          (replace_doc d' (documents st)) = Some d'"
    by (rule find_replaced[OF dist din]) (use d' di dl' in auto)
  then have f': "findOne_p2 st' i lawyer = Some d'" by (simp add: findOne_p2_def st')
  from download_p2_ok[of st e lawyer i] ok dl have ok': "ids_ok st'" by simp
  from f f' d' b p st' ok' show ?thesis by simp
qed

lemma three_downloads:
  assumes ok: "ids_ok st"
    and d1: "downloadDocument e1 st lawyer i = (Success c1 m1 p1, s1)"
    and d2: "downloadDocument e2 s1 lawyer i = (Success c2 m2 p2, s2)"
    and d3: "downloadDocument e3 s2 lawyer i = (Success c3 m3 p3, s3)"
  shows "body p2 = body p1 \<and> body p3 = body p1
         \<and> (\<exists>d d'. findOne st i lawyer = Some d \<and> findOne s3 i lawyer = Some d'
               \<and> downloadCount d' = downloadCount d + 3)"
proof -
  from download_success[OF ok d1] obtain a a' where
    1: "findOne st i lawyer = Some a" "findOne s1 i lawyer = Some a'"
       "downloadCount a' = downloadCount a + 1" "filePath a' = filePath a"
       "files st (filePath a) = Some (body p1)" "files s1 = files st" "ids_ok s1" by blast
  from download_success[OF 1(7) d2] 1(2) obtain b' where
    2: "findOne s2 i lawyer = Some b'"
       "downloadCount b' = downloadCount a' + 1" "filePath b' = filePath a'"
       "files s1 (filePath a') = Some (body p2)" "files s2 = files s1" "ids_ok s2" by auto
  from download_success[OF 2(6) d3] 2(1) obtain c' where
    3: "findOne s3 i lawyer = Some c'"
       "downloadCount c' = downloadCount b' + 1"
       "files s2 (filePath b') = Some (body p3)" by auto
  from 1 2 3 show ?thesis by simp
qed

lemma three_downloads_p2:
  assumes ok: "ids_ok st"
    and d1: "downloadDocument_p2 e1 st lawyer i = (Success c1 m1 p1, s1)"
    and d2: "downloadDocument_p2 e2 s1 lawyer i = (Success c2 m2 p2, s2)"
    and d3: "downloadDocument_p2 e3 s2 lawyer i = (Success c3 m3 p3, s3)"
  shows "sent_body p2 = sent_body p1 \<and> sent_body p3 = sent_body p1
         \<and> (\<exists>d d'. findOne_p2 st i lawyer = Some d \<and> findOne_p2 s3 i lawyer = Some d'
               \<and> downloadCount d' = downloadCount d + 3)"
proof -
  from download_p2_success[OF ok d1] obtain a a' where
    1: "findOne_p2 st i lawyer = Some a" "findOne_p2 s1 i lawyer = Some a'"
       "downloadCount a' = downloadCount a + 1" "filePath a' = filePath a"
       "files st (filePath a) = Some (sent_body p1)" "files s1 = files st" "ids_ok s1" by blast
  from download_p2_success[OF 1(7) d2] 1(2) obtain b' where
    2: "findOne_p2 s2 i lawyer = Some b'"
       "downloadCount b' = downloadCount a' + 1" "filePath b' = filePath a'"
       "files s1 (filePath a') = Some (sent_body p2)" "files s2 = files s1" "ids_ok s2" by auto
  from download_p2_success[OF 2(6) d3] 2(1) obtain c' where
    3: "findOne_p2 s3 i lawyer = Some c'"
       "downloadCount c' = downloadCount b' + 1"
       "files s2 (filePath b') = Some (sent_body p3)" by auto
  from 1 2 3 show ?thesis by simp
qed

lemma count_monotone:
  assumes ok: "ids_ok st" and d: "d \<in> set (documents st)"
    and x: "x \<in> set (documents (run st rs))" "doc_id x = doc_id d"
  shows "downloadCount d \<le> downloadCount x"
proof -
  from run_ok[of st rs] have adv: "advances evolves_soft st (run st rs)" by blast
  from later_version[OF ok adv evolves_soft_id d x]
  show ?thesis by (simp add: evolves_soft_def evolves_def)
qed

lemma count_monotone_p2:
  assumes ok: "ids_ok st" and d: "d \<in> set (documents st)"
    and x: "x \<in> set (documents (run_p2 st rs))" "doc_id x = doc_id d"
  shows "downloadCount d \<le> downloadCount x"
proof -
  from run_p2_ok[of st rs] have adv: "advances evolves st (run_p2 st rs)" by blast
  from later_version[OF ok adv evolves_id d x]
  show ?thesis by (simp add: evolves_def)
qed

lemma replace_doc_map:
  "d \<in> set xs \<Longrightarrow> distinct (map doc_id xs) \<Longrightarrow> doc_id d' = doc_id d \<Longrightarrow> f d' = f d
   \<Longrightarrow> map f (replace_doc d' xs) = map f xs"
proof (induction xs)
  case Nil
  then show ?case by simp
next
  case (Cons a xs)
  show ?case
  proof (cases "doc_id a = doc_id d'")
    case True
    have "a = d"
    proof (rule ccontr)
      assume "a \<noteq> d"
      with Cons.prems have "d \<in> set xs" by simp
      then have "doc_id d \<in> set (map doc_id xs)" by (rule id_in_ids)
      with Cons.prems True show False by simp
    qed
    with True Cons.prems show ?thesis by simp
  next
    case False
    with Cons.prems have "d \<in> set xs" by auto
    with False Cons show ?thesis by simp
  qed
qed

lemma getById_p2_counts:
  assumes ok: "ids_ok st"
  shows "map downloadCount (documents (snd (getDocumentById_p2 e st lawyer i)))
           = map downloadCount (documents st)"
proof (cases "findOne_p2 st i lawyer")
  case None
  then show ?thesis by (simp add: getDocumentById_p2_def)
next
  case (Some d)
  let ?n = "d\<lparr>lastAccessed := Some (now e)\<rparr>"
  from ok have dist: "distinct (map doc_id (documents st))" by (simp add: ids_ok_def)
  show ?thesis
  proof (cases "save_p2 e st d ?n")
    case None
    with Some show ?thesis by (simp add: getDocumentById_p2_def)
  next
    case (Some p)
    obtain d' st' where p: "p = (d', st')" by (cases p)
    from save_p2_cases[OF Some[unfolded p]]
    have "map downloadCount (documents st') = map downloadCount (documents st)"
    proof
      assume "d' = d \<and> st' = st"
      then show ?thesis by simp
    next
      assume a: "d' = ?n\<lparr>updatedAt := now e\<rparr> \<and> st' = st\<lparr>documents := replace_doc d' (documents st)\<rparr>"
      then have "doc_id d' = doc_id d" "downloadCount d' = downloadCount d" by simp_all
      from replace_doc_map[OF _ dist this] findOne_p2_mem[OF \<open>findOne_p2 st i lawyer = Some d\<close>] a
      show ?thesis by simp
    qed
    with Some p \<open>findOne_p2 st i lawyer = Some d\<close> show ?thesis
      by (simp add: getDocumentById_p2_def)
  qed
qed

lemma store0_eq:
  "store0 = \<lparr> documents = [doc0], relationships = [rel0, rel8],
      files = [''/uploads/document-1-1.pdf'' \<mapsto> ''hello''], nextId = 1 \<rparr>"
  by (simp add: store0_def)

lemmas download_eval = downloadDocument_def findOne_def save_def save_valid_def v_title_def
  v_file_def pre_save_def Let_def env0_def doc0_def pdf0_def

lemma once_eq:
  "once = store0\<lparr>documents := [doc0\<lparr>downloadCount := 1, lastDownloadedAt := Some 1000,
       lastDownloadedBy := Some 7, updatedAt := 1000\<rparr>]\<rparr>"
  by (simp add: once_def store0_def download_eval)

lemma twice_eq:
  "twice = store0\<lparr>documents := [doc0\<lparr>downloadCount := 2, lastDownloadedAt := Some 1000,
       lastDownloadedBy := Some 7, updatedAt := 1000\<rparr>]\<rparr>"
  by (simp add: twice_def once_eq store0_def download_eval)

lemma thrice_eq:
  "thrice = store0\<lparr>documents := [doc0\<lparr>downloadCount := 3, lastDownloadedAt := Some 1000,
       lastDownloadedBy := Some 7, updatedAt := 1000\<rparr>]\<rparr>"
  by (simp add: thrice_def twice_eq store0_def download_eval)

lemma download_once: "downloadDocument env0 store0 7 0 = (Success 200 [] pdf0, once)"
  unfolding once_def by (simp add: store0_def download_eval)

lemma download_twice: "downloadDocument env0 once 7 0 = (Success 200 [] pdf0, twice)"
  unfolding twice_def by (simp add: once_eq store0_def download_eval)

lemma download_thrice: "downloadDocument env0 twice 7 0 = (Success 200 [] pdf0, thrice)"
  unfolding thrice_def by (simp add: twice_eq store0_def download_eval)

lemmas download_p2_eval = downloadDocument_p2_def findOne_p2_def save_p2_def
  Let_def env0_def doc0_p2_def sent0_def

lemma once_p2_eq:
  "once_p2 = store0_p2\<lparr>documents := [doc0_p2\<lparr>downloadCount := 1, lastAccessed := Some 1000,
       updatedAt := 1000\<rparr>]\<rparr>"
  by (simp add: once_p2_def store0_p2_def download_p2_eval)

lemma twice_p2_eq:
  "twice_p2 = store0_p2\<lparr>documents := [doc0_p2\<lparr>downloadCount := 2, lastAccessed := Some 1000,
       updatedAt := 1000\<rparr>]\<rparr>"
  by (simp add: twice_p2_def once_p2_eq store0_p2_def download_p2_eval)

lemma thrice_p2_eq:
  "thrice_p2 = store0_p2\<lparr>documents := [doc0_p2\<lparr>downloadCount := 3, lastAccessed := Some 1000,
       updatedAt := 1000\<rparr>]\<rparr>"
  by (simp add: thrice_p2_def twice_p2_eq store0_p2_def download_p2_eval)

lemma download_once_p2: "downloadDocument_p2 env0 store0_p2 7 0 = (Success 200 [] sent0, once_p2)"
  unfolding once_p2_def by (simp add: store0_p2_def download_p2_eval)

lemma download_twice_p2: "downloadDocument_p2 env0 once_p2 7 0 = (Success 200 [] sent0, twice_p2)"
  unfolding twice_p2_def by (simp add: once_p2_eq store0_p2_def download_p2_eval)

lemma download_thrice_p2: "downloadDocument_p2 env0 twice_p2 7 0 = (Success 200 [] sent0, thrice_p2)"
  unfolding thrice_p2_def by (simp add: twice_p2_eq store0_p2_def download_p2_eval)

lemma run_reads: "documents (run store0 reads) = [doc0_once]"
  unfolding run_def reads_def foldl.simps step.simps download_once snd_conv
  by (simp add: once_eq doc0_once_def)

lemma run_reads_p2: "documents (run_p2 store0_p2 reads_p2) = [doc0_once_p2]"
  unfolding run_p2_def reads_p2_def foldl.simps step_p2.simps download_once_p2 snd_conv
  by (simp add: once_p2_eq doc0_once_p2_def getDocumentById_p2_def findOne_p2_def save_p2_def
      doc0_p2_def env0_def)

text \<open>
  C7. In a state with unique ids, a download that succeeds leaves the document with a
  \<open>downloadCount\<close> one higher, sends the content stored under its path and leaves the
  files as they were; three successful downloads in a row send the same bytes and leave
  the count three higher. Through any sequence of requests the count of a stored
  document never goes down. A list changes no state in either controller, getById
  changes none in \<^verbatim>\<open>documentController.js\<close>, and in \<^verbatim>\<open>unnamed/part_002\<close>, where getById
  saves the access time, it leaves every \<open>downloadCount\<close> as it was.
\<close>

theorem download_counts:
  "(ids_ok st \<and> downloadDocument e st lawyer i = (Success c m p, st') \<longrightarrow>
      (\<exists>d d'. findOne st i lawyer = Some d \<and> findOne st' i lawyer = Some d'
          \<and> downloadCount d' = downloadCount d + 1
          \<and> files st (filePath d) = Some (body p))
      \<and> files st' = files st)
   \<and> (ids_ok sa \<and> downloadDocument e1 sa la ia = (Success c1 m1 p1, s1)
        \<and> downloadDocument e2 s1 la ia = (Success c2 m2 p2, s2)
        \<and> downloadDocument e3 s2 la ia = (Success c3 m3 p3, s3) \<longrightarrow>
      body p2 = body p1 \<and> body p3 = body p1
      \<and> (\<exists>d d'. findOne sa ia la = Some d \<and> findOne s3 ia la = Some d'
            \<and> downloadCount d' = downloadCount d + 3))
   \<and> (ids_ok sr \<and> dr \<in> set (documents sr) \<and> xr \<in> set (documents (run sr rs))
        \<and> doc_id xr = doc_id dr \<longrightarrow> downloadCount dr \<le> downloadCount xr)
   \<and> step sr (er, lr, List ql) = sr \<and> step sr (er, lr, GetById ig) = sr
   \<and> (ids_ok t \<and> downloadDocument_p2 e t lawyer i = (Success c m q, t') \<longrightarrow>
      (\<exists>d d'. findOne_p2 t i lawyer = Some d \<and> findOne_p2 t' i lawyer = Some d'
          \<and> downloadCount d' = downloadCount d + 1
          \<and> files t (filePath d) = Some (sent_body q))
      \<and> files t' = files t)
   \<and> (ids_ok ta \<and> downloadDocument_p2 e1 ta la ia = (Success c1 m1 q1, t1)
        \<and> downloadDocument_p2 e2 t1 la ia = (Success c2 m2 q2, t2)
        \<and> downloadDocument_p2 e3 t2 la ia = (Success c3 m3 q3, t3) \<longrightarrow>
      sent_body q2 = sent_body q1 \<and> sent_body q3 = sent_body q1
      \<and> (\<exists>d d'. findOne_p2 ta ia la = Some d \<and> findOne_p2 t3 ia la = Some d'
            \<and> downloadCount d' = downloadCount d + 3))
   \<and> (ids_ok tr \<and> dq \<in> set (documents tr) \<and> xq \<in> set (documents (run_p2 tr rs2))
        \<and> doc_id xq = doc_id dq \<longrightarrow> downloadCount dq \<le> downloadCount xq)
   \<and> step_p2 tr (er, lr, List_p2 ql2) = tr
   \<and> (ids_ok tr \<longrightarrow> map downloadCount (documents (step_p2 tr (er, lr, GetById_p2 ig)))
         = map downloadCount (documents tr))"
proof -
  have 1: "ids_ok st \<and> downloadDocument e st lawyer i = (Success c m p, st') \<longrightarrow>
      (\<exists>d d'. findOne st i lawyer = Some d \<and> findOne st' i lawyer = Some d'
          \<and> downloadCount d' = downloadCount d + 1
          \<and> files st (filePath d) = Some (body p))
      \<and> files st' = files st"
    using download_success[of st e lawyer i c m p st'] by blast
  have 2: "ids_ok sa \<and> downloadDocument e1 sa la ia = (Success c1 m1 p1, s1)
        \<and> downloadDocument e2 s1 la ia = (Success c2 m2 p2, s2)
        \<and> downloadDocument e3 s2 la ia = (Success c3 m3 p3, s3) \<longrightarrow>
      body p2 = body p1 \<and> body p3 = body p1
      \<and> (\<exists>d d'. findOne sa ia la = Some d \<and> findOne s3 ia la = Some d'
            \<and> downloadCount d' = downloadCount d + 3)"
    using three_downloads[of sa e1 la ia c1 m1 p1 s1 e2 c2 m2 p2 s2 e3 c3 m3 p3 s3] by blast
  have 3: "ids_ok sr \<and> dr \<in> set (documents sr) \<and> xr \<in> set (documents (run sr rs))
        \<and> doc_id xr = doc_id dr \<longrightarrow> downloadCount dr \<le> downloadCount xr"
    using count_monotone[of sr dr xr rs] by blast
  have 4: "step sr (er, lr, List ql) = sr \<and> step sr (er, lr, GetById ig) = sr"
    by simp
  have 5: "ids_ok t \<and> downloadDocument_p2 e t lawyer i = (Success c m q, t') \<longrightarrow>
      (\<exists>d d'. findOne_p2 t i lawyer = Some d \<and> findOne_p2 t' i lawyer = Some d'
          \<and> downloadCount d' = downloadCount d + 1
          \<and> files t (filePath d) = Some (sent_body q))
      \<and> files t' = files t"
    using download_p2_success[of t e lawyer i c m q t'] by blast
  have 6: "ids_ok ta \<and> downloadDocument_p2 e1 ta la ia = (Success c1 m1 q1, t1)
        \<and> downloadDocument_p2 e2 t1 la ia = (Success c2 m2 q2, t2)
        \<and> downloadDocument_p2 e3 t2 la ia = (Success c3 m3 q3, t3) \<longrightarrow>
      sent_body q2 = sent_body q1 \<and> sent_body q3 = sent_body q1
      \<and> (\<exists>d d'. findOne_p2 ta ia la = Some d \<and> findOne_p2 t3 ia la = Some d'
            \<and> downloadCount d' = downloadCount d + 3)"
    using three_downloads_p2[of ta e1 la ia c1 m1 q1 t1 e2 c2 m2 q2 t2 e3 c3 m3 q3 t3] by blast
  have 7: "ids_ok tr \<and> dq \<in> set (documents tr) \<and> xq \<in> set (documents (run_p2 tr rs2))
        \<and> doc_id xq = doc_id dq \<longrightarrow> downloadCount dq \<le> downloadCount xq"
    using count_monotone_p2[of tr dq xq rs2] by blast
  have 8: "step_p2 tr (er, lr, List_p2 ql2) = tr" by simp
  have 9: "ids_ok tr \<longrightarrow> map downloadCount (documents (step_p2 tr (er, lr, GetById_p2 ig)))
         = map downloadCount (documents tr)"
    using getById_p2_counts[of tr er lr ig] by simp
  from 1 2 3 4 5 6 7 8 9 show ?thesis by blast
qed

theorem download_counts_witness:
  "ids_ok store0
   \<and> downloadDocument env0 store0 7 0 = (Success 200 [] pdf0, once)
   \<and> downloadDocument env0 once 7 0 = (Success 200 [] pdf0, twice)
   \<and> downloadDocument env0 twice 7 0 = (Success 200 [] pdf0, thrice)
   \<and> (\<exists>d d'. findOne store0 0 7 = Some d \<and> findOne once 0 7 = Some d'
         \<and> downloadCount d' = downloadCount d + 1
         \<and> files store0 (filePath d) = Some (body pdf0))
   \<and> (\<exists>d d'. findOne store0 0 7 = Some d \<and> findOne thrice 0 7 = Some d'
         \<and> downloadCount d' = downloadCount d + 3)
   \<and> doc0 \<in> set (documents store0) \<and> doc0_once \<in> set (documents (run store0 reads))
   \<and> doc_id doc0_once = doc_id doc0 \<and> downloadCount doc0 \<le> downloadCount doc0_once
   \<and> ids_ok store0_p2
   \<and> downloadDocument_p2 env0 store0_p2 7 0 = (Success 200 [] sent0, once_p2)
   \<and> downloadDocument_p2 env0 once_p2 7 0 = (Success 200 [] sent0, twice_p2)
   \<and> downloadDocument_p2 env0 twice_p2 7 0 = (Success 200 [] sent0, thrice_p2)
   \<and> (\<exists>d d'. findOne_p2 store0_p2 0 7 = Some d \<and> findOne_p2 once_p2 0 7 = Some d'
         \<and> downloadCount d' = downloadCount d + 1
         \<and> files store0_p2 (filePath d) = Some (sent_body sent0))
   \<and> (\<exists>d d'. findOne_p2 store0_p2 0 7 = Some d \<and> findOne_p2 thrice_p2 0 7 = Some d'
         \<and> downloadCount d' = downloadCount d + 3)
   \<and> doc0_p2 \<in> set (documents store0_p2)
   \<and> doc0_once_p2 \<in> set (documents (run_p2 store0_p2 reads_p2))
   \<and> doc_id doc0_once_p2 = doc_id doc0_p2
   \<and> downloadCount doc0_p2 \<le> downloadCount doc0_once_p2
   \<and> map downloadCount (documents (step_p2 store0_p2 (env0, 7, GetById_p2 0)))
        = map downloadCount (documents store0_p2)"
proof -
  note t = download_counts [of store0 env0 7 0 200 "[]" pdf0 once
      store0 env0 7 0 200 "[]" pdf0 once env0 200 "[]" pdf0 twice env0 200 "[]" pdf0 thrice
      store0 doc0 doc0_once reads env0 7 "page_query 1" 0
      store0_p2 sent0 once_p2
      store0_p2 sent0 once_p2 sent0 twice_p2 sent0 thrice_p2
      store0_p2 doc0_p2 doc0_once_p2 reads_p2 "page_query_p2 1"]
  have m: "doc0 \<in> set (documents store0)" "doc0_once \<in> set (documents (run store0 reads))"
    "doc_id doc0_once = doc_id doc0"
    "doc0_p2 \<in> set (documents store0_p2)"
    "doc0_once_p2 \<in> set (documents (run_p2 store0_p2 reads_p2))"
    "doc_id doc0_once_p2 = doc_id doc0_p2"
    by (simp_all add: run_reads run_reads_p2)
      (simp_all add: store0_def store0_p2_def doc0_once_def doc0_once_p2_def)
  from t m ids_ok_store0 ids_ok_store0_p2 download_once download_twice download_thrice
    download_once_p2 download_twice_p2 download_thrice_p2
  show ?thesis by blast
qed

subsection \<open>Review information on update\<close>

text \<open>part_002 does what the claim says.\<close>

lemma apply_patch_p2_review:
  assumes "p2_status req = Some s" "review_terminal s" "s \<noteq> status d"
  shows "reviewedBy (apply_patch_p2 e lawyer req d) = Some lawyer
       \<and> reviewedAt (apply_patch_p2 e lawyer req d) = Some (now e)
       \<and> status (apply_patch_p2 e lawyer req d) = s"
  using assms by (simp add: apply_patch_p2_def Let_def split: option.splits)

lemma apply_patch_p2_same_status:
  assumes "p2_status req = None \<or> p2_status req = Some (status d)"
  shows "reviewedAt (apply_patch_p2 e lawyer req d) = reviewedAt d
       \<and> reviewedBy (apply_patch_p2 e lawyer req d) = reviewedBy d"
  using assms by (auto simp: apply_patch_p2_def Let_def split: option.splits)

lemma update_p2_review:
  assumes u: "updateDocument_p2 e st lawyer i req = (Success c m d', st')"
    and f: "findOne_p2 st i lawyer = Some d"
  shows "(p2_status req = Some s \<and> review_terminal s \<and> s \<noteq> status d
            \<longrightarrow> reviewedBy d' = Some lawyer \<and> reviewedAt d' = Some (now e))
       \<and> (p2_status req = None \<or> p2_status req = Some (status d)
            \<longrightarrow> reviewedAt d' = reviewedAt d)"
proof -
  from u f have s: "save_p2 e st d (apply_patch_p2 e lawyer req d) = Some (d', st')"
    by (auto simp: updateDocument_p2_def split: option.splits)
  from s
  have r: "reviewedBy d' = reviewedBy (apply_patch_p2 e lawyer req d)
         \<and> reviewedAt d' = reviewedAt (apply_patch_p2 e lawyer req d)"
    by (auto simp: save_p2_def Let_def split: if_splits)
  with apply_patch_p2_review[of req s d e lawyer] apply_patch_p2_same_status[of req d e lawyer]
  show ?thesis by auto
qed

text \<open>documentController.js never records the reviewer.\<close>

lemma apply_patch_reviewedBy: "reviewedBy (apply_patch e lawyer req d) = reviewedBy d"
  by (auto simp: apply_patch_def Let_def truthy_def or_default_def split: option.splits)

lemma update_keeps_reviewedBy:
  assumes u: "updateDocument e st lawyer i req = (Success c m d', st')"
    and f: "findOne st i lawyer = Some d"
  shows "reviewedBy d' = reviewedBy d"
proof -
  from u f have s: "save e st d (apply_patch e lawyer req d) = Some (d', st')"
    by (auto simp: updateDocument_def split: option.splits if_splits)
  have "reviewedBy (pre_save e d (apply_patch e lawyer req d)) = reviewedBy d"
    by (simp add: pre_save_def apply_patch_reviewedBy)
  with s show ?thesis
    by (auto simp: save_def Let_def split: if_splits)
qed

lemma update_p2_to_approved:
  "fst (updateDocument_p2 env0 store0_p2 7 0 (mark_as_p2 ''approved''))
     = Success 200 ''Document updated successfully''
         (doc0_p2\<lparr>status := ''approved'', reviewedBy := Some 7, reviewedAt := Some 1000,
            updatedAt := 1000\<rparr>)"
  by (simp add: updateDocument_p2_def mark_as_p2_def store0_p2_def doc0_p2_def findOne_p2_def
      apply_patch_p2_def review_terminal_def truthy_def save_p2_def Let_def env0_def)

text \<open>
  C3, at the input where \<^verbatim>\<open>documentController.js\<close> departs from it: lawyer 7 changes the
  status of the lease from \<^verbatim>\<open>pending_review\<close> to \<^verbatim>\<open>reviewed\<close>. The update succeeds and the
  pre-save middleware sets \<open>reviewedAt\<close>, but \<open>reviewedBy\<close> stays unset: the handler's test
  \<^verbatim>\<open>status === 'reviewed' && document.status !== 'reviewed'\<close> comes after
  \<^verbatim>\<open>document.status = status\<close> and is never true. A change to \<^verbatim>\<open>approved\<close> sets neither
  field. (\<open>update_p2_review\<close> above: \<^verbatim>\<open>unnamed/part_002\<close> sets both for all three values.)
\<close>

theorem update_to_reviewed_has_no_reviewer:
  "fst (updateDocument env0 store0 7 0 (mark_as ''reviewed''))
     = Success 200 ''Document updated successfully''
         (doc0\<lparr>status := ''reviewed'', reviewedAt := Some 1000, updatedAt := 1000\<rparr>)
   \<and> reviewedBy (doc0\<lparr>status := ''reviewed'', reviewedAt := Some 1000, updatedAt := 1000\<rparr>) = None
   \<and> fst (updateDocument env0 store0 7 0 (mark_as ''approved''))
     = Success 200 ''Document updated successfully''
         (doc0\<lparr>status := ''approved'', updatedAt := 1000\<rparr>)
   \<and> reviewedBy (doc0\<lparr>status := ''approved'', updatedAt := 1000\<rparr>) = None
   \<and> reviewedAt (doc0\<lparr>status := ''approved'', updatedAt := 1000\<rparr>) = None"
  by (simp add: updateDocument_def mark_as_def store0_def doc0_def findOne_def apply_patch_def
      truthy_def or_default_def save_def save_valid_def v_title_def v_file_def v_status_def
      enum_status_def pre_save_def Let_def env0_def)

subsection \<open>Uploads that fail\<close>

text \<open>documentController.js: nothing is stored before the relationship is found.\<close>

lemma upload_no_relationship:
  assumes "u_valid req" "findRelationship st lawyer (u_clientId req) = None"
  shows "uploadDocument e st lawyer req = (Failure 404 ''Client relationship not found'', st)"
  using assms by (simp add: uploadDocument_def)

text \<open>documentController.js: the compensation when the record cannot be created.\<close>

lemma upload_create_fails:
  assumes "uploadDocument e st lawyer req = (NoReply, st')"
  shows "\<exists>f. u_file req = Some f \<and> documents st' = documents st \<and> nextId st' = nextId st
           \<and> (\<not> unlinkFails e \<longrightarrow> files st' (path f) = None)
           \<and> (unlinkFails e \<longrightarrow> files st' (path f) = Some (content f))"
  using assms
  by (auto simp: uploadDocument_def writeFile_def unlink_def split: if_splits option.splits)

text \<open>part_002: the upload handler never touches the files.\<close>

lemma upload_p2_keeps_files: "files (snd (uploadDocument_p2 e st lawyer req)) = files st"
  by (auto simp: uploadDocument_p2_def Document_create_p2_def Let_def split: if_splits option.splits)

lemma upload_p2_no_relationship:
  assumes "u2_valid req" "findRelationship_p2 st lawyer (u2_clientId req) = None"
  shows "uploadDocument_p2 e st lawyer req
           = (Failure 404 ''Client relationship not found or inactive'', st)"
  using assms by (simp add: uploadDocument_p2_def)

lemma upload_p2_db_fails:
  assumes "dbFails e" "u2_valid req" "findRelationship_p2 st lawyer (u2_clientId req) = Some lc"
    "u2_file req = Some f"
  shows "uploadDocument_p2 e st lawyer req = (Failure 500 ''Failed to upload document'', st)"
  using assms by (simp add: uploadDocument_p2_def Document_create_p2_def Let_def)

lemma upload_down:
  "fst (uploadDocument env_down store0 7 upload0) = NoReply
   \<and> files (snd (uploadDocument env_down store0 7 upload0)) (path file1) = None
   \<and> documents (snd (uploadDocument env_down store0 7 upload0)) = documents store0"
  by (simp add: uploadDocument_def upload0_def store0_def env_down_def rel0_def findRelationship_def
      file1_def fileFilter_def allowedTypes_def fileSizeLimit_def Document_create_def Let_def
      writeFile_def unlink_def or_default_def parse_tags_def)

text \<open>
  C5, at the input where \<^verbatim>\<open>unnamed/part_002\<close> departs from it: multer has stored the file,
  the relationship exists, and \<^verbatim>\<open>Document.create\<close> throws. The handler answers 500 and the
  file is still on disk. (\<open>upload_create_fails\<close> and \<open>upload_down\<close> above:
  \<^verbatim>\<open>documentController.js\<close> unlinks the file in that case.)
\<close>

theorem failed_create_keeps_file:
  "files arrived_p2 (path file1) = Some (content file1)
   \<and> uploadDocument_p2 env_down arrived_p2 7 upload0_p2
       = (Failure 500 ''Failed to upload document'', arrived_p2)"
  by (simp add: uploadDocument_p2_def upload0_p2_def arrived_p2_def writeFile_def store0_p2_def
      env_down_def rel0_def rel8_def findRelationship_p2_def file1_def Document_create_p2_def Let_def)

text \<open>
  C6, at the input where \<^verbatim>\<open>unnamed/part_002\<close> departs from it: lawyer 6 has no relationship
  with client 9 and multer has stored the file. The handler answers 404, creates no
  record, and the file is still on disk. (\<open>upload_no_relationship\<close> above:
  \<^verbatim>\<open>documentController.js\<close> looks the relationship up before multer runs and leaves the
  state untouched.)
\<close>

theorem stranger_upload_keeps_file:
  "findRelationship_p2 arrived_p2 6 (u2_clientId upload0_p2) = None
   \<and> files arrived_p2 (path file1) = Some (content file1)
   \<and> uploadDocument_p2 env0 arrived_p2 6 upload0_p2
       = (Failure 404 ''Client relationship not found or inactive'', arrived_p2)"
  by (simp add: uploadDocument_p2_def upload0_p2_def arrived_p2_def writeFile_def store0_p2_def
      env0_def rel0_def rel8_def findRelationship_p2_def file1_def)

subsection \<open>Searching\<close>

lemma starts_with_iff: "starts_with p t \<longleftrightarrow> (\<exists>v. t = p @ v)"
  by (induction p t rule: starts_with.induct) auto

lemma contains_iff: "contains p t \<longleftrightarrow> (\<exists>u v. t = u @ p @ v)"
proof (induction t)
  case Nil
  then show ?case by simp
next
  case (Cons x t)
  show ?case
  proof
    assume "contains p (x # t)"
    then consider "starts_with p (x # t)" | "contains p t" by auto
    then show "\<exists>u v. x # t = u @ p @ v"
    proof cases
      case 1
      then obtain v where "x # t = p @ v" by (auto simp: starts_with_iff)
      then have "x # t = [] @ p @ v" by simp
      then show ?thesis by blast
    next
      case 2
      with Cons.IH obtain u v where "t = u @ p @ v" by auto
      then have "x # t = (x # u) @ p @ v" by simp
      then show ?thesis by blast
    qed
  next
    assume "\<exists>u v. x # t = u @ p @ v"
    then obtain u v where e: "x # t = u @ p @ v" by auto
    show "contains p (x # t)"
    proof (cases u)
      case Nil
      with e have "starts_with p (x # t)" by (auto simp: starts_with_iff)
      then show ?thesis by simp
    next
      case (Cons a u')
      with e have "t = u' @ p @ v" by simp
      with Cons.IH have "contains p t" by blast
      then show ?thesis by simp
    qed
  qed
qed

lemma ci_contains_iff: "ci_contains s t \<longleftrightarrow> ci_substring s t"
  by (simp add: ci_contains_def ci_substring_def contains_iff)

lemma search_match_mentions: "search_match (ci_contains s) d \<longleftrightarrow> mentions s d"
  by (auto simp: search_match_def mentions_def ci_contains_iff list_ex_iff split: option.splits)

lemma search_match_mentions_p2: "search_match_p2 (ci_contains s) d \<longleftrightarrow> mentions_p2 s d"
  by (auto simp: search_match_p2_def mentions_p2_def ci_contains_iff split: option.splits)

lemma query_match_search:
  "query_match lawyer c q (Some (ci_contains s)) d
     \<longleftrightarrow> query_match lawyer c q None d \<and> mentions s d"
  by (auto simp: query_match_def search_match_mentions)

lemma query_match_p2_search:
  "query_match_p2 lawyer q (Some (ci_contains s)) d
     \<longleftrightarrow> query_match_p2 lawyer q None d \<and> mentions_p2 s d"
  by (auto simp: query_match_p2_def search_match_mentions_p2)

lemma plain_search:
  assumes "plain s" "s \<noteq> []" "srch = Some s"
  shows "truthy srch \<and> regex_i rx (or_default srch []) = Some (ci_contains s)"
  using assms by (simp add: truthy_def regex_i_def or_default_def)

lemma matching_plain_search:
  assumes "plain s" "s \<noteq> []" "q_search q = Some s"
  shows "matching rx st lawyer q
       = filter (\<lambda>d. query_match lawyer (case q_clientId q of QId c' \<Rightarrow> Some c' | _ \<Rightarrow> None) q None d
                     \<and> mentions s d) (documents st)"
proof -
  from plain_search[OF assms, of rx] have t: "truthy (q_search q)"
    and rg: "regex_i rx (or_default (q_search q) []) = Some (ci_contains s)" by simp_all
  show ?thesis
    unfolding matching_def using t rg
    by (auto simp: query_match_search intro!: filter_cong)
qed

lemma matching_p2_plain_search:
  assumes "plain s" "s \<noteq> []" "q2_search q = Some s"
  shows "matching_p2 rx st lawyer q
       = filter (\<lambda>d. query_match_p2 lawyer q None d \<and> mentions_p2 s d) (documents st)"
proof -
  from plain_search[OF assms, of rx] have t: "truthy (q2_search q)"
    and rg: "regex_i rx (or_default (q2_search q) []) = Some (ci_contains s)" by simp_all
  show ?thesis
    unfolding matching_p2_def using t rg
    by (auto simp: query_match_p2_search intro!: filter_cong)
qed

text \<open>
  What a search for a plain string finds: \<^verbatim>\<open>documentController.js\<close> never returns a
  document for its original file name, \<^verbatim>\<open>unnamed/part_002\<close> never for a tag.
\<close>

lemma search_ignores_file_name:
  assumes "plain s" "s \<noteq> []" "q_search q = Some s"
    and "\<not> ci_substring s (title d)" "description d = None" "tags d = []"
  shows "d \<notin> set (matching rx st lawyer q)"
  using assms by (simp add: matching_plain_search mentions_def)

lemma search_ignores_tags:
  assumes "plain s" "s \<noteq> []" "q2_search q = Some s"
    and "\<not> ci_substring s (title d)" "description d = None"
    and "\<not> ci_substring s (originalFileName d)"
  shows "d \<notin> set (matching_p2 rx st lawyer q)"
  using assms by (simp add: matching_p2_plain_search mentions_p2_def)

lemmas search_eval = getDocuments_def getLawyerDocuments_def Let_def search_for_def search_for_p2_def
  truthy_def or_default_def regex_i_def plain_def plain_chars_def plain_only_def dots_def
  query_match_def query_match_p2_def search_match_def search_match_p2_def opt_eq_def opt_eq_all_def
  ci_contains_def lower_def by_createdAt_def sort_field_def sort_dir_def page_slice_def paginate_def
  ceil_div_def Document_getDocumentStats_def stats_match_def getLawyerDocumentStats_def
  summarize_p2_def tally_def

text \<open>
  C8. Lawyer 7 has a scan with \<^verbatim>\<open>contract\<close> in its original file name and a memo with the
  tag \<^verbatim>\<open>contract\<close>, both not deleted. The search for \<^verbatim>\<open>contract\<close> in
  \<^verbatim>\<open>documentController.js\<close> returns the memo and not the scan, with \<open>totalItems = 1\<close>: its
  \<^verbatim>\<open>$or\<close> has no clause for the file name. The same search in \<^verbatim>\<open>unnamed/part_002\<close> returns
  the scan and not the memo: its \<^verbatim>\<open>$or\<close> has no clause for the tags. And the search string
  is taken as a regular expression: \<^verbatim>\<open>l.ase\<close> is a substring of no field of the lease, yet
  the search for it returns the lease.
\<close>

theorem search_misses_fields:
  "documents cabinet = [scan, memo] \<and> lawyerId scan = 7 \<and> \<not> isDeleted scan
   \<and> ci_contains ''contract'' (originalFileName scan)
   \<and> getDocuments by_createdAt plain_only cabinet 7 (search_for ''contract'')
       = Success 200 []
           \<lparr> l_documents = [memo],
             l_pagination = \<lparr> currentPage = 1, totalPages = Some 1, totalItems = 1,
                              hasNext = False, hasPrev = False \<rparr>,
             l_stats = \<lparr> totalDocuments = 0, totalSize = 0, byStatus = [], byCategory = [] \<rparr> \<rparr>
   \<and> documents cabinet_p2 = [scan_p2, memo_p2] \<and> lawyerId memo_p2 = 7
   \<and> list_ex (ci_contains ''contract'') (tags memo_p2)
   \<and> (case getLawyerDocuments by_createdAt plain_only cabinet_p2 7 (search_for_p2 ''contract'') of
         Success c m r \<Rightarrow> c = 200 \<and> l_documents r = [scan_p2]
           \<and> l_pagination r = \<lparr> currentPage = 1, totalPages = Some 1, totalItems = 1,
                                  hasNext = False, hasPrev = False \<rparr>
       | Failure c m \<Rightarrow> False
       | NoReply \<Rightarrow> False)
   \<and> \<not> ci_contains ''l.ase'' (title doc0) \<and> description doc0 = Some ''first draft''
   \<and> \<not> ci_contains ''l.ase'' ''first draft'' \<and> \<not> ci_contains ''l.ase'' (originalFileName doc0)
   \<and> \<not> list_ex (ci_contains ''l.ase'') (tags doc0)
   \<and> getDocuments by_createdAt dots store0 7 (search_for ''l.ase'')
       = Success 200 []
           \<lparr> l_documents = [doc0],
             l_pagination = \<lparr> currentPage = 1, totalPages = Some 1, totalItems = 1,
                              hasNext = False, hasPrev = False \<rparr>,
             l_stats = \<lparr> totalDocuments = 0, totalSize = 0, byStatus = [], byCategory = [] \<rparr> \<rparr>"
  by (simp add: search_eval scan_def memo_def scan_p2_def memo_p2_def cabinet_def cabinet_p2_def
      store0_def store0_p2_def doc0_def doc0_p2_def)

end
